(* ===== verification/Go_Prelude.thy ===== *)
theory Go_Prelude
  imports Main "HOL-Library.Word"
begin

text \<open>
  What every component of the model shares: Go's byte strings, time values and error trees
  (with \<open>errors.Is\<close>, \<open>errors.As\<close> and \<open>errors.Join\<close>), the few functions of
  package \<open>strings\<close> the source calls, the shapes of stateful operations, and the theorem
  collections the component proofs use.
\<close>

section \<open>Theorem collections\<close>

named_theorems go_defs \<open>definitions of small pure helpers that proofs unfold freely\<close>
named_theorems err_simps \<open>what errors.Is and errors.As find in an error tree\<close>
named_theorems store_frame \<open>what an operation leaves unchanged in the store\<close>

section \<open>Values\<close>

text \<open>
  A Go \<open>string\<close> and a \<open>[]byte\<close> are byte sequences; a HOL \<open>char\<close> is one byte.
  A slice that the code distinguishes from \<open>nil\<close> is a \<open>bytes option\<close>. A
  \<open>uuid.UUID\<close> is sixteen bytes.
\<close>

type_synonym bytes = string
type_synonym uuid = "128 word"

text \<open>
  A \<open>time.Time\<close>: the instant in nanoseconds since the Unix epoch, the monotonic reading
  that \<open>time.Now\<close> attaches, and the location it is displayed in.
\<close>

record gotime =
  wall :: int
  mono :: "int option"
  zone :: string

text \<open>\<open>Time.UTC\<close> sets the location and, as documented, drops the monotonic reading.\<close>

definition time_UTC :: "gotime \<Rightarrow> gotime" where
  "time_UTC t = t\<lparr>mono := None, zone := ''UTC''\<rparr>"

text \<open>\<open>Time.Equal\<close> compares instants when one side has no monotonic reading.\<close>

definition time_Equal :: "gotime \<Rightarrow> gotime \<Rightarrow> bool" where
  "time_Equal a b =
     (case (mono a, mono b) of
        (Some x, Some y) \<Rightarrow> x = y
      | _ \<Rightarrow> wall a = wall b)"

lemma time_UTC_simps [simp]:
  "wall (time_UTC t) = wall t" "mono (time_UTC t) = None" "zone (time_UTC t) = ''UTC''"
  by (simp_all add: time_UTC_def)

lemma time_UTC_idem [simp]: "time_UTC (time_UTC t) = time_UTC t"
  by (simp add: time_UTC_def)

section \<open>Errors\<close>

text \<open>
  The sentinel error values the code compares against, each named once. The first two are the
  program's own; the others belong to the libraries that return them.
\<close>

datatype sentinel =
    ErrNotFound          \<comment> \<open>domain/tasks\<close>
  | ErrConflict          \<comment> \<open>domain/tasks\<close>
  | ErrNoRows            \<comment> \<open>pgx\<close>
  | ErrServerClosed      \<comment> \<open>net/http\<close>
  | ErrEOF               \<comment> \<open>io\<close>
  | ErrCmdNotImplemented \<comment> \<open>internal/cli\<close>
  | ErrFieldRequired     \<comment> \<open>ogen validate\<close>
  | ErrBodyRequired      \<comment> \<open>ogen validate\<close>
  | ErrNilPointer        \<comment> \<open>ogen validate\<close>
  | ErrInternalServerErrorResponse \<comment> \<open>ogen http\<close>
  | ErrNotImplemented    \<comment> \<open>ogen http\<close>

text \<open>
  An argument of a formatted message, kept unrendered: the text of an error is decided by
  \<open>fmt\<close>'s verbs, its structure is not.
\<close>

datatype fmt_arg = ArgStr string | ArgUuid uuid | ArgInt int

text \<open>
  An error value is a tree. \<open>Wrapf p e\<close> is \<open>fmt.Errorf("p: %w", e)\<close> or
  \<open>errors.Wrap(e, "p")\<close>, \<open>WrapErrorf f xs e\<close> the same with a format and its
  arguments, \<open>Errorf f xs\<close> a formatted error that wraps nothing; \<open>Joined\<close> is \<open>errors.Join\<close> of the non-nil errors;
  \<open>PgError c\<close> is a \<open>*pgconn.PgError\<close> with SQLSTATE \<open>c\<close>; \<open>Plain\<close> is any
  error without structure. The remaining constructors are the ogen error structs the
  generated server builds.
\<close>

datatype gerr =
    Sentinel sentinel
  | Plain string
  | Errorf string "fmt_arg list"
  | PgError string
  | Wrapf string gerr
  | WrapErrorf string "fmt_arg list" gerr
  | Joined "gerr list"
  | DecodeRequestError string gerr
  | DecodeParamsError string gerr
  | DecodeParamError string string gerr
  | DecodeBodyError string bytes gerr
  | ValidateError "(string \<times> gerr) list"
  | InvalidContentType string
  | UnexpectedStatusCode nat

text \<open>
  \<open>err_tree e\<close> lists the errors \<open>errors.Is\<close> and \<open>errors.As\<close> visit: \<open>e\<close>
  itself and what its \<open>Unwrap\<close> methods give, depth first and in order.
\<close>

fun err_tree :: "gerr \<Rightarrow> gerr list" where
  "err_tree (Wrapf p e) = Wrapf p e # err_tree e"
| "err_tree (WrapErrorf f xs e) = WrapErrorf f xs e # err_tree e"
| "err_tree (Joined es) = Joined es # concat (map err_tree es)"
| "err_tree (DecodeRequestError op e) = DecodeRequestError op e # err_tree e"
| "err_tree (DecodeParamsError op e) = DecodeParamsError op e # err_tree e"
| "err_tree (DecodeParamError n i e) = DecodeParamError n i e # err_tree e"
| "err_tree (DecodeBodyError ct b e) = DecodeBodyError ct b e # err_tree e"
| "err_tree (Sentinel s) = [Sentinel s]"
| "err_tree (Plain m) = [Plain m]"
| "err_tree (Errorf f xs) = [Errorf f xs]"
| "err_tree (PgError c) = [PgError c]"
| "err_tree (ValidateError fs) = [ValidateError fs]"
| "err_tree (InvalidContentType ct) = [InvalidContentType ct]"
| "err_tree (UnexpectedStatusCode n) = [UnexpectedStatusCode n]"

definition errors_Is :: "gerr \<Rightarrow> sentinel \<Rightarrow> bool" where
  "errors_Is e s = List.member (err_tree e) (Sentinel s)"

text \<open>\<open>errors.As\<close> finds the first error of the tree that has the target's type.\<close>

fun is_PgError :: "gerr \<Rightarrow> bool" where
  "is_PgError (PgError _) = True"
| "is_PgError _ = False"

fun is_DecodeRequestError :: "gerr \<Rightarrow> bool" where
  "is_DecodeRequestError (DecodeRequestError _ _) = True"
| "is_DecodeRequestError _ = False"

fun is_DecodeParamsError :: "gerr \<Rightarrow> bool" where
  "is_DecodeParamsError (DecodeParamsError _ _) = True"
| "is_DecodeParamsError _ = False"

definition errors_As :: "(gerr \<Rightarrow> bool) \<Rightarrow> gerr \<Rightarrow> gerr option" where
  "errors_As p e = List.find p (err_tree e)"

lemma errors_Is_simps [simp, err_simps]:
  "errors_Is (Sentinel s) t = (s = t)"
  "errors_Is (Plain m) t = False"
  "errors_Is (PgError c) t = False"
  "errors_Is (Errorf f xs) t = False"
  "errors_Is (WrapErrorf f xs e) t = errors_Is e t"
  "errors_Is (Wrapf p e) t = errors_Is e t"
  "errors_Is (Joined es) t = (\<exists>e\<in>set es. errors_Is e t)"
  "errors_Is (DecodeRequestError op e) t = errors_Is e t"
  "errors_Is (DecodeParamsError op e) t = errors_Is e t"
  "errors_Is (DecodeParamError nm loc e) t = errors_Is e t"
  "errors_Is (DecodeBodyError ct b e) t = errors_Is e t"
  "errors_Is (ValidateError fs) t = False"
  "errors_Is (InvalidContentType ct) t = False"
  "errors_Is (UnexpectedStatusCode code) t = False"
  by (auto simp: errors_Is_def)

lemma errors_As_simps [err_simps]:
  "errors_As p (Plain m) = (if p (Plain m) then Some (Plain m) else None)"
  "errors_As p (Errorf f xs) = (if p (Errorf f xs) then Some (Errorf f xs) else None)"
  "errors_As p (WrapErrorf f xs e) =
     (if p (WrapErrorf f xs e) then Some (WrapErrorf f xs e) else errors_As p e)"
  "errors_As p (PgError c) = (if p (PgError c) then Some (PgError c) else None)"
  "errors_As p (Sentinel s) = (if p (Sentinel s) then Some (Sentinel s) else None)"
  "errors_As p (Wrapf q e) = (if p (Wrapf q e) then Some (Wrapf q e) else errors_As p e)"
  by (simp_all add: errors_As_def)

lemma errors_As_hit [err_simps]: "p e \<Longrightarrow> errors_As p e = Some e"
  by (cases e) (simp_all add: errors_As_def)

lemma errors_As_None_iff: "errors_As p e = None \<longleftrightarrow> (\<forall>x\<in>set (err_tree e). \<not> p x)"
  by (auto simp: errors_As_def find_None_iff)

text \<open>
  \<open>errors.Join\<close> drops nil errors and is nil when nothing is left. A nil \<open>error\<close> is
  \<open>None\<close>.
\<close>

fun errors_Join :: "gerr option list \<Rightarrow> gerr option" where
  "errors_Join es =
     (let xs = concat (map (\<lambda>e. case e of None \<Rightarrow> [] | Some x \<Rightarrow> [x]) es)
      in if xs = [] then None else Some (Joined xs))"

lemma errors_Join_None: "errors_Join es = None \<longleftrightarrow> set es \<subseteq> {None}"
  by (auto simp: Let_def split: option.splits)

section \<open>Lists\<close>

lemma find_SomeD: "List.find P xs = Some x \<Longrightarrow> x \<in> set xs \<and> P x"
  by (induction xs) (auto split: if_splits)

lemma find_NoneD: "List.find P xs = None \<Longrightarrow> x \<in> set xs \<Longrightarrow> \<not> P x"
  by (induction xs) (auto split: if_splits)

lemma find_map: "List.find P (map f xs) = map_option f (List.find (\<lambda>x. P (f x)) xs)"
  by (induction xs) auto

lemma find_cong: "(\<And>x. x \<in> set xs \<Longrightarrow> P x = Q x) \<Longrightarrow> List.find P xs = List.find Q xs"
  by (induction xs) auto

section \<open>Package strings\<close>

definition strings_HasPrefix :: "string \<Rightarrow> string \<Rightarrow> bool" where
  "strings_HasPrefix s p = (take (length p) s = p)"

definition strings_TrimPrefix :: "string \<Rightarrow> string \<Rightarrow> string" where
  "strings_TrimPrefix s p = (if strings_HasPrefix s p then drop (length p) s else s)"

text \<open>\<open>strings.IndexByte\<close> and \<open>strings.Index\<close> of a one-byte separator; \<open>-1\<close> is None.\<close>

fun strings_IndexByte :: "string \<Rightarrow> char \<Rightarrow> nat option" where
  "strings_IndexByte [] c = None"
| "strings_IndexByte (x # xs) c = (if x = c then Some 0 else map_option Suc (strings_IndexByte xs c))"

definition strings_TrimRight :: "string \<Rightarrow> char \<Rightarrow> string" where
  "strings_TrimRight s c = rev (dropWhile (\<lambda>x. x = c) (rev s))"

text \<open>\<open>strings.ReplaceAll\<close> of one byte by another.\<close>

definition strings_ReplaceByte :: "string \<Rightarrow> char \<Rightarrow> char \<Rightarrow> string" where
  "strings_ReplaceByte s a b = map (\<lambda>x. if x = a then b else x) s"

text \<open>\<open>strings.ToLower\<close> on ASCII text.\<close>

definition ascii_lower :: "char \<Rightarrow> char" where
  "ascii_lower c =
     (let n = of_char c :: nat in if 65 \<le> n \<and> n \<le> 90 then char_of (n + 32) else c)"

definition strings_ToLower :: "string \<Rightarrow> string" where
  "strings_ToLower s = map ascii_lower s"

text \<open>\<open>strings.ToUpper\<close> on ASCII text, byte by byte, and the bytes it can be undone on.\<close>

definition ascii_upper :: "char \<Rightarrow> char" where
  "ascii_upper c =
     (let n = of_char c :: nat in if 97 \<le> n \<and> n \<le> 122 then char_of (n - 32) else c)"

definition no_capital :: "char \<Rightarrow> bool" where
  "no_capital c \<longleftrightarrow> \<not> (65 \<le> (of_char c :: nat) \<and> (of_char c :: nat) \<le> 90)"

lemma ascii_lower_upper: "no_capital c \<Longrightarrow> ascii_lower (ascii_upper c) = c"
  by (auto simp: ascii_lower_def ascii_upper_def no_capital_def Let_def)

lemma strings_HasPrefix_append [simp]: "strings_HasPrefix (p @ s) p"
  by (simp add: strings_HasPrefix_def)

lemma strings_HasPrefix_iff: "strings_HasPrefix s p \<longleftrightarrow> (\<exists>r. s = p @ r)"
  by (metis append_eq_conv_conj append_take_drop_id strings_HasPrefix_def)

lemma strings_TrimPrefix_append [simp]: "strings_TrimPrefix (p @ s) p = s"
  by (simp add: strings_TrimPrefix_def)

lemma strings_IndexByte_None: "strings_IndexByte s c = None \<longleftrightarrow> c \<notin> set s"
  by (induction s) auto

lemma strings_IndexByte_Some:
  "strings_IndexByte s c = Some i \<Longrightarrow>
     i < length s \<and> s ! i = c \<and> c \<notin> set (take i s)"
proof (induction s arbitrary: i)
  case Nil
  then show ?case by simp
next
  case (Cons x xs)
  then show ?case by (auto split: if_splits)
qed

lemma strings_IndexByte_append:
  "c \<notin> set a \<Longrightarrow> strings_IndexByte (a @ c # b) c = Some (length a)"
  by (induction a) auto

section \<open>Stateful operations\<close>

text \<open>
  A method that may change shared state is a function from the state to the new state and its
  result. \<open>(T, error)\<close> results are \<open>gerr + 'a\<close>, a bare \<open>error\<close> is
  \<open>gerr option\<close>.
\<close>

type_synonym ('s, 'a) op = "'s \<Rightarrow> 's \<times> 'a"
type_synonym ('s, 'a) op_res = "'s \<Rightarrow> 's \<times> (gerr + 'a)"
type_synonym 's op_err = "'s \<Rightarrow> 's \<times> gerr option"

end
