(* ===== verification/Jx_Iface.thy ===== *)
theory Jx_Iface
  imports Go_Prelude
begin

text \<open>
  The JSON library jx and ogen's json package, as the generated codecs see them. Neither is part
  of the repository: the encoder is the record of the calls made on it, the decoder is an
  arbitrary tree of answers, and how bytes and trees correspond is a parameter. The last section
  states, for one written value, what reading it back means.
\<close>

section \<open>Encoder and decoder\<close>

datatype jx_call =
    JxObjStart
  | JxObjEnd
  | JxFieldStart bytes
  | JxStr bytes
  | JxRaw bytes
  | JxUUID uuid          \<comment> \<open>json.EncodeUUID\<close>
  | JxDateTime gotime    \<comment> \<open>json.EncodeDateTime\<close>

type_synonym encoder = "jx_call list"

text \<open>
  A decoder that stands at a value, as what each of its methods answers there: \<open>Str\<close> and
  \<open>StrBytes\<close>, ogen's \<open>DecodeUUID\<close> and \<open>DecodeDateTime\<close>, \<open>RawAppend\<close>,
  \<open>Skip\<close>, and for \<open>ObjBytes\<close> the members it visits, in order, and the error it stops
  with. Answers come as Go returns them, a value and an error.
\<close>

datatype jx_node = JxNode
  (nd_Str: "bytes \<times> gerr option")
  (nd_UUID: "uuid \<times> gerr option")
  (nd_DateTime: "gotime \<times> gerr option")
  (nd_Raw: "bytes \<times> gerr option")
  (nd_Skip: "gerr option")
  (nd_Obj: "(bytes \<times> jx_node) list")
  (nd_ObjErr: "gerr option")

text \<open>A buffer under decoding: its first value, and what \<open>Skip\<close> answers after it.\<close>

record jx_doc =
  doc_root :: jx_node
  doc_rest :: "gerr option"

text \<open>
  \<open>jx_callback\<close> is the error \<open>ObjBytes\<close> returns for an error of its callback;
  \<open>go_range\<close> the order in which a Go map is iterated.
\<close>

record jx_env =
  jx_DecodeBytes :: "bytes \<Rightarrow> jx_doc"
  jx_Bytes :: "encoder \<Rightarrow> bytes"
  jx_callback :: "gerr \<Rightarrow> gerr"
  go_range :: "(bytes \<times> bytes) list \<Rightarrow> (bytes \<times> bytes) list"

fun obj_members ::
  "jx_env \<Rightarrow> (bytes \<Rightarrow> jx_node \<Rightarrow> 's op_err) \<Rightarrow> (bytes \<times> jx_node) list \<Rightarrow> gerr option \<Rightarrow> 's op_err" where
  "obj_members J f [] stop s = (s, stop)"
| "obj_members J f ((k, n) # ms) stop s =
     (case f k n s of
        (s1, None) \<Rightarrow> obj_members J f ms stop s1
      | (s1, Some e) \<Rightarrow> (s1, Some (jx_callback J e)))"

definition jx_ObjBytes :: "jx_env \<Rightarrow> jx_node \<Rightarrow> (bytes \<Rightarrow> jx_node \<Rightarrow> 's op_err) \<Rightarrow> 's op_err" where
  "jx_ObjBytes J d f = obj_members J f (nd_Obj d) (nd_ObjErr d)"

lemma obj_members_append:
  "obj_members J f (xs @ ys) stop s =
     (case obj_members J f xs None s of
        (s1, None) \<Rightarrow> obj_members J f ys stop s1
      | (s1, Some e) \<Rightarrow> (s1, Some e))"
  by (induction xs arbitrary: s) (auto split: prod.splits option.splits)

section \<open>Reading back what was written\<close>

text \<open>A JSON value, the calls that write it, and a decoder that presents it.\<close>

datatype jx_val =
    VStr bytes
  | VRaw bytes
  | VUUID uuid
  | VTime gotime
  | VObj "(bytes \<times> jx_val) list"

fun emit :: "jx_val \<Rightarrow> encoder" and emit_members :: "(bytes \<times> jx_val) list \<Rightarrow> encoder" where
  "emit (VStr b) = [JxStr b]"
| "emit (VRaw b) = [JxRaw b]"
| "emit (VUUID u) = [JxUUID u]"
| "emit (VTime t) = [JxDateTime t]"
| "emit (VObj ms) = JxObjStart # emit_members ms @ [JxObjEnd]"
| "emit_members [] = []"
| "emit_members ((k, v) # ms) = JxFieldStart k # emit v @ emit_members ms"

text \<open>
  \<open>reads tm v n\<close>: the decoder at \<open>n\<close> answers the value \<open>v\<close>. A written time is read
  as \<open>tm\<close> of it, since the wire format decides how much of it survives.
\<close>

fun reads :: "(gotime \<Rightarrow> gotime) \<Rightarrow> jx_val \<Rightarrow> jx_node \<Rightarrow> bool"
  and reads_members :: "(gotime \<Rightarrow> gotime) \<Rightarrow> (bytes \<times> jx_val) list \<Rightarrow> (bytes \<times> jx_node) list \<Rightarrow> bool" where
  "reads tm (VStr b) n = (nd_Str n = (b, None))"
| "reads tm (VRaw b) n = (nd_Raw n = (b, None))"
| "reads tm (VUUID u) n = (nd_UUID n = (u, None))"
| "reads tm (VTime t) n = (nd_DateTime n = (tm t, None))"
| "reads tm (VObj ms) n = (reads_members tm ms (nd_Obj n) \<and> nd_ObjErr n = None)"
| "reads_members tm [] ns = (ns = [])"
| "reads_members tm ((k, v) # ms) ns =
     (case ns of [] \<Rightarrow> False
      | (k', n) # ns' \<Rightarrow> k' = k \<and> reads tm v n \<and> reads_members tm ms ns')"

text \<open>
  The library's contract for one value: decoding the bytes it wrote presents that value, and
  nothing but the end of input follows.
\<close>

definition jx_reads_back :: "jx_env \<Rightarrow> (gotime \<Rightarrow> gotime) \<Rightarrow> jx_val \<Rightarrow> bool" where
  "jx_reads_back J tm v \<longleftrightarrow>
     (let d = jx_DecodeBytes J (jx_Bytes J (emit v))
      in reads tm v (doc_root d) \<and> doc_rest d = Some (Sentinel ErrEOF))"

text \<open>A decoder that keeps the contract, for concrete inputs.\<close>

definition bad_node :: jx_node where
  "bad_node =
     JxNode ([], Some (Plain ''unexpected'')) (0, Some (Plain ''unexpected''))
       (\<lparr>wall = 0, mono = None, zone = ''UTC''\<rparr>, Some (Plain ''unexpected''))
       ([], Some (Plain ''unexpected'')) None [] (Some (Plain ''unexpected''))"

fun node_of :: "(gotime \<Rightarrow> gotime) \<Rightarrow> jx_val \<Rightarrow> jx_node"
  and nodes_of :: "(gotime \<Rightarrow> gotime) \<Rightarrow> (bytes \<times> jx_val) list \<Rightarrow> (bytes \<times> jx_node) list" where
  "node_of tm (VStr b) =
     JxNode (b, None) (nd_UUID bad_node) (nd_DateTime bad_node) (b, None) None [] (nd_ObjErr bad_node)"
| "node_of tm (VRaw b) =
     JxNode (nd_Str bad_node) (nd_UUID bad_node) (nd_DateTime bad_node) (b, None) None []
       (nd_ObjErr bad_node)"
| "node_of tm (VUUID u) =
     JxNode (nd_Str bad_node) (u, None) (nd_DateTime bad_node) (nd_Raw bad_node) None []
       (nd_ObjErr bad_node)"
| "node_of tm (VTime t) =
     JxNode (nd_Str bad_node) (nd_UUID bad_node) (tm t, None) (nd_Raw bad_node) None []
       (nd_ObjErr bad_node)"
| "node_of tm (VObj ms) =
     JxNode (nd_Str bad_node) (nd_UUID bad_node) (nd_DateTime bad_node) (nd_Raw bad_node) None
       (nodes_of tm ms) None"
| "nodes_of tm [] = []"
| "nodes_of tm ((k, v) # ms) = (k, node_of tm v) # nodes_of tm ms"

lemma reads_node_of: "reads tm v (node_of tm v)"
  and reads_nodes_of: "reads_members tm ms (nodes_of tm ms)"
  by (induction tm v and tm ms rule: node_of_nodes_of.induct) auto

definition echo_jx :: "(gotime \<Rightarrow> gotime) \<Rightarrow> jx_val \<Rightarrow> jx_env" where
  "echo_jx tm v =
     \<lparr>jx_DecodeBytes = (\<lambda>_. \<lparr>doc_root = node_of tm v, doc_rest = Some (Sentinel ErrEOF)\<rparr>),
      jx_Bytes = (\<lambda>_. ''{}''), jx_callback = Wrapf ''callback'', go_range = rev\<rparr>"

lemma echo_jx_reads_back [simp]: "jx_reads_back (echo_jx tm v) tm v"
  by (simp add: jx_reads_back_def echo_jx_def Let_def reads_node_of)

lemma emit_members_append: "emit_members (xs @ ys) = emit_members xs @ emit_members ys"
  by (induction xs) auto

end
