(* ===== verification/Oas_Types.thy ===== *)
theory Oas_Types
  imports Go_Prelude
begin

text \<open>
  internal/api/oas/oas_schemas_gen.go and oas_interfaces_gen.go: the request and response types
  of the HTTP contract, the optional values, and the two string enumerations with their text
  codecs.
\<close>

section \<open>Optional values\<close>

text \<open>
  \<open>OptString\<close> and \<open>OptCreateTaskRequestPayload\<close> are structs, not pointers: an unset one
  still holds a value, the zero value after \<open>Reset\<close>. The payload is a Go map from member
  names to raw JSON: \<open>None\<close> is the nil map, and a non-nil map lists its entries, each key
  once, in the order of insertion (what order a \<open>range\<close> visits them in is left to the
  encoder's parameter).
\<close>

type_synonym payload = "(bytes \<times> bytes) list option"

record opt_string =
  os_Value :: string
  os_Set :: bool

definition NewOptString :: "string \<Rightarrow> opt_string" where
  "NewOptString v = \<lparr>os_Value = v, os_Set = True\<rparr>"

definition OptString_IsSet :: "opt_string \<Rightarrow> bool" where
  "OptString_IsSet o' = os_Set o'"

definition OptString_Reset :: "opt_string \<Rightarrow> opt_string" where
  "OptString_Reset o' = o'\<lparr>os_Value := [], os_Set := False\<rparr>"

definition OptString_SetTo :: "string \<Rightarrow> opt_string \<Rightarrow> opt_string" where
  "OptString_SetTo v o' = o'\<lparr>os_Set := True, os_Value := v\<rparr>"

text \<open>\<open>Get\<close> returns the pair \<open>(v, ok)\<close>; the value of an unset one reads as zero.\<close>

definition OptString_Get :: "opt_string \<Rightarrow> string \<times> bool" where
  "OptString_Get o' = (if \<not> os_Set o' then ([], False) else (os_Value o', True))"

definition OptString_Or :: "opt_string \<Rightarrow> string \<Rightarrow> string" where
  "OptString_Or o' d = (case OptString_Get o' of (v, ok) \<Rightarrow> if ok then v else d)"

record opt_payload =
  op_Value :: payload
  op_Set :: bool

definition NewOptPayload :: "payload \<Rightarrow> opt_payload" where
  "NewOptPayload v = \<lparr>op_Value = v, op_Set = True\<rparr>"

definition OptPayload_IsSet :: "opt_payload \<Rightarrow> bool" where
  "OptPayload_IsSet o' = op_Set o'"

definition OptPayload_Reset :: "opt_payload \<Rightarrow> opt_payload" where
  "OptPayload_Reset o' = o'\<lparr>op_Value := None, op_Set := False\<rparr>"

definition OptPayload_SetTo :: "payload \<Rightarrow> opt_payload \<Rightarrow> opt_payload" where
  "OptPayload_SetTo v o' = o'\<lparr>op_Set := True, op_Value := v\<rparr>"

definition OptPayload_Get :: "opt_payload \<Rightarrow> payload \<times> bool" where
  "OptPayload_Get o' = (if \<not> op_Set o' then (None, False) else (op_Value o', True))"

definition OptPayload_Or :: "opt_payload \<Rightarrow> payload \<Rightarrow> payload" where
  "OptPayload_Or o' d = (case OptPayload_Get o' of (v, ok) \<Rightarrow> if ok then v else d)"

lemmas opt_defs [go_defs] =
  NewOptString_def OptString_IsSet_def OptString_Reset_def OptString_SetTo_def
  OptString_Get_def OptString_Or_def
  NewOptPayload_def OptPayload_IsSet_def OptPayload_Reset_def OptPayload_SetTo_def
  OptPayload_Get_def OptPayload_Or_def

section \<open>The payload map\<close>

text \<open>\<open>init\<close> allocates a nil map; \<open>m[k] = v\<close> overwrites in place or adds.\<close>

definition payload_init :: "payload \<Rightarrow> (bytes \<times> bytes) list" where
  "payload_init s = (case s of None \<Rightarrow> [] | Some m \<Rightarrow> m)"

fun map_assign :: "bytes \<Rightarrow> bytes \<Rightarrow> (bytes \<times> bytes) list \<Rightarrow> (bytes \<times> bytes) list" where
  "map_assign k v [] = [(k, v)]"
| "map_assign k v ((k', v') # m) = (if k = k' then (k, v) # m else (k', v') # map_assign k v m)"

lemma map_assign_keys: "fst ` set (map_assign k v m) = insert k (fst ` set m)"
  by (induction k v m rule: map_assign.induct) (auto simp: insert_commute)

lemma map_assign_distinct: "distinct (map fst m) \<Longrightarrow> distinct (map fst (map_assign k v m))"
proof (induction m)
  case Nil
  then show ?case by simp
next
  case (Cons x m)
  then show ?case using map_assign_keys [of k v m] by (cases x) (auto simp: image_iff)
qed

lemma map_assign_lookup: "map_of (map_assign k v m) = (map_of m)(k \<mapsto> v)"
  by (induction m) auto

lemma map_assign_fresh: "k \<notin> fst ` set m \<Longrightarrow> map_assign k v m = m @ [(k, v)]"
  by (induction m) auto

section \<open>Enumerations\<close>

text \<open>
  Both are Go string types: the constants are the contract's vocabulary, and nothing but
  \<open>Validate\<close> keeps other strings out.
\<close>

type_synonym error_code = string

definition ErrorCodeInvalidRequestBody :: error_code where
  "ErrorCodeInvalidRequestBody = ''invalid_request_body''"
definition ErrorCodeInvalidParameter :: error_code where
  "ErrorCodeInvalidParameter = ''invalid_parameter''"
definition ErrorCodeTaskNotFound :: error_code where
  "ErrorCodeTaskNotFound = ''task_not_found''"
definition ErrorCodeInternalError :: error_code where
  "ErrorCodeInternalError = ''internal_error''"

lemmas error_code_defs [go_defs] =
  ErrorCodeInvalidRequestBody_def ErrorCodeInvalidParameter_def ErrorCodeTaskNotFound_def
  ErrorCodeInternalError_def

definition ErrorCode_AllValues :: "error_code list" where
  "ErrorCode_AllValues =
     [ErrorCodeInvalidRequestBody, ErrorCodeInvalidParameter, ErrorCodeTaskNotFound,
      ErrorCodeInternalError]"

definition ErrorCode_MarshalText :: "error_code \<Rightarrow> gerr + bytes" where
  "ErrorCode_MarshalText s =
     (if s = ErrorCodeInvalidRequestBody then Inr s
      else if s = ErrorCodeInvalidParameter then Inr s
      else if s = ErrorCodeTaskNotFound then Inr s
      else if s = ErrorCodeInternalError then Inr s
      else Inl (Errorf ''invalid value: %q'' [ArgStr s]))"

text \<open>\<open>UnmarshalText\<close> leaves its receiver alone on an error.\<close>

definition ErrorCode_UnmarshalText :: "bytes \<Rightarrow> error_code op_err" where
  "ErrorCode_UnmarshalText data s =
     (if data = ErrorCodeInvalidRequestBody then (ErrorCodeInvalidRequestBody, None)
      else if data = ErrorCodeInvalidParameter then (ErrorCodeInvalidParameter, None)
      else if data = ErrorCodeTaskNotFound then (ErrorCodeTaskNotFound, None)
      else if data = ErrorCodeInternalError then (ErrorCodeInternalError, None)
      else (s, Some (Errorf ''invalid value: %q'' [ArgStr data])))"

type_synonym oas_status = string

definition TaskStatusPending :: oas_status where "TaskStatusPending = ''pending''"
definition TaskStatusRunning :: oas_status where "TaskStatusRunning = ''running''"
definition TaskStatusSucceeded :: oas_status where "TaskStatusSucceeded = ''succeeded''"
definition TaskStatusFailed :: oas_status where "TaskStatusFailed = ''failed''"
definition TaskStatusCancelled :: oas_status where "TaskStatusCancelled = ''cancelled''"

lemmas oas_status_defs [go_defs] =
  TaskStatusPending_def TaskStatusRunning_def TaskStatusSucceeded_def TaskStatusFailed_def
  TaskStatusCancelled_def

definition TaskStatus_AllValues :: "oas_status list" where
  "TaskStatus_AllValues =
     [TaskStatusPending, TaskStatusRunning, TaskStatusSucceeded, TaskStatusFailed,
      TaskStatusCancelled]"

definition TaskStatus_MarshalText :: "oas_status \<Rightarrow> gerr + bytes" where
  "TaskStatus_MarshalText s =
     (if s = TaskStatusPending then Inr s
      else if s = TaskStatusRunning then Inr s
      else if s = TaskStatusSucceeded then Inr s
      else if s = TaskStatusFailed then Inr s
      else if s = TaskStatusCancelled then Inr s
      else Inl (Errorf ''invalid value: %q'' [ArgStr s]))"

definition TaskStatus_UnmarshalText :: "bytes \<Rightarrow> oas_status op_err" where
  "TaskStatus_UnmarshalText data s =
     (if data = TaskStatusPending then (TaskStatusPending, None)
      else if data = TaskStatusRunning then (TaskStatusRunning, None)
      else if data = TaskStatusSucceeded then (TaskStatusSucceeded, None)
      else if data = TaskStatusFailed then (TaskStatusFailed, None)
      else if data = TaskStatusCancelled then (TaskStatusCancelled, None)
      else (s, Some (Errorf ''invalid value: %q'' [ArgStr data])))"

section \<open>Requests and responses\<close>

record create_task_request =
  cr_Handler :: string
  cr_Payload :: opt_payload
  cr_IdempotencyKey :: opt_string

record oas_error =
  oe_Code :: error_code
  oe_Message :: string

record oas_task =
  ot_ID :: uuid
  ot_Status :: oas_status
  ot_CreatedAt :: gotime

text \<open>
  A response interface holds nil or a pointer to one of its implementations;
  \<open>CreateTaskBadRequest\<close> and the like are \<open>type ... Error\<close>.
\<close>

datatype create_task_res =
    CreateTaskResTask oas_task
  | CreateTaskBadRequest oas_error
  | CreateTaskInternalServerError oas_error
  | CreateTaskResNil

datatype get_task_res =
    GetTaskResTask oas_task
  | GetTaskNotFound oas_error
  | GetTaskInternalServerError oas_error
  | GetTaskResNil

definition zero_time :: gotime where
  "zero_time = \<lparr>wall = -62135596800000000000, mono = None, zone = ''UTC''\<rparr>"

definition zero_create_task_request :: create_task_request where
  "zero_create_task_request =
     \<lparr>cr_Handler = [], cr_Payload = \<lparr>op_Value = None, op_Set = False\<rparr>,
      cr_IdempotencyKey = \<lparr>os_Value = [], os_Set = False\<rparr>\<rparr>"

definition zero_oas_error :: oas_error where
  "zero_oas_error = \<lparr>oe_Code = [], oe_Message = []\<rparr>"

definition zero_oas_task :: oas_task where
  "zero_oas_task = \<lparr>ot_ID = 0, ot_Status = [], ot_CreatedAt = zero_time\<rparr>"

end
