(* ===== verification/Oas_Validate.thy ===== *)
theory Oas_Validate
  imports Oas_Types
begin

text \<open>
  internal/api/oas/oas_validators_gen.go: the \<open>Validate\<close> methods. The check of a string
  against length bounds, \<open>validate.String.Validate\<close>, belongs to ogen and is the parameter
  \<open>vs\<close>.
\<close>

section \<open>String rules\<close>

text \<open>
  The literal of \<open>validate.String\<close> the generated code builds; \<open>Regex\<close> is nil throughout.
\<close>

record string_rules =
  sr_MinLength :: int
  sr_MinLengthSet :: bool
  sr_MaxLength :: int
  sr_MaxLengthSet :: bool
  sr_Email :: bool
  sr_Hostname :: bool
  sr_MinNumericSet :: bool
  sr_MaxNumericSet :: bool

type_synonym validate_string = "string_rules \<Rightarrow> string \<Rightarrow> gerr option"

definition len_1_128 :: string_rules where
  "len_1_128 =
     \<lparr>sr_MinLength = 1, sr_MinLengthSet = True, sr_MaxLength = 128, sr_MaxLengthSet = True,
      sr_Email = False, sr_Hostname = False, sr_MinNumericSet = False, sr_MaxNumericSet = False\<rparr>"

text \<open>
  The documented behaviour of the ogen check for rules that set only lengths: it passes exactly
  when the length the library counts, \<open>cnt\<close>, lies between the bounds that are set.
\<close>

definition counts_length :: "(string \<Rightarrow> int) \<Rightarrow> validate_string \<Rightarrow> bool" where
  "counts_length cnt vs \<longleftrightarrow>
     (\<forall>r s. \<not> sr_Email r \<and> \<not> sr_Hostname r \<and> \<not> sr_MinNumericSet r \<and> \<not> sr_MaxNumericSet r \<longrightarrow>
        (vs r s = None \<longleftrightarrow>
           (sr_MinLengthSet r \<longrightarrow> sr_MinLength r \<le> cnt s) \<and>
           (sr_MaxLengthSet r \<longrightarrow> cnt s \<le> sr_MaxLength r)))"

section \<open>Collected failures\<close>

text \<open>\<open>failures\<close> in field order; no failure is nil.\<close>

fun field_failures :: "(string \<times> gerr option) list \<Rightarrow> (string \<times> gerr) list" where
  "field_failures [] = []"
| "field_failures ((n, None) # checks) = field_failures checks"
| "field_failures ((n, Some e) # checks) = (n, e) # field_failures checks"

definition validate_error :: "(string \<times> gerr option) list \<Rightarrow> gerr option" where
  "validate_error checks =
     (let failures = field_failures checks
      in if length failures > 0 then Some (ValidateError failures) else None)"

lemma validate_error_None: "validate_error fs = None \<longleftrightarrow> list_all (\<lambda>(n, e). e = None) fs"
  by (induction fs rule: field_failures.induct) (auto simp: validate_error_def Let_def)

section \<open>The Validate methods\<close>

definition ErrorCode_Validate :: "error_code \<Rightarrow> gerr option" where
  "ErrorCode_Validate s =
     (if s = ''invalid_request_body'' then None
      else if s = ''invalid_parameter'' then None
      else if s = ''task_not_found'' then None
      else if s = ''internal_error'' then None
      else Some (Errorf ''invalid value: %v'' [ArgStr s]))"

definition TaskStatus_Validate :: "oas_status \<Rightarrow> gerr option" where
  "TaskStatus_Validate s =
     (if s = ''pending'' then None
      else if s = ''running'' then None
      else if s = ''succeeded'' then None
      else if s = ''failed'' then None
      else if s = ''cancelled'' then None
      else Some (Errorf ''invalid value: %v'' [ArgStr s]))"

text \<open>A nil receiver is \<open>None\<close>.\<close>

definition Error_Validate :: "oas_error option \<Rightarrow> gerr option" where
  "Error_Validate s =
     (case s of None \<Rightarrow> Some (Sentinel ErrNilPointer)
      | Some e \<Rightarrow> validate_error [(''code'', ErrorCode_Validate (oe_Code e))])"

definition Task_Validate :: "oas_task option \<Rightarrow> gerr option" where
  "Task_Validate s =
     (case s of None \<Rightarrow> Some (Sentinel ErrNilPointer)
      | Some t \<Rightarrow> validate_error [(''status'', TaskStatus_Validate (ot_Status t))])"

text \<open>The four alias types convert to \<open>*Error\<close> and delegate.\<close>

definition CreateTaskBadRequest_Validate :: "oas_error option \<Rightarrow> gerr option" where
  "CreateTaskBadRequest_Validate s = Error_Validate s"

definition CreateTaskInternalServerError_Validate :: "oas_error option \<Rightarrow> gerr option" where
  "CreateTaskInternalServerError_Validate s = Error_Validate s"

definition GetTaskInternalServerError_Validate :: "oas_error option \<Rightarrow> gerr option" where
  "GetTaskInternalServerError_Validate s = Error_Validate s"

definition GetTaskNotFound_Validate :: "oas_error option \<Rightarrow> gerr option" where
  "GetTaskNotFound_Validate s = Error_Validate s"

definition wrap_err :: "string \<Rightarrow> gerr option \<Rightarrow> gerr option" where
  "wrap_err p e = map_option (Wrapf p) e"

definition CreateTaskRequest_Validate ::
  "validate_string \<Rightarrow> create_task_request option \<Rightarrow> gerr option" where
  "CreateTaskRequest_Validate vs s =
     (case s of None \<Rightarrow> Some (Sentinel ErrNilPointer)
      | Some r \<Rightarrow>
          validate_error
            [(''handler'', wrap_err ''string'' (vs len_1_128 (cr_Handler r))),
             (''idempotency_key'',
              (case OptString_Get (cr_IdempotencyKey r) of (value, ok) \<Rightarrow>
                 if ok then wrap_err ''string'' (vs len_1_128 value) else None))])"

lemma wrap_err_None [simp]: "wrap_err p e = None \<longleftrightarrow> e = None"
  by (simp add: wrap_err_def)

lemma counts_len_1_128:
  "counts_length cnt vs \<Longrightarrow> vs len_1_128 s = None \<longleftrightarrow> 1 \<le> cnt s \<and> cnt s \<le> 128"
  by (simp add: counts_length_def len_1_128_def)

lemma CreateTaskRequest_Validate_ok:
  "counts_length cnt vs \<Longrightarrow> CreateTaskRequest_Validate vs (Some r) = None \<longleftrightarrow>
     1 \<le> cnt (cr_Handler r) \<and> cnt (cr_Handler r) \<le> 128 \<and>
     (os_Set (cr_IdempotencyKey r) \<longrightarrow>
        1 \<le> cnt (os_Value (cr_IdempotencyKey r)) \<and> cnt (os_Value (cr_IdempotencyKey r)) \<le> 128)"
  by (auto simp: CreateTaskRequest_Validate_def validate_error_None counts_len_1_128
      OptString_Get_def)

lemma ErrorCode_Validate_ok: "ErrorCode_Validate c = None \<longleftrightarrow> c \<in> set ErrorCode_AllValues"
  by (simp add: ErrorCode_Validate_def ErrorCode_AllValues_def error_code_defs)

lemma TaskStatus_Validate_ok: "TaskStatus_Validate c = None \<longleftrightarrow> c \<in> set TaskStatus_AllValues"
  by (simp add: TaskStatus_Validate_def TaskStatus_AllValues_def oas_status_defs)

lemma Error_Validate_ok [simp]:
  "Error_Validate (Some e) = None \<longleftrightarrow> oe_Code e \<in> set ErrorCode_AllValues"
  by (simp add: Error_Validate_def validate_error_None ErrorCode_Validate_ok)

lemma Task_Validate_ok [simp]:
  "Task_Validate (Some t) = None \<longleftrightarrow> ot_Status t \<in> set TaskStatus_AllValues"
  by (simp add: Task_Validate_def validate_error_None TaskStatus_Validate_ok)

text \<open>
  The three places that list an enumeration agree: a string passes \<open>Validate\<close> exactly
  when \<open>AllValues\<close> has it, exactly when \<open>MarshalText\<close> encodes it, and exactly when
  \<open>UnmarshalText\<close> accepts it, which then gives it back; on any other string
  \<open>UnmarshalText\<close> leaves its receiver alone.
\<close>

lemma enumerations_agree:
  "(ErrorCode_Validate c = None) = (c \<in> set ErrorCode_AllValues)
   \<and> (ErrorCode_MarshalText c = Inr c) = (c \<in> set ErrorCode_AllValues)
   \<and> ErrorCode_UnmarshalText c old =
       (if c \<in> set ErrorCode_AllValues then (c, None)
        else (old, Some (Errorf ''invalid value: %q'' [ArgStr c])))
   \<and> (TaskStatus_Validate st = None) = (st \<in> set TaskStatus_AllValues)
   \<and> (TaskStatus_MarshalText st = Inr st) = (st \<in> set TaskStatus_AllValues)
   \<and> TaskStatus_UnmarshalText st old' =
       (if st \<in> set TaskStatus_AllValues then (st, None)
        else (old', Some (Errorf ''invalid value: %q'' [ArgStr st])))"
proof (intro conjI)
  show "(ErrorCode_Validate c = None) = (c \<in> set ErrorCode_AllValues)"
    by (rule ErrorCode_Validate_ok)
  show "(TaskStatus_Validate st = None) = (st \<in> set TaskStatus_AllValues)"
    by (rule TaskStatus_Validate_ok)
qed (auto simp: ErrorCode_MarshalText_def ErrorCode_UnmarshalText_def ErrorCode_AllValues_def
    TaskStatus_MarshalText_def TaskStatus_UnmarshalText_def TaskStatus_AllValues_def)

end
