(* ===== verification/Http_Iface.thy ===== *)
theory Http_Iface
  imports Jx_Iface Oas_Validate
begin

text \<open>
  What the generated server and client use of \<open>net/http\<close> and \<open>net/url\<close>, and the record
  of the third-party functions they call.
\<close>

section \<open>Requests\<close>

text \<open>
  \<open>rq_Header h\<close> is what \<open>Header.Get(h)\<close> returns (empty when absent); \<open>rq_Body\<close> is
  what reading the body to its end delivers, with the error that stops it.
\<close>

record http_request =
  rq_Method :: string
  rq_Path :: string
  rq_RawPath :: string
  rq_Header :: "string \<Rightarrow> string"
  rq_ContentLength :: int
  rq_Body :: bytes
  rq_BodyErr :: "gerr option"

section \<open>Response writers\<close>

text \<open>
  The state behind an \<open>http.ResponseWriter\<close>: the header map, the status line and the header
  that went out with it, the body, and the error the connection answers writes with.
  \<open>rw_recorder\<close> is the field \<open>status\<close> of the \<open>codeRecorder\<close> wrapped around the
  writer, once a handler has wrapped it.
\<close>

record resp_writer =
  rw_header :: "(string \<times> string) list"
  rw_status :: "nat option"
  rw_sent :: "(string \<times> string) list"
  rw_body :: bytes
  rw_werr :: "gerr option"
  rw_recorder :: "nat option"

text \<open>
  A writer as the HTTP server hands it over: nothing sent, not wrapped, and a connection whose
  write errors are its own, not ogen's marker for a 500 answer.
\<close>

definition fresh_writer :: "resp_writer \<Rightarrow> bool" where
  "fresh_writer w \<longleftrightarrow> rw_status w = None \<and> rw_body w = [] \<and> rw_recorder w = None
     \<and> (case rw_werr w of None \<Rightarrow> True | Some e \<Rightarrow> \<not> errors_Is e ErrInternalServerErrorResponse)"

text \<open>\<open>Header().Set\<close> replaces the value or adds the name.\<close>

definition header_Set :: "string \<Rightarrow> string \<Rightarrow> resp_writer \<Rightarrow> resp_writer" where
  "header_Set k v w = w\<lparr>rw_header := filter (\<lambda>(k', _). k' \<noteq> k) (rw_header w) @ [(k, v)]\<rparr>"

definition header_of :: "(string \<times> string) list \<Rightarrow> string \<Rightarrow> string" where
  "header_of h k = (case map_of h k of None \<Rightarrow> [] | Some v \<Rightarrow> v)"

text \<open>Only the first \<open>WriteHeader\<close> sends a status line; a later one is logged and ignored.\<close>

definition net_WriteHeader :: "nat \<Rightarrow> resp_writer \<Rightarrow> resp_writer" where
  "net_WriteHeader status w =
     (if rw_status w = None then w\<lparr>rw_status := Some status, rw_sent := rw_header w\<rparr> else w)"

text \<open>
  \<open>codeRecorder.WriteHeader\<close> notes the status and passes it on; an unwrapped writer only
  passes it on. \<open>Write\<close> is promoted from the embedded writer: it sends an implicit 200
  without the recorder noticing.
\<close>

definition rw_WriteHeader :: "nat \<Rightarrow> resp_writer \<Rightarrow> resp_writer" where
  "rw_WriteHeader status w =
     net_WriteHeader status
       (case rw_recorder w of None \<Rightarrow> w | Some _ \<Rightarrow> w\<lparr>rw_recorder := Some status\<rparr>)"

definition rw_Write :: "bytes \<Rightarrow> resp_writer op_err" where
  "rw_Write b w =
     (let w1 = (if rw_status w = None then net_WriteHeader 200 w else w)
      in case rw_werr w1 of Some e \<Rightarrow> (w1, Some e)
         | None \<Rightarrow> (w1\<lparr>rw_body := rw_body w1 @ b\<rparr>, None))"

text \<open>\<open>http.NotFound\<close>.\<close>

definition http_NotFound :: "http_request \<Rightarrow> resp_writer \<Rightarrow> resp_writer" where
  "http_NotFound r w =
     fst (rw_Write (''404 page not found'' @ [CHR 0x0A])
       (rw_WriteHeader 404
         (header_Set ''X-Content-Type-Options'' ''nosniff''
           (header_Set ''Content-Type'' ''text/plain; charset=utf-8'' w))))"

lemma header_Set_simps [simp]:
  "rw_status (header_Set k v w) = rw_status w" "rw_sent (header_Set k v w) = rw_sent w"
  "rw_body (header_Set k v w) = rw_body w" "rw_werr (header_Set k v w) = rw_werr w"
  "rw_recorder (header_Set k v w) = rw_recorder w"
  by (simp_all add: header_Set_def)

lemma map_of_append_Some: "map_of xs k = None \<Longrightarrow> map_of (xs @ ys) k = map_of ys k"
  by (induction xs) auto

lemma header_of_Set: "header_of (rw_header (header_Set k v w)) k = v"
proof -
  have "map_of (filter (\<lambda>(k', _). k' \<noteq> k) (rw_header w)) k = None"
    by (auto simp: map_of_eq_None_iff)
  then show ?thesis
    by (simp add: header_of_def header_Set_def map_of_append_Some del: map_of_append)
qed

lemma net_WriteHeader_simps [simp]:
  "rw_status (net_WriteHeader n w) = (case rw_status w of None \<Rightarrow> Some n | Some k \<Rightarrow> Some k)"
  "rw_sent (net_WriteHeader n w) = (case rw_status w of None \<Rightarrow> rw_header w | Some _ \<Rightarrow> rw_sent w)"
  "rw_header (net_WriteHeader n w) = rw_header w" "rw_body (net_WriteHeader n w) = rw_body w"
  "rw_werr (net_WriteHeader n w) = rw_werr w" "rw_recorder (net_WriteHeader n w) = rw_recorder w"
  by (auto simp: net_WriteHeader_def split: option.splits)

lemma rw_WriteHeader_simps [simp]:
  "rw_status (rw_WriteHeader n w) = (case rw_status w of None \<Rightarrow> Some n | Some k \<Rightarrow> Some k)"
  "rw_sent (rw_WriteHeader n w) = (case rw_status w of None \<Rightarrow> rw_header w | Some _ \<Rightarrow> rw_sent w)"
  "rw_header (rw_WriteHeader n w) = rw_header w" "rw_body (rw_WriteHeader n w) = rw_body w"
  "rw_werr (rw_WriteHeader n w) = rw_werr w"
  "rw_recorder (rw_WriteHeader n w) = (case rw_recorder w of None \<Rightarrow> None | Some _ \<Rightarrow> Some n)"
  by (auto simp: rw_WriteHeader_def split: option.splits)

lemma rw_Write_simps [simp]:
  "snd (rw_Write b w) = rw_werr w"
  "rw_status (fst (rw_Write b w)) = (case rw_status w of None \<Rightarrow> Some 200 | Some k \<Rightarrow> Some k)"
  "rw_sent (fst (rw_Write b w)) = (case rw_status w of None \<Rightarrow> rw_header w | Some _ \<Rightarrow> rw_sent w)"
  "rw_body (fst (rw_Write b w)) = (if rw_werr w = None then rw_body w @ b else rw_body w)"
  "rw_recorder (fst (rw_Write b w)) = rw_recorder w"
  "rw_werr (fst (rw_Write b w)) = rw_werr w"
  "rw_header (fst (rw_Write b w)) = rw_header w"
  by (auto simp: rw_Write_def Let_def split: option.splits)

section \<open>url.PathUnescape\<close>

definition hex_digit :: "char \<Rightarrow> nat option" where
  "hex_digit c =
     (let n = of_char c :: nat
      in if 48 \<le> n \<and> n \<le> 57 then Some (n - 48)
         else if 97 \<le> n \<and> n \<le> 102 then Some (n - 97 + 10)
         else if 65 \<le> n \<and> n \<le> 70 then Some (n - 65 + 10)
         else None)"

text \<open>A percent sign must start two hexadecimal digits; every other byte stands for itself.\<close>

fun url_PathUnescape :: "string \<Rightarrow> gerr + string" where
  "url_PathUnescape [] = Inr []"
| "url_PathUnescape (c # s) =
     (if c = CHR ''%'' then
        (case s of
           a # b # s' \<Rightarrow>
             (case (hex_digit a, hex_digit b) of
                (Some x, Some y) \<Rightarrow>
                  map_sum id ((#) (char_of (16 * x + y))) (url_PathUnescape s')
              | _ \<Rightarrow> Inl (Errorf ''invalid URL escape %q'' [ArgStr (take 3 (c # s))]))
         | _ \<Rightarrow> Inl (Errorf ''invalid URL escape %q'' [ArgStr (take 3 (c # s))]))
      else map_sum id ((#) c) (url_PathUnescape s))"

lemma url_PathUnescape_plain: "CHR ''%'' \<notin> set s \<Longrightarrow> url_PathUnescape s = Inr s"
  by (induction s) auto

section \<open>Third-party functions\<close>

text \<open>
  The functions of other modules that the generated code calls, as a record of parameters:
  \<open>validate.String.Validate\<close>, \<open>mime.ParseMediaType\<close> (its media type),
  \<open>uri.NormalizeEscapedPath\<close> (None for \<open>ok = false\<close>), the path decoder's
  \<open>DecodeValue\<close> and the path encoder's result, \<open>conv.ToUUID\<close> and
  \<open>conv.UUIDToString\<close>, the text of an error, ogen's default error handler, the compaction
  \<open>encoding/json\<close> applies to what a \<open>Marshaler\<close> returns, and the JSON library.
\<close>

record lib =
  lib_jx :: jx_env
  lib_validate :: validate_string
  lib_mime :: "string \<Rightarrow> gerr + string"
  lib_normalize :: "string \<Rightarrow> string option"
  lib_path_value :: "string \<Rightarrow> gerr + string"
  lib_path_encode :: "string \<Rightarrow> gerr + string"
  lib_to_uuid :: "string \<Rightarrow> gerr + uuid"
  lib_uuid_string :: "uuid \<Rightarrow> string"
  lib_error_text :: "gerr \<Rightarrow> string"
  lib_default_error_handler :: "gerr \<Rightarrow> resp_writer \<Rightarrow> resp_writer"
  lib_json_compact :: "bytes \<Rightarrow> gerr + bytes"

text \<open>Concrete functions for the witnesses: an id is written as that many strokes.\<close>

definition demo_lib :: "jx_env \<Rightarrow> lib" where
  "demo_lib J =
     \<lparr>lib_jx = J,
      lib_validate =
        (\<lambda>r s. if (sr_MinLengthSet r \<longrightarrow> sr_MinLength r \<le> int (length s)) \<and>
                  (sr_MaxLengthSet r \<longrightarrow> int (length s) \<le> sr_MaxLength r)
               then None else Some (Errorf ''len %d'' [ArgInt (int (length s))])),
      lib_mime = (\<lambda>ct. Inr (takeWhile (\<lambda>c. c \<noteq> CHR '';'') ct)),
      lib_normalize = Some,
      lib_path_value = Inr, lib_path_encode = Inr,
      lib_to_uuid = (\<lambda>s. if list_all (\<lambda>c. c = CHR ''x'') s then Inr (of_nat (length s))
                         else Inl (Plain ''invalid UUID format'')),
      lib_uuid_string = (\<lambda>u. replicate (unat u) (CHR ''x'')),
      lib_error_text = (\<lambda>_. ''error''),
      lib_default_error_handler = (\<lambda>_ w. rw_WriteHeader 500 w), lib_json_compact = Inr\<rparr>"

lemma demo_lib_validate [simp]: "counts_length (\<lambda>s. int (length s)) (lib_validate (demo_lib J))"
  by (auto simp: counts_length_def demo_lib_def)

definition demo_http :: "string \<Rightarrow> string \<Rightarrow> http_request" where
  "demo_http meth path =
     \<lparr>rq_Method = meth, rq_Path = path, rq_RawPath = [],
      rq_Header = (\<lambda>h. if h = ''Content-Type'' then ''application/json'' else []),
      rq_ContentLength = 2, rq_Body = ''{}'', rq_BodyErr = None\<rparr>"

definition demo_writer :: resp_writer where
  "demo_writer =
     \<lparr>rw_header = [], rw_status = None, rw_sent = [], rw_body = [], rw_werr = None,
      rw_recorder = None\<rparr>"

end
