(* ===== verification/Oas_Router.thy ===== *)
theory Oas_Router
  imports Http_Iface
begin

text \<open>
  internal/api/oas/oas_router_gen.go: the static router, as \<open>ServeHTTP\<close> walks it to call a
  handler and as \<open>FindPath\<close> walks it to describe a route, and a declarative account of both.
\<close>

section \<open>oas_operations_gen.go\<close>

definition CreateTaskOperation :: string where "CreateTaskOperation = ''CreateTask''"
definition GetTaskOperation :: string where "GetTaskOperation = ''GetTask''"

section \<open>The two walks\<close>

definition cutPrefix :: "string \<Rightarrow> string \<Rightarrow> string \<times> bool" where
  "cutPrefix prefix path =
     (if prefix = [] then (path, True)
      else if \<not> strings_HasPrefix path prefix then ([], False)
      else (strings_TrimPrefix path prefix, True))"

record not_allowed_params =
  na_allowedMethods :: string
  na_allowedHeaders :: "(string \<times> string) list option"
  na_acceptPost :: string
  na_acceptPatch :: string

definition rn1AllowedHeaders :: "(string \<times> string) list" where
  "rn1AllowedHeaders = [(''POST'', ''Content-Type'')]"

text \<open>
  The call \<open>ServeHTTP\<close> ends with: one of the two handlers, with the path argument and
  whether it is still escaped, \<open>notAllowed\<close>, or \<open>notFound\<close>.
\<close>

datatype route_call =
    CallCreateTask bool
  | CallGetTask string bool
  | CallNotAllowed not_allowed_params
  | CallNotFound

definition serve_elem :: "lib \<Rightarrow> http_request \<Rightarrow> string \<times> bool" where
  "serve_elem L r =
     (if rq_RawPath r \<noteq> [] then
        (case lib_normalize L (rq_RawPath r) of
           Some normalized \<Rightarrow> (normalized, CHR ''%'' \<in> set normalized)
         | None \<Rightarrow> (rq_Path r, False))
      else (rq_Path r, False))"

definition serve_route :: "lib \<Rightarrow> string \<Rightarrow> http_request \<Rightarrow> route_call" where
  "serve_route L prefix r =
     (let (path, elemIsEscaped) = serve_elem L r;
          (elem, ok) = cutPrefix prefix path
      in if \<not> ok \<or> length elem = 0 then CallNotFound
         else if elem ! 0 = CHR ''/'' then
           (let l = length ''/v1/tasks''
            in if length elem \<ge> l \<and> take l elem = ''/v1/tasks'' then
                 (let elem = drop l elem
                  in if length elem = 0 then
                       (if rq_Method r = ''POST'' then CallCreateTask elemIsEscaped
                        else CallNotAllowed
                          \<lparr>na_allowedMethods = ''POST'', na_allowedHeaders = Some rn1AllowedHeaders,
                           na_acceptPost = ''application/json'', na_acceptPatch = []\<rparr>)
                     else if elem ! 0 = CHR ''/'' then
                       (let l = length ''/''
                        in if length elem \<ge> l \<and> take l elem = ''/'' then
                             (let elem = drop l elem
                              in case strings_IndexByte elem (CHR ''/'') of
                                   Some idx \<Rightarrow> CallNotFound
                                 | None \<Rightarrow>
                                     if rq_Method r = ''GET'' then CallGetTask elem elemIsEscaped
                                     else CallNotAllowed
                                       \<lparr>na_allowedMethods = ''GET'', na_allowedHeaders = None,
                                        na_acceptPost = [], na_acceptPatch = []\<rparr>)
                           else CallNotFound)
                     else CallNotFound)
               else CallNotFound)
         else CallNotFound)"

record route =
  rt_name :: string
  rt_summary :: string
  rt_operationID :: string
  rt_operationGroup :: string
  rt_pathPattern :: string
  rt_count :: nat
  rt_args :: "string list"

definition zero_route :: route where
  "zero_route =
     \<lparr>rt_name = [], rt_summary = [], rt_operationID = [], rt_operationGroup = [],
      rt_pathPattern = [], rt_count = 0, rt_args = [[]]\<rparr>"

definition Route_Args :: "route \<Rightarrow> string list" where
  "Route_Args r = take (rt_count r) (rt_args r)"

definition Route_Name :: "route \<Rightarrow> string" where "Route_Name r = rt_name r"
definition Route_Summary :: "route \<Rightarrow> string" where "Route_Summary r = rt_summary r"
definition Route_OperationID :: "route \<Rightarrow> string" where "Route_OperationID r = rt_operationID r"
definition Route_OperationGroup :: "route \<Rightarrow> string" where "Route_OperationGroup r = rt_operationGroup r"
definition Route_PathPattern :: "route \<Rightarrow> string" where "Route_PathPattern r = rt_pathPattern r"

lemmas route_getters = Route_Name_def Route_Summary_def Route_OperationID_def
  Route_OperationGroup_def Route_PathPattern_def Route_Args_def

text \<open>The deferred loop of \<open>FindPath\<close>: an argument that does not unescape stays as it is.\<close>

definition unescape_args :: "route \<Rightarrow> route" where
  "unescape_args r =
     r\<lparr>rt_args :=
         map (\<lambda>arg. case url_PathUnescape arg of Inr unescaped \<Rightarrow> unescaped | Inl _ \<Rightarrow> arg)
           (take (rt_count r) (rt_args r)) @
         drop (rt_count r) (rt_args r)\<rparr>"

definition find_walk :: "string \<Rightarrow> string \<Rightarrow> string \<Rightarrow> route \<times> bool" where
  "find_walk prefix meth path =
     (let r = zero_route;
          (elem, ok) = cutPrefix prefix path
      in if \<not> ok then (r, False)
         else if length elem = 0 then (r, False)
         else if elem ! 0 = CHR ''/'' then
           (let l = length ''/v1/tasks''
            in if length elem \<ge> l \<and> take l elem = ''/v1/tasks'' then
                 (let elem = drop l elem
                  in if length elem = 0 then
                       (if meth = ''POST'' then
                          (r\<lparr>rt_name := CreateTaskOperation, rt_summary := ''Submit a task'',
                             rt_operationID := ''createTask'', rt_operationGroup := [],
                             rt_pathPattern := ''/v1/tasks'', rt_args := [[]], rt_count := 0\<rparr>, True)
                        else (r, False))
                     else if elem ! 0 = CHR ''/'' then
                       (let l = length ''/''
                        in if length elem \<ge> l \<and> take l elem = ''/'' then
                             (let elem = drop l elem
                              in case strings_IndexByte elem (CHR ''/'') of
                                   Some idx \<Rightarrow> (r, False)
                                 | None \<Rightarrow>
                                     if meth = ''GET'' then
                                       (r\<lparr>rt_name := GetTaskOperation, rt_summary := [],
                                          rt_operationID := ''getTask'', rt_operationGroup := [],
                                          rt_pathPattern := ''/v1/tasks/{id}'', rt_args := [elem],
                                          rt_count := 1\<rparr>, True)
                                     else (r, False))
                           else (r, False))
                     else (r, False))
               else (r, False))
         else (r, False))"

definition FindPath :: "lib \<Rightarrow> string \<Rightarrow> string \<Rightarrow> string \<times> string \<Rightarrow> route \<times> bool" where
  "FindPath L prefix meth u =
     (let (path, rawPath) = u
      in if rawPath \<noteq> [] then
           (case find_walk prefix meth
                   (case lib_normalize L rawPath of Some normalized \<Rightarrow> normalized | None \<Rightarrow> path) of
              (r, ok) \<Rightarrow> (unescape_args r, ok))
         else find_walk prefix meth path)"

definition FindRoute :: "lib \<Rightarrow> string \<Rightarrow> string \<Rightarrow> string \<Rightarrow> route \<times> bool" where
  "FindRoute L prefix meth path = FindPath L prefix meth (path, [])"

section \<open>A declarative account\<close>

text \<open>The path a request is routed by, after the prefix has been cut.\<close>

definition routed_path :: "lib \<Rightarrow> http_request \<Rightarrow> string" where
  "routed_path L r = fst (serve_elem L r)"

datatype target = TargetTasks | TargetTask string | TargetNone

text \<open>Which of the two path patterns of openapi.yaml a path is an instance of.\<close>

definition tasks_path :: string where "tasks_path = ''/v1/tasks''"

definition target_of :: "string \<Rightarrow> string \<Rightarrow> target" where
  "target_of prefix path =
     (if path = prefix @ tasks_path then TargetTasks
      else if strings_HasPrefix path (prefix @ tasks_path @ ''/'') then
        (let arg = drop (length (prefix @ tasks_path @ ''/'')) path
         in if CHR ''/'' \<in> set arg then TargetNone else TargetTask arg)
      else TargetNone)"

lemma tasks_path_hd: "tasks_path ! 0 = CHR ''/''" "tasks_path \<noteq> []"
  by (simp_all add: tasks_path_def)

lemma cutPrefix_append [simp]: "cutPrefix prefix (prefix @ q) = (q, True)"
  by (simp add: cutPrefix_def)

lemma cutPrefix_fail: "\<nexists>q. path = prefix @ q \<Longrightarrow> cutPrefix prefix path = ([], False)"
  by (auto simp: cutPrefix_def strings_HasPrefix_iff)

lemma target_of_append [simp]: "target_of prefix (prefix @ q) = target_of [] q"
  by (simp add: target_of_def strings_HasPrefix_def)

lemma target_of_fail: "\<nexists>q. path = prefix @ q \<Longrightarrow> target_of prefix path = TargetNone"
  by (auto simp: target_of_def strings_HasPrefix_iff)

text \<open>The cases of the walk on a path without prefix.\<close>

lemma target_of_rest:
  "target_of [] (tasks_path @ e) =
     (case e of [] \<Rightarrow> TargetTasks
      | c # arg \<Rightarrow> if c = CHR ''/'' then
                    (case strings_IndexByte arg (CHR ''/'') of
                       Some _ \<Rightarrow> TargetNone | None \<Rightarrow> TargetTask arg)
                  else TargetNone)"
proof (cases e)
  case Nil
  then show ?thesis by (simp add: target_of_def)
next
  case (Cons c arg)
  then have "strings_HasPrefix (tasks_path @ e) (tasks_path @ ''/'') \<longleftrightarrow> c = CHR ''/''"
    by (auto simp: strings_HasPrefix_def)
  with Cons show ?thesis
    by (auto simp: target_of_def strings_IndexByte_None Let_def split: option.splits)
      (metis option.distinct(1) strings_IndexByte_None)
qed

lemma target_of_other: "take (length tasks_path) q \<noteq> tasks_path \<Longrightarrow> target_of [] q = TargetNone"
  by (auto simp: target_of_def strings_HasPrefix_iff)

definition spec_call :: "target \<Rightarrow> string \<Rightarrow> bool \<Rightarrow> route_call" where
  "spec_call t meth esc =
     (case t of
        TargetTasks \<Rightarrow>
          if meth = ''POST'' then CallCreateTask esc
          else CallNotAllowed
            \<lparr>na_allowedMethods = ''POST'', na_allowedHeaders = Some rn1AllowedHeaders,
             na_acceptPost = ''application/json'', na_acceptPatch = []\<rparr>
      | TargetTask a \<Rightarrow>
          if meth = ''GET'' then CallGetTask a esc
          else CallNotAllowed
            \<lparr>na_allowedMethods = ''GET'', na_allowedHeaders = None,
             na_acceptPost = [], na_acceptPatch = []\<rparr>
      | TargetNone \<Rightarrow> CallNotFound)"

lemma serve_route_spec:
  "serve_route L prefix r =
     spec_call (target_of prefix (routed_path L r)) (rq_Method r) (snd (serve_elem L r))"
proof -
  obtain path esc where e: "serve_elem L r = (path, esc)" by (cases "serve_elem L r")
  note walk = serve_route_def [of L prefix r, folded tasks_path_def, unfolded e prod.case]
  consider (cut) w where "path = prefix @ tasks_path @ w"
    | (other) q where "path = prefix @ q" "take (length tasks_path) q \<noteq> tasks_path"
    | (fail) "\<nexists>q. path = prefix @ q"
    by (metis append_take_drop_id)
  then show ?thesis
  proof cases
    case cut
    then have "target_of prefix path = target_of [] (tasks_path @ w)" by simp
    then show ?thesis
      unfolding walk routed_path_def e fst_conv snd_conv cut target_of_rest
      by (simp add: Let_def tasks_path_hd nth_append spec_call_def split: list.split option.split)
  next
    case other
    then show ?thesis
      unfolding walk routed_path_def e fst_conv snd_conv
      by (simp add: target_of_other spec_call_def Let_def)
  next
    case fail
    then show ?thesis
      by (simp add: walk routed_path_def e cutPrefix_fail target_of_fail spec_call_def)
  qed
qed

lemma find_walk_spec:
  "find_walk prefix meth path =
     (case target_of prefix path of
        TargetTasks \<Rightarrow>
          if meth = ''POST'' then
            (zero_route\<lparr>rt_name := CreateTaskOperation, rt_summary := ''Submit a task'',
               rt_operationID := ''createTask'', rt_pathPattern := ''/v1/tasks''\<rparr>, True)
          else (zero_route, False)
      | TargetTask a \<Rightarrow>
          if meth = ''GET'' then
            (zero_route\<lparr>rt_name := GetTaskOperation, rt_operationID := ''getTask'',
               rt_pathPattern := ''/v1/tasks/{id}'', rt_args := [a], rt_count := 1\<rparr>, True)
          else (zero_route, False)
      | TargetNone \<Rightarrow> (zero_route, False))"
proof -
  note walk = find_walk_def [of prefix meth path, folded tasks_path_def, unfolded prod.case]
  consider (cut) w where "path = prefix @ tasks_path @ w"
    | (other) q where "path = prefix @ q" "take (length tasks_path) q \<noteq> tasks_path"
    | (fail) "\<nexists>q. path = prefix @ q"
    by (metis append_take_drop_id)
  then show ?thesis
  proof cases
    case cut
    then have "target_of prefix path = target_of [] (tasks_path @ w)" by simp
    then show ?thesis
      unfolding walk unfolding cut target_of_append target_of_rest
      by (simp add: Let_def tasks_path_hd nth_append zero_route_def tasks_path_def [symmetric]
          split: list.split option.split)
  next
    case other
    then show ?thesis
      unfolding walk by (simp add: target_of_other Let_def)
  next
    case fail
    then show ?thesis by (simp add: walk cutPrefix_fail target_of_fail Let_def)
  qed
qed

lemma target_of_iff:
  "target_of prefix path = TargetTasks \<longleftrightarrow> path = prefix @ ''/v1/tasks''"
  "target_of prefix path = TargetTask a \<longleftrightarrow> path = prefix @ ''/v1/tasks/'' @ a \<and> CHR ''/'' \<notin> set a"
  "target_of prefix path = TargetNone \<longleftrightarrow>
     path \<noteq> prefix @ ''/v1/tasks'' \<and> (\<nexists>a. path = prefix @ ''/v1/tasks/'' @ a \<and> CHR ''/'' \<notin> set a)"
proof -
  have p: "tasks_path @ ''/'' = ''/v1/tasks/''" by (simp add: tasks_path_def)
  then have "prefix @ tasks_path @ ''/'' @ b = prefix @ ''/v1/tasks/'' @ b" for b
    by (metis append_assoc)
  with p show "target_of prefix path = TargetTasks \<longleftrightarrow> path = prefix @ ''/v1/tasks''"
    "target_of prefix path = TargetTask a \<longleftrightarrow>
       path = prefix @ ''/v1/tasks/'' @ a \<and> CHR ''/'' \<notin> set a"
    "target_of prefix path = TargetNone \<longleftrightarrow>
     path \<noteq> prefix @ ''/v1/tasks'' \<and> (\<nexists>a. path = prefix @ ''/v1/tasks/'' @ a \<and> CHR ''/'' \<notin> set a)"
    unfolding target_of_def p
    by (auto simp: strings_HasPrefix_iff Let_def tasks_path_def)
qed

text \<open>
  C16. The router serves exactly the contract's paths: \<open>POST\<close> on \<open>/v1/tasks\<close> reaches
  createTask, \<open>GET\<close> on \<open>/v1/tasks/{id}\<close> with a slash-free id (the empty one included)
  reaches getTask with that id, another method on one of these paths is answered as not allowed
  with the path's method, and every other path is not found.
\<close>

theorem router_matches_contract:
  "(serve_route L prefix r = CallCreateTask esc \<longleftrightarrow>
      routed_path L r = prefix @ ''/v1/tasks'' \<and> rq_Method r = ''POST'' \<and> esc = snd (serve_elem L r))
   \<and> (serve_route L prefix r = CallGetTask a esc \<longleftrightarrow>
      routed_path L r = prefix @ ''/v1/tasks/'' @ a \<and> CHR ''/'' \<notin> set a \<and> rq_Method r = ''GET''
      \<and> esc = snd (serve_elem L r))
   \<and> (\<exists>p. serve_route L prefix r = CallNotAllowed p \<and> na_allowedMethods p = m) =
      (routed_path L r = prefix @ ''/v1/tasks'' \<and> rq_Method r \<noteq> ''POST'' \<and> m = ''POST''
       \<or> (\<exists>b. routed_path L r = prefix @ ''/v1/tasks/'' @ b \<and> CHR ''/'' \<notin> set b)
         \<and> rq_Method r \<noteq> ''GET'' \<and> m = ''GET'')
   \<and> (serve_route L prefix r = CallNotFound \<longleftrightarrow>
      routed_path L r \<noteq> prefix @ ''/v1/tasks''
      \<and> (\<nexists>b. routed_path L r = prefix @ ''/v1/tasks/'' @ b \<and> CHR ''/'' \<notin> set b))"
proof (cases "target_of prefix (routed_path L r)")
  case TargetTasks
  then show ?thesis
    using target_of_iff(1) [of prefix "routed_path L r"]
    by (auto simp: serve_route_spec spec_call_def)
next
  case (TargetTask b)
  then show ?thesis
    using target_of_iff(2) [of prefix "routed_path L r" b]
    by (auto simp: serve_route_spec spec_call_def)
next
  case TargetNone
  then show ?thesis
    using target_of_iff(3) [of prefix "routed_path L r"]
    by (auto simp: serve_route_spec spec_call_def)
qed

text \<open>The route \<open>FindPath\<close> describes for a call of \<open>ServeHTTP\<close>.\<close>

definition route_of_call :: "route_call \<Rightarrow> route \<times> bool" where
  "route_of_call c =
     (case c of
        CallCreateTask esc \<Rightarrow>
          (zero_route\<lparr>rt_name := CreateTaskOperation, rt_summary := ''Submit a task'',
             rt_operationID := ''createTask'', rt_pathPattern := ''/v1/tasks''\<rparr>, True)
      | CallGetTask a esc \<Rightarrow>
          (zero_route\<lparr>rt_name := GetTaskOperation, rt_operationID := ''getTask'',
             rt_pathPattern := ''/v1/tasks/{id}'', rt_count := 1,
             rt_args := [case (if esc then url_PathUnescape a else Inr a) of
                           Inr unescaped \<Rightarrow> unescaped | Inl _ \<Rightarrow> a]\<rparr>, True)
      | _ \<Rightarrow> (zero_route, False))"

text \<open>
  C17. The two walks agree: unless a raw path cannot be normalized, \<open>FindPath\<close> finds a route
  exactly when \<open>ServeHTTP\<close> calls a handler, it is that handler's operation, and its argument
  is the one the handler sees after unescaping.
\<close>

theorem routes_agree:
  assumes "rq_RawPath r \<noteq> [] \<Longrightarrow> lib_normalize L (rq_RawPath r) \<noteq> None"
  shows "FindPath L prefix (rq_Method r) (rq_Path r, rq_RawPath r) =
    route_of_call (serve_route L prefix r)"
proof (cases "rq_RawPath r = []")
  case True
  then show ?thesis
    by (auto simp: FindPath_def find_walk_spec serve_route_spec spec_call_def routed_path_def
        serve_elem_def route_of_call_def zero_route_def split: target.splits)
next
  case False
  with assms obtain n where n: "lib_normalize L (rq_RawPath r) = Some n" by auto
  have "CHR ''%'' \<notin> set a" if "target_of prefix n = TargetTask a" "CHR ''%'' \<notin> set n" for a
    using that by (auto simp: target_of_iff)
  then have "url_PathUnescape a = Inr a"
    if "target_of prefix n = TargetTask a" "CHR ''%'' \<notin> set n" for a
    using that url_PathUnescape_plain by blast
  with False n show ?thesis
    by (auto simp: FindPath_def find_walk_spec serve_route_spec spec_call_def routed_path_def
        serve_elem_def route_of_call_def zero_route_def unescape_args_def split: target.splits)
qed

theorem routes_agree_witness:
  "Route_Args (fst (FindPath (demo_lib (echo_jx id (VStr []))) [] ''GET'' (''/v1/tasks/a b'', ''/v1/tasks/a%20b''))) =
   [''a b'']"
proof -
  let ?r = "(demo_http ''GET'' ''/v1/tasks/a b'')\<lparr>rq_RawPath := ''/v1/tasks/a%20b''\<rparr>"
  have r: "rq_Method ?r = ''GET''" "rq_Path ?r = ''/v1/tasks/a b''"
    "rq_RawPath ?r = ''/v1/tasks/a%20b''"
    by (simp_all add: demo_http_def)
  have "FindPath (demo_lib (echo_jx id (VStr []))) [] (rq_Method ?r) (rq_Path ?r, rq_RawPath ?r) =
      route_of_call (serve_route (demo_lib (echo_jx id (VStr []))) [] ?r)"
    by (rule routes_agree) (simp add: demo_lib_def)
  moreover have "serve_route (demo_lib (echo_jx id (VStr []))) [] ?r = CallGetTask ''a%20b'' True"
    by (simp add: serve_route_def serve_elem_def demo_lib_def demo_http_def cutPrefix_def)
  moreover have "char_of (32 :: nat) = CHR '' ''" by code_simp
  ultimately show ?thesis
    unfolding r by (simp add: route_of_call_def Route_Args_def hex_digit_def)
qed

text \<open>
  As its comment promises, the name of a found route is not empty and unique: it determines the
  operation, its path pattern and how many arguments it has.
\<close>

lemma found_route:
  assumes "FindPath L prefix meth u = (r, True)"
  shows "Route_Name r \<noteq> [] \<and> Route_OperationGroup r = []
    \<and> (Route_Name r, Route_OperationID r, Route_PathPattern r, length (Route_Args r))
      \<in> {(CreateTaskOperation, ''createTask'', ''/v1/tasks'', 0),
          (GetTaskOperation, ''getTask'', ''/v1/tasks/{id}'', 1)}"
  using assms
  by (auto simp: FindPath_def find_walk_spec unescape_args_def route_getters zero_route_def
      CreateTaskOperation_def GetTaskOperation_def split: prod.splits if_splits option.splits target.splits)

end
