(* ===== verification/Oas_Json.thy ===== *)
theory Oas_Json
  imports Jx_Iface Oas_Types
begin

text \<open>
  internal/api/oas/oas_json_gen.go: the JSON codecs of the contract's types. An \<open>Encode\<close>
  method extends the record of encoder calls; a \<open>Decode\<close> method updates its receiver and
  returns an error, the receiver being \<open>None\<close> for a nil pointer.
\<close>

unbundle bit_operations_syntax

section \<open>The bit set of required fields\<close>

definition bits_OnesCount8 :: "8 word \<Rightarrow> nat" where
  "bits_OnesCount8 w = length (filter (bit w) [0..<8])"

definition bits_TrailingZeros8 :: "8 word \<Rightarrow> nat" where
  "bits_TrailingZeros8 w = length (takeWhile (\<lambda>i. \<not> bit w i) [0..<8])"

fun strconv_Itoa :: "nat \<Rightarrow> string" where
  "strconv_Itoa n =
     (if n < 10 then [char_of (48 + n)]
      else strconv_Itoa (n div 10) @ [char_of (48 + n mod 10)])"

declare strconv_Itoa.simps [simp del]

text \<open>
  The loop over the missed bits of one byte of the set: \<open>missed\<close> rounds, each names the lowest
  bit left and clears it.
\<close>

definition field_name :: "string list \<Rightarrow> nat \<Rightarrow> string" where
  "field_name names fieldIdx =
     (if fieldIdx < length names then names ! fieldIdx else strconv_Itoa fieldIdx)"

fun missed_fields :: "string list \<Rightarrow> nat \<Rightarrow> nat \<Rightarrow> 8 word \<Rightarrow> (string \<times> gerr) list" where
  "missed_fields names i 0 result = []"
| "missed_fields names i (Suc missed) result =
     (let bitIdx = bits_TrailingZeros8 result
      in (field_name names (i * 8 + bitIdx), Sentinel ErrFieldRequired) #
         missed_fields names i missed (result AND NOT (push_bit bitIdx 1)))"

fun required_failures ::
  "string list \<Rightarrow> nat \<Rightarrow> 8 word list \<Rightarrow> 8 word list \<Rightarrow> (string \<times> gerr) list" where
  "required_failures names i (b # bs) (msk # msks) =
     (let result = (b AND msk) XOR msk
      in (if result \<noteq> 0 then missed_fields names i (bits_OnesCount8 result) result else []) @
         required_failures names (Suc i) bs msks)"
| "required_failures names i _ _ = []"

definition check_required :: "string list \<Rightarrow> 8 word \<Rightarrow> 8 word \<Rightarrow> gerr option" where
  "check_required names msk requiredBitSet =
     (let failures = required_failures names 0 [requiredBitSet] [msk]
      in if length failures > 0 then Some (ValidateError failures) else None)"

subsection \<open>What the loop collects\<close>

definition set_bits8 :: "8 word \<Rightarrow> nat list" where
  "set_bits8 w = filter (bit w) [0..<8]"

lemma bit_clear:
  "bit ((w::8 word) AND NOT (push_bit k 1)) = (\<lambda>i. bit w i \<and> i \<noteq> k)"
proof
  fix i
  show "bit (w AND NOT (push_bit k 1)) i \<longleftrightarrow> bit w i \<and> i \<noteq> k"
    using bit_imp_le_length [of w i]
    by (cases "i = k") (auto simp: bit_and_iff bit_not_iff bit_push_bit_iff bit_1_iff
        simp del: push_bit_of_1)
qed

lemma takeWhile_filter_hd:
  assumes "filter P xs = y # ys" and "xs = [0..<n]"
  shows "length (takeWhile (\<lambda>x. \<not> P x) xs) = y"
proof -
  obtain us vs where *: "xs = us @ y # vs" "\<forall>u\<in>set us. \<not> P u" "P y"
    using assms(1) unfolding filter_eq_Cons_iff by blast
  then have "takeWhile (\<lambda>x. \<not> P x) xs = us" by (simp add: takeWhile_append2)
  moreover have "xs ! length us = y" using *(1) by simp
  moreover have "length us < length xs" using *(1) by simp
  ultimately show ?thesis using assms(2) by simp
qed

lemma set_bits8_Cons:
  assumes "set_bits8 w = k # ks"
  shows "bits_TrailingZeros8 w = k" and "set_bits8 (w AND NOT (push_bit k 1)) = ks"
proof -
  show "bits_TrailingZeros8 w = k"
    unfolding bits_TrailingZeros8_def using assms[unfolded set_bits8_def]
    by (rule takeWhile_filter_hd) simp
  have "set_bits8 (w AND NOT (push_bit k 1)) = filter (\<lambda>i. i \<noteq> k) (set_bits8 w)"
    by (simp add: set_bits8_def bit_clear conj_commute del: push_bit_of_1)
  also have "\<dots> = ks"
  proof -
    have "distinct (set_bits8 w)" by (simp add: set_bits8_def)
    with assms show ?thesis by (auto simp: filter_id_conv)
  qed
  finally show "set_bits8 (w AND NOT (push_bit k 1)) = ks" .
qed

lemma missed_fields_all:
  "set_bits8 w = ks \<Longrightarrow> missed_fields names i (length ks) w =
     map (\<lambda>k. (field_name names (i * 8 + k), Sentinel ErrFieldRequired)) ks"
proof (induction ks arbitrary: w)
  case Nil
  then show ?case by simp
next
  case (Cons k ks)
  then show ?case using set_bits8_Cons [OF Cons.prems] by (simp add: Let_def)
qed

lemma required_failures_single:
  "required_failures names 0 [b] [msk] =
     map (\<lambda>k. (field_name names k, Sentinel ErrFieldRequired))
       (filter (\<lambda>k. bit msk k \<and> \<not> bit b k) [0..<8])"
proof -
  let ?r = "(b AND msk) XOR msk"
  have bits: "set_bits8 ?r = filter (\<lambda>k. bit msk k \<and> \<not> bit b k) [0..<8]"
    unfolding set_bits8_def by (rule filter_cong) (auto simp: bit_xor_iff bit_and_iff)
  have "set_bits8 ?r = [] \<Longrightarrow> missed_fields names 0 (bits_OnesCount8 ?r) ?r = []"
    by (simp add: bits_OnesCount8_def flip: set_bits8_def)
  moreover have "?r = 0 \<Longrightarrow> set_bits8 ?r = []" by (simp add: set_bits8_def)
  ultimately show ?thesis
    using missed_fields_all [OF bits, of names 0]
    by (auto simp: Let_def bits_OnesCount8_def simp flip: set_bits8_def bits)
qed

section \<open>Receivers\<close>

text \<open>Every \<open>Decode\<close> first refuses a nil receiver.\<close>

definition on_receiver :: "string \<Rightarrow> 'a op_err \<Rightarrow> 'a option op_err" where
  "on_receiver name f s =
     (case s of
        None \<Rightarrow> (None, Some (Plain (''invalid: unable to decode '' @ name @ '' to nil'')))
      | Some x \<Rightarrow> (case f x of (x', e) \<Rightarrow> (Some x', e)))"

lemma on_receiver_Some [simp]: "on_receiver name f (Some x) = (Some (fst (f x)), snd (f x))"
  by (simp add: on_receiver_def case_prod_beta)

text \<open>
  \<open>UnmarshalJSON\<close> decodes from a buffer and looks at nothing behind the value;
  \<open>MarshalJSON\<close> encodes into a fresh encoder.
\<close>

definition marshal :: "jx_env \<Rightarrow> (encoder \<Rightarrow> encoder) \<Rightarrow> gerr + bytes" where
  "marshal J enc = Inr (jx_Bytes J (enc []))"

definition unmarshal :: "jx_env \<Rightarrow> (jx_node \<Rightarrow> 'a op_err) \<Rightarrow> bytes \<Rightarrow> 'a op_err" where
  "unmarshal J dec data = dec (doc_root (jx_DecodeBytes J data))"

section \<open>CreateTaskRequestPayload\<close>

definition Payload_encodeFields :: "jx_env \<Rightarrow> payload \<Rightarrow> encoder \<Rightarrow> encoder" where
  "Payload_encodeFields J s e =
     fold (\<lambda>(k, elem) e. let e1 = e @ [JxFieldStart k]
                         in if length elem \<noteq> 0 then e1 @ [JxRaw elem] else e1)
       (go_range J (case s of None \<Rightarrow> [] | Some m \<Rightarrow> m)) e"

definition Payload_Encode :: "jx_env \<Rightarrow> payload \<Rightarrow> encoder \<Rightarrow> encoder" where
  "Payload_Encode J s e = Payload_encodeFields J s (e @ [JxObjStart]) @ [JxObjEnd]"

definition Payload_member :: "bytes \<Rightarrow> jx_node \<Rightarrow> (bytes \<times> bytes) list op_err" where
  "Payload_member k d m =
     (case nd_Raw d of
        (v, Some err) \<Rightarrow> (m, Some (WrapErrorf ''decode field %q'' [ArgStr k] err))
      | (v, None) \<Rightarrow> (map_assign k v m, None))"

text \<open>\<open>init\<close> stores the allocated map in the receiver before anything is read.\<close>

definition Payload_Decode :: "jx_env \<Rightarrow> jx_node \<Rightarrow> payload option op_err" where
  "Payload_Decode J d =
     on_receiver ''CreateTaskRequestPayload'' (\<lambda>s.
       (case jx_ObjBytes J d Payload_member (payload_init s) of
          (m, e) \<Rightarrow> (Some m, map_option (Wrapf ''decode CreateTaskRequestPayload'') e)))"

definition Payload_MarshalJSON :: "jx_env \<Rightarrow> payload \<Rightarrow> gerr + bytes" where
  "Payload_MarshalJSON J s = marshal J (Payload_Encode J s)"

definition Payload_UnmarshalJSON :: "jx_env \<Rightarrow> bytes \<Rightarrow> payload option op_err" where
  "Payload_UnmarshalJSON J data = unmarshal J (Payload_Decode J) data"

section \<open>Optional values\<close>

definition OptPayload_Encode :: "jx_env \<Rightarrow> opt_payload \<Rightarrow> encoder \<Rightarrow> encoder" where
  "OptPayload_Encode J o' e = (if \<not> op_Set o' then e else Payload_Encode J (op_Value o') e)"

definition OptPayload_Decode :: "jx_env \<Rightarrow> jx_node \<Rightarrow> opt_payload option op_err" where
  "OptPayload_Decode J d =
     on_receiver ''OptCreateTaskRequestPayload'' (\<lambda>o'.
       (case Payload_Decode J d (Some (Some [])) of
          (v, e) \<Rightarrow> (o'\<lparr>op_Set := True, op_Value := (case v of None \<Rightarrow> None | Some m \<Rightarrow> m)\<rparr>, e)))"

definition OptPayload_MarshalJSON :: "jx_env \<Rightarrow> opt_payload \<Rightarrow> gerr + bytes" where
  "OptPayload_MarshalJSON J s = marshal J (OptPayload_Encode J s)"

definition OptPayload_UnmarshalJSON :: "jx_env \<Rightarrow> bytes \<Rightarrow> opt_payload option op_err" where
  "OptPayload_UnmarshalJSON J data = unmarshal J (OptPayload_Decode J) data"

definition OptString_Encode :: "opt_string \<Rightarrow> encoder \<Rightarrow> encoder" where
  "OptString_Encode o' e = (if \<not> os_Set o' then e else e @ [JxStr (os_Value o')])"

definition OptString_Decode :: "jx_node \<Rightarrow> opt_string option op_err" where
  "OptString_Decode d =
     on_receiver ''OptString'' (\<lambda>o'.
       (let o1 = o'\<lparr>os_Set := True\<rparr>
        in case nd_Str d of
             (v, Some err) \<Rightarrow> (o1, Some err)
           | (v, None) \<Rightarrow> (o1\<lparr>os_Value := v\<rparr>, None)))"

definition OptString_MarshalJSON :: "jx_env \<Rightarrow> opt_string \<Rightarrow> gerr + bytes" where
  "OptString_MarshalJSON J s = marshal J (OptString_Encode s)"

definition OptString_UnmarshalJSON :: "jx_env \<Rightarrow> bytes \<Rightarrow> opt_string option op_err" where
  "OptString_UnmarshalJSON J data = unmarshal J OptString_Decode data"

section \<open>CreateTaskRequest\<close>

definition CreateTaskRequest_encodeFields ::
  "jx_env \<Rightarrow> create_task_request \<Rightarrow> encoder \<Rightarrow> encoder" where
  "CreateTaskRequest_encodeFields J s e =
     (let e1 = e @ [JxFieldStart ''handler''] @ [JxStr (cr_Handler s)];
          e2 = (if op_Set (cr_Payload s)
                then OptPayload_Encode J (cr_Payload s) (e1 @ [JxFieldStart ''payload''])
                else e1)
      in if os_Set (cr_IdempotencyKey s)
         then OptString_Encode (cr_IdempotencyKey s) (e2 @ [JxFieldStart ''idempotency_key''])
         else e2)"

definition CreateTaskRequest_Encode ::
  "jx_env \<Rightarrow> create_task_request \<Rightarrow> encoder \<Rightarrow> encoder" where
  "CreateTaskRequest_Encode J s e =
     CreateTaskRequest_encodeFields J s (e @ [JxObjStart]) @ [JxObjEnd]"

definition jsonFieldsNameOfCreateTaskRequest :: "string list" where
  "jsonFieldsNameOfCreateTaskRequest = [''handler'', ''payload'', ''idempotency_key'']"

text \<open>
  The callback of \<open>ObjBytes\<close>, over the receiver and the bit set of required fields. A decoder
  called on a field works on that field in place.
\<close>

definition the_rcv :: "'a \<Rightarrow> 'a option \<Rightarrow> 'a" where
  "the_rcv d s = (case s of None \<Rightarrow> d | Some x \<Rightarrow> x)"

lemma the_rcv_Some [simp]: "the_rcv d (Some x) = x"
  by (simp add: the_rcv_def)

definition CreateTaskRequest_member ::
  "jx_env \<Rightarrow> bytes \<Rightarrow> jx_node \<Rightarrow> (create_task_request \<times> 8 word) op_err" where
  "CreateTaskRequest_member J k d = (\<lambda>(s, b).
     if k = ''handler'' then
       (let b1 = b OR push_bit 0 1;
            (v, err) = nd_Str d;
            s1 = s\<lparr>cr_Handler := v\<rparr>
        in ((s1, b1), map_option (Wrapf ''decode field \"handler\"'') err))
     else if k = ''payload'' then
       (let p = OptPayload_Reset (cr_Payload s);
            (p1, err) = OptPayload_Decode J d (Some p)
        in ((s\<lparr>cr_Payload := the_rcv p p1\<rparr>, b), map_option (Wrapf ''decode field \"payload\"'') err))
     else if k = ''idempotency_key'' then
       (let p = OptString_Reset (cr_IdempotencyKey s);
            (p1, err) = OptString_Decode d (Some p)
        in ((s\<lparr>cr_IdempotencyKey := the_rcv p p1\<rparr>, b),
            map_option (Wrapf ''decode field \"idempotency_key\"'') err))
     else ((s, b), nd_Skip d))"

definition CreateTaskRequest_Decode :: "jx_env \<Rightarrow> jx_node \<Rightarrow> create_task_request option op_err" where
  "CreateTaskRequest_Decode J d =
     on_receiver ''CreateTaskRequest'' (\<lambda>s.
       (case jx_ObjBytes J d (CreateTaskRequest_member J) (s, 0) of
          ((s1, b), Some err) \<Rightarrow> (s1, Some (Wrapf ''decode CreateTaskRequest'' err))
        | ((s1, b), None) \<Rightarrow>
            (s1, check_required jsonFieldsNameOfCreateTaskRequest 0b00000001 b)))"

definition CreateTaskRequest_MarshalJSON :: "jx_env \<Rightarrow> create_task_request \<Rightarrow> gerr + bytes" where
  "CreateTaskRequest_MarshalJSON J s = marshal J (CreateTaskRequest_Encode J s)"

definition CreateTaskRequest_UnmarshalJSON ::
  "jx_env \<Rightarrow> bytes \<Rightarrow> create_task_request option op_err" where
  "CreateTaskRequest_UnmarshalJSON J data = unmarshal J (CreateTaskRequest_Decode J) data"

section \<open>ErrorCode and TaskStatus\<close>

definition ErrorCode_Encode :: "error_code \<Rightarrow> encoder \<Rightarrow> encoder" where
  "ErrorCode_Encode s e = e @ [JxStr s]"

definition ErrorCode_Decode :: "jx_node \<Rightarrow> error_code option op_err" where
  "ErrorCode_Decode d =
     on_receiver ''ErrorCode'' (\<lambda>s.
       (case nd_Str d of
          (v, Some err) \<Rightarrow> (s, Some err)
        | (v, None) \<Rightarrow>
            (if v = ErrorCodeInvalidRequestBody then ErrorCodeInvalidRequestBody
             else if v = ErrorCodeInvalidParameter then ErrorCodeInvalidParameter
             else if v = ErrorCodeTaskNotFound then ErrorCodeTaskNotFound
             else if v = ErrorCodeInternalError then ErrorCodeInternalError
             else v, None)))"

definition ErrorCode_MarshalJSON :: "jx_env \<Rightarrow> error_code \<Rightarrow> gerr + bytes" where
  "ErrorCode_MarshalJSON J s = marshal J (ErrorCode_Encode s)"

definition ErrorCode_UnmarshalJSON :: "jx_env \<Rightarrow> bytes \<Rightarrow> error_code option op_err" where
  "ErrorCode_UnmarshalJSON J data = unmarshal J ErrorCode_Decode data"

definition TaskStatus_Encode :: "oas_status \<Rightarrow> encoder \<Rightarrow> encoder" where
  "TaskStatus_Encode s e = e @ [JxStr s]"

definition TaskStatus_Decode :: "jx_node \<Rightarrow> oas_status option op_err" where
  "TaskStatus_Decode d =
     on_receiver ''TaskStatus'' (\<lambda>s.
       (case nd_Str d of
          (v, Some err) \<Rightarrow> (s, Some err)
        | (v, None) \<Rightarrow>
            (if v = TaskStatusPending then TaskStatusPending
             else if v = TaskStatusRunning then TaskStatusRunning
             else if v = TaskStatusSucceeded then TaskStatusSucceeded
             else if v = TaskStatusFailed then TaskStatusFailed
             else if v = TaskStatusCancelled then TaskStatusCancelled
             else v, None)))"

definition TaskStatus_MarshalJSON :: "jx_env \<Rightarrow> oas_status \<Rightarrow> gerr + bytes" where
  "TaskStatus_MarshalJSON J s = marshal J (TaskStatus_Encode s)"

definition TaskStatus_UnmarshalJSON :: "jx_env \<Rightarrow> bytes \<Rightarrow> oas_status option op_err" where
  "TaskStatus_UnmarshalJSON J data = unmarshal J TaskStatus_Decode data"

section \<open>Error and its aliases\<close>

definition Error_encodeFields :: "oas_error \<Rightarrow> encoder \<Rightarrow> encoder" where
  "Error_encodeFields s e =
     ErrorCode_Encode (oe_Code s) (e @ [JxFieldStart ''code'']) @
       [JxFieldStart ''message''] @ [JxStr (oe_Message s)]"

definition Error_Encode :: "oas_error \<Rightarrow> encoder \<Rightarrow> encoder" where
  "Error_Encode s e = Error_encodeFields s (e @ [JxObjStart]) @ [JxObjEnd]"

definition jsonFieldsNameOfError :: "string list" where
  "jsonFieldsNameOfError = [''code'', ''message'']"

definition Error_member :: "bytes \<Rightarrow> jx_node \<Rightarrow> (oas_error \<times> 8 word) op_err" where
  "Error_member k d = (\<lambda>(s, b).
     if k = ''code'' then
       (let b1 = b OR push_bit 0 1;
            (c, err) = ErrorCode_Decode d (Some (oe_Code s))
        in ((s\<lparr>oe_Code := the_rcv (oe_Code s) c\<rparr>, b1),
            map_option (Wrapf ''decode field \"code\"'') err))
     else if k = ''message'' then
       (let b1 = b OR push_bit 1 1;
            (v, err) = nd_Str d
        in ((s\<lparr>oe_Message := v\<rparr>, b1), map_option (Wrapf ''decode field \"message\"'') err))
     else ((s, b), nd_Skip d))"

definition Error_Decode :: "jx_env \<Rightarrow> jx_node \<Rightarrow> oas_error option op_err" where
  "Error_Decode J d =
     on_receiver ''Error'' (\<lambda>s.
       (case jx_ObjBytes J d Error_member (s, 0) of
          ((s1, b), Some err) \<Rightarrow> (s1, Some (Wrapf ''decode Error'' err))
        | ((s1, b), None) \<Rightarrow> (s1, check_required jsonFieldsNameOfError 0b00000011 b)))"

definition Error_MarshalJSON :: "jx_env \<Rightarrow> oas_error \<Rightarrow> gerr + bytes" where
  "Error_MarshalJSON J s = marshal J (Error_Encode s)"

definition Error_UnmarshalJSON :: "jx_env \<Rightarrow> bytes \<Rightarrow> oas_error option op_err" where
  "Error_UnmarshalJSON J data = unmarshal J (Error_Decode J) data"

text \<open>
  The alias types encode as the \<open>Error\<close> they are, and decode a fresh \<open>Error\<close> that they
  take over only when that succeeds.
\<close>

definition alias_Decode :: "string \<Rightarrow> jx_env \<Rightarrow> jx_node \<Rightarrow> oas_error option op_err" where
  "alias_Decode name J d =
     on_receiver name (\<lambda>s.
       (case Error_Decode J d (Some zero_oas_error) of
          (unwrapped, Some err) \<Rightarrow> (s, Some (Wrapf ''alias'' err))
        | (unwrapped, None) \<Rightarrow> (the_rcv s unwrapped, None)))"

definition CreateTaskBadRequest_Encode :: "oas_error \<Rightarrow> encoder \<Rightarrow> encoder" where
  "CreateTaskBadRequest_Encode s e = Error_Encode s e"

definition CreateTaskBadRequest_Decode :: "jx_env \<Rightarrow> jx_node \<Rightarrow> oas_error option op_err" where
  "CreateTaskBadRequest_Decode = alias_Decode ''CreateTaskBadRequest''"

definition CreateTaskBadRequest_MarshalJSON :: "jx_env \<Rightarrow> oas_error \<Rightarrow> gerr + bytes" where
  "CreateTaskBadRequest_MarshalJSON J s = marshal J (CreateTaskBadRequest_Encode s)"

definition CreateTaskBadRequest_UnmarshalJSON :: "jx_env \<Rightarrow> bytes \<Rightarrow> oas_error option op_err" where
  "CreateTaskBadRequest_UnmarshalJSON J data = unmarshal J (CreateTaskBadRequest_Decode J) data"

definition CreateTaskInternalServerError_Encode :: "oas_error \<Rightarrow> encoder \<Rightarrow> encoder" where
  "CreateTaskInternalServerError_Encode s e = Error_Encode s e"

definition CreateTaskInternalServerError_Decode ::
  "jx_env \<Rightarrow> jx_node \<Rightarrow> oas_error option op_err" where
  "CreateTaskInternalServerError_Decode = alias_Decode ''CreateTaskInternalServerError''"

definition CreateTaskInternalServerError_MarshalJSON :: "jx_env \<Rightarrow> oas_error \<Rightarrow> gerr + bytes" where
  "CreateTaskInternalServerError_MarshalJSON J s =
     marshal J (CreateTaskInternalServerError_Encode s)"

definition CreateTaskInternalServerError_UnmarshalJSON ::
  "jx_env \<Rightarrow> bytes \<Rightarrow> oas_error option op_err" where
  "CreateTaskInternalServerError_UnmarshalJSON J data =
     unmarshal J (CreateTaskInternalServerError_Decode J) data"

definition GetTaskInternalServerError_Encode :: "oas_error \<Rightarrow> encoder \<Rightarrow> encoder" where
  "GetTaskInternalServerError_Encode s e = Error_Encode s e"

definition GetTaskInternalServerError_Decode :: "jx_env \<Rightarrow> jx_node \<Rightarrow> oas_error option op_err" where
  "GetTaskInternalServerError_Decode = alias_Decode ''GetTaskInternalServerError''"

definition GetTaskInternalServerError_MarshalJSON :: "jx_env \<Rightarrow> oas_error \<Rightarrow> gerr + bytes" where
  "GetTaskInternalServerError_MarshalJSON J s = marshal J (GetTaskInternalServerError_Encode s)"

definition GetTaskInternalServerError_UnmarshalJSON ::
  "jx_env \<Rightarrow> bytes \<Rightarrow> oas_error option op_err" where
  "GetTaskInternalServerError_UnmarshalJSON J data =
     unmarshal J (GetTaskInternalServerError_Decode J) data"

definition GetTaskNotFound_Encode :: "oas_error \<Rightarrow> encoder \<Rightarrow> encoder" where
  "GetTaskNotFound_Encode s e = Error_Encode s e"

definition GetTaskNotFound_Decode :: "jx_env \<Rightarrow> jx_node \<Rightarrow> oas_error option op_err" where
  "GetTaskNotFound_Decode = alias_Decode ''GetTaskNotFound''"

definition GetTaskNotFound_MarshalJSON :: "jx_env \<Rightarrow> oas_error \<Rightarrow> gerr + bytes" where
  "GetTaskNotFound_MarshalJSON J s = marshal J (GetTaskNotFound_Encode s)"

definition GetTaskNotFound_UnmarshalJSON :: "jx_env \<Rightarrow> bytes \<Rightarrow> oas_error option op_err" where
  "GetTaskNotFound_UnmarshalJSON J data = unmarshal J (GetTaskNotFound_Decode J) data"

section \<open>Task\<close>

definition Task_encodeFields :: "oas_task \<Rightarrow> encoder \<Rightarrow> encoder" where
  "Task_encodeFields s e =
     TaskStatus_Encode (ot_Status s)
       (e @ [JxFieldStart ''id''] @ [JxUUID (ot_ID s)] @ [JxFieldStart ''status'']) @
     [JxFieldStart ''created_at''] @ [JxDateTime (ot_CreatedAt s)]"

definition Task_Encode :: "oas_task \<Rightarrow> encoder \<Rightarrow> encoder" where
  "Task_Encode s e = Task_encodeFields s (e @ [JxObjStart]) @ [JxObjEnd]"

definition jsonFieldsNameOfTask :: "string list" where
  "jsonFieldsNameOfTask = [''id'', ''status'', ''created_at'']"

definition Task_member :: "bytes \<Rightarrow> jx_node \<Rightarrow> (oas_task \<times> 8 word) op_err" where
  "Task_member k d = (\<lambda>(s, b).
     if k = ''id'' then
       (let b1 = b OR push_bit 0 1;
            (v, err) = nd_UUID d
        in ((s\<lparr>ot_ID := v\<rparr>, b1), map_option (Wrapf ''decode field \"id\"'') err))
     else if k = ''status'' then
       (let b1 = b OR push_bit 1 1;
            (c, err) = TaskStatus_Decode d (Some (ot_Status s))
        in ((s\<lparr>ot_Status := the_rcv (ot_Status s) c\<rparr>, b1),
            map_option (Wrapf ''decode field \"status\"'') err))
     else if k = ''created_at'' then
       (let b1 = b OR push_bit 2 1;
            (v, err) = nd_DateTime d
        in ((s\<lparr>ot_CreatedAt := v\<rparr>, b1), map_option (Wrapf ''decode field \"created_at\"'') err))
     else ((s, b), nd_Skip d))"

definition Task_Decode :: "jx_env \<Rightarrow> jx_node \<Rightarrow> oas_task option op_err" where
  "Task_Decode J d =
     on_receiver ''Task'' (\<lambda>s.
       (case jx_ObjBytes J d Task_member (s, 0) of
          ((s1, b), Some err) \<Rightarrow> (s1, Some (Wrapf ''decode Task'' err))
        | ((s1, b), None) \<Rightarrow> (s1, check_required jsonFieldsNameOfTask 0b00000111 b)))"

definition Task_MarshalJSON :: "jx_env \<Rightarrow> oas_task \<Rightarrow> gerr + bytes" where
  "Task_MarshalJSON J s = marshal J (Task_Encode s)"

definition Task_UnmarshalJSON :: "jx_env \<Rightarrow> bytes \<Rightarrow> oas_task option op_err" where
  "Task_UnmarshalJSON J data = unmarshal J (Task_Decode J) data"

end
