(* ===== verification/Oas_Server.thy ===== *)
theory Oas_Server
  imports Oas_Router Oas_Json
begin

text \<open>
  The generated HTTP server: its configuration (oas_cfg_gen.go, oas_server_gen.go), the decoding
  of parameters and bodies (oas_parameters_gen.go, oas_request_decoders_gen.go), the encoding of
  responses (oas_response_encoders_gen.go), the two request handlers with their deferred
  telemetry (oas_handlers_gen.go), and \<open>ServeHTTP\<close> (oas_router_gen.go).
\<close>

section \<open>The handler interface and the middleware\<close>

record get_task_params = gp_ID :: uuid

record ('c, 's) oas_handler =
  h_CreateTask :: "'c \<Rightarrow> create_task_request \<Rightarrow> ('s, create_task_res) op_res"
  h_GetTask :: "'c \<Rightarrow> get_task_params \<Rightarrow> ('s, get_task_res) op_res"

text \<open>
  A middleware as \<open>middleware.HookMiddleware\<close> applies it at the types of each operation: it
  gets the handler, the context, the decoded request or parameters, the raw body and the request.
\<close>

record ('c, 's) middleware =
  mw_create :: "('c \<Rightarrow> create_task_request \<Rightarrow> ('s, create_task_res) op_res) \<Rightarrow>
    'c \<Rightarrow> create_task_request \<Rightarrow> bytes \<Rightarrow> http_request \<Rightarrow> ('s, create_task_res) op_res"
  mw_get :: "('c \<Rightarrow> get_task_params \<Rightarrow> ('s, get_task_res) op_res) \<Rightarrow>
    'c \<Rightarrow> get_task_params \<Rightarrow> http_request \<Rightarrow> ('s, get_task_res) op_res"

section \<open>Configuration (oas_cfg_gen.go)\<close>

text \<open>
  Tracer and meter providers are handles; a tracer or meter is known by the provider it was taken
  from.
\<close>

datatype attr_value = AttrString string | AttrInt int

type_synonym attributes = "(string \<times> attr_value) list"

record otel_config =
  oc_TracerProvider :: "nat option"
  oc_Tracer :: "nat option"
  oc_MeterProvider :: "nat option"
  oc_Meter :: "nat option"
  oc_Attributes :: attributes

definition initOTEL :: "nat \<Rightarrow> nat \<Rightarrow> otel_config \<Rightarrow> otel_config" where
  "initOTEL globalTracer globalMeter cfg =
     (let tp = (case oc_TracerProvider cfg of None \<Rightarrow> globalTracer | Some p \<Rightarrow> p);
          mp = (case oc_MeterProvider cfg of None \<Rightarrow> globalMeter | Some p \<Rightarrow> p)
      in cfg\<lparr>oc_TracerProvider := Some tp, oc_MeterProvider := Some mp,
             oc_Tracer := Some tp, oc_Meter := Some mp\<rparr>)"

type_synonym error_handler = "gerr \<Rightarrow> resp_writer \<Rightarrow> resp_writer"

record ('c, 's) server_config =
  cfg_otel :: otel_config
  cfg_NotFound :: "http_request \<Rightarrow> resp_writer \<Rightarrow> resp_writer"
  cfg_MethodNotAllowed :: "(http_request \<Rightarrow> string \<Rightarrow> resp_writer \<Rightarrow> resp_writer) option"
  cfg_ErrorHandler :: error_handler
  cfg_Prefix :: string
  cfg_Middleware :: "('c, 's) middleware option"
  cfg_MaxMultipartMemory :: int

text \<open>
  The option constructors; \<open>None\<close> is a nil argument. \<open>middleware.ChainMiddlewares\<close> is
  the parameter \<open>chain\<close> of the application.
\<close>

datatype ('c, 's) server_option =
    WithTracerProvider "nat option"
  | WithMeterProvider "nat option"
  | WithAttributes attributes
  | WithNotFound "(http_request \<Rightarrow> resp_writer \<Rightarrow> resp_writer) option"
  | WithMethodNotAllowed "(http_request \<Rightarrow> string \<Rightarrow> resp_writer \<Rightarrow> resp_writer) option"
  | WithErrorHandler "error_handler option"
  | WithPathPrefix string
  | WithMiddleware "('c, 's) middleware list"
  | WithMaxMultipartMemory int

fun applyServer ::
  "(('c, 's) middleware list \<Rightarrow> ('c, 's) middleware) \<Rightarrow> ('c, 's) server_option \<Rightarrow>
   ('c, 's) server_config \<Rightarrow> ('c, 's) server_config" where
  "applyServer chain (WithTracerProvider p) cfg =
     (case p of None \<Rightarrow> cfg | Some _ \<Rightarrow> cfg\<lparr>cfg_otel := (cfg_otel cfg)\<lparr>oc_TracerProvider := p\<rparr>\<rparr>)"
| "applyServer chain (WithMeterProvider p) cfg =
     (case p of None \<Rightarrow> cfg | Some _ \<Rightarrow> cfg\<lparr>cfg_otel := (cfg_otel cfg)\<lparr>oc_MeterProvider := p\<rparr>\<rparr>)"
| "applyServer chain (WithAttributes xs) cfg =
     cfg\<lparr>cfg_otel := (cfg_otel cfg)\<lparr>oc_Attributes := xs\<rparr>\<rparr>"
| "applyServer chain (WithNotFound h) cfg =
     (case h of None \<Rightarrow> cfg | Some f \<Rightarrow> cfg\<lparr>cfg_NotFound := f\<rparr>)"
| "applyServer chain (WithMethodNotAllowed h) cfg =
     (case h of None \<Rightarrow> cfg | Some f \<Rightarrow> cfg\<lparr>cfg_MethodNotAllowed := Some f\<rparr>)"
| "applyServer chain (WithErrorHandler h) cfg =
     (case h of None \<Rightarrow> cfg | Some f \<Rightarrow> cfg\<lparr>cfg_ErrorHandler := f\<rparr>)"
| "applyServer chain (WithPathPrefix p) cfg = cfg\<lparr>cfg_Prefix := p\<rparr>"
| "applyServer chain (WithMiddleware ms) cfg =
     (case ms of
        [] \<Rightarrow> cfg\<lparr>cfg_Middleware := None\<rparr>
      | [m] \<Rightarrow> cfg\<lparr>cfg_Middleware := Some m\<rparr>
      | _ \<Rightarrow> cfg\<lparr>cfg_Middleware := Some (chain ms)\<rparr>)"
| "applyServer chain (WithMaxMultipartMemory n) cfg =
     (if n > 0 then cfg\<lparr>cfg_MaxMultipartMemory := n\<rparr> else cfg)"

text \<open>The process-wide values the configuration falls back to.\<close>

record ('c, 's) server_env =
  se_lib :: lib
  se_chain :: "('c, 's) middleware list \<Rightarrow> ('c, 's) middleware"
  se_globalTracer :: nat
  se_globalMeter :: nat
  se_requestsErr :: "gerr option"
  se_errorsErr :: "gerr option"
  se_durationErr :: "gerr option"

definition newServerConfig ::
  "('c, 's) server_env \<Rightarrow> ('c, 's) server_option list \<Rightarrow> ('c, 's) server_config" where
  "newServerConfig E opts =
     (let cfg = \<lparr>cfg_otel = \<lparr>oc_TracerProvider = None, oc_Tracer = None, oc_MeterProvider = None,
                             oc_Meter = None, oc_Attributes = []\<rparr>,
                 cfg_NotFound = http_NotFound, cfg_MethodNotAllowed = None,
                 cfg_ErrorHandler = lib_default_error_handler (se_lib E),
                 cfg_Prefix = [], cfg_Middleware = None,
                 cfg_MaxMultipartMemory = 32 * 2 ^ 20\<rparr>;
          cfg = fold (applyServer (se_chain E)) opts cfg
      in cfg\<lparr>cfg_otel := initOTEL (se_globalTracer E) (se_globalMeter E) (cfg_otel cfg)\<rparr>)"

text \<open>\<open>baseServer\<close> creates the three instruments and stops at the first that fails.\<close>

definition baseServer ::
  "('c, 's) server_env \<Rightarrow> ('c, 's) server_config \<Rightarrow> gerr + ('c, 's) server_config" where
  "baseServer E cfg =
     (case se_requestsErr E of Some err \<Rightarrow> Inl err
      | None \<Rightarrow> (case se_errorsErr E of Some err \<Rightarrow> Inl err
      | None \<Rightarrow> (case se_durationErr E of Some err \<Rightarrow> Inl err
      | None \<Rightarrow> Inr cfg)))"

record ('c, 's) server =
  sv_h :: "('c, 's) oas_handler"
  sv_cfg :: "('c, 's) server_config"

definition NewServer ::
  "('c, 's) server_env \<Rightarrow> ('c, 's) oas_handler \<Rightarrow> ('c, 's) server_option list \<Rightarrow>
   gerr + ('c, 's) server" where
  "NewServer E h opts =
     (case baseServer E (newServerConfig E opts) of
        Inl err \<Rightarrow> Inl err
      | Inr s \<Rightarrow> Inr \<lparr>sv_h = h, sv_cfg = s\<rparr>)"

definition set_unless_empty :: "string \<Rightarrow> string \<Rightarrow> resp_writer \<Rightarrow> resp_writer" where
  "set_unless_empty k v w = (if v \<noteq> [] then header_Set k v w else w)"

definition notAllowed ::
  "('c, 's) server_config \<Rightarrow> http_request \<Rightarrow> not_allowed_params \<Rightarrow> resp_writer \<Rightarrow> resp_writer" where
  "notAllowed cfg r params w =
     (let isOptions = (rq_Method r = ''OPTIONS'');
          w1 =
            (if isOptions then
               (let w = header_Set ''Access-Control-Allow-Methods'' (na_allowedMethods params) w;
                    w = (case na_allowedHeaders params of None \<Rightarrow> w
                         | Some hs \<Rightarrow>
                             (let m = rq_Header r ''Access-Control-Request-Method''
                              in if m \<noteq> [] then
                                   (case map_of hs (map ascii_upper m) of
                                      Some allowedHeaders \<Rightarrow>
                                        header_Set ''Access-Control-Allow-Headers'' allowedHeaders w
                                    | None \<Rightarrow> w)
                                 else w))
                in set_unless_empty ''Accept-Patch'' (na_acceptPatch params)
                     (set_unless_empty ''Accept-Post'' (na_acceptPost params) w))
             else w)
      in case cfg_MethodNotAllowed cfg of
           Some f \<Rightarrow> f r (na_allowedMethods params) w1
         | None \<Rightarrow>
             if \<not> isOptions then
               rw_WriteHeader 405 (header_Set ''Allow'' (na_allowedMethods params) w1)
             else rw_WriteHeader 204 w1)"

section \<open>Decoding requests\<close>

text \<open>The argument arrives still escaped exactly when the routed path had a percent sign.\<close>

definition decodeGetTaskParams :: "lib \<Rightarrow> string \<Rightarrow> bool \<Rightarrow> gerr + get_task_params" where
  "decodeGetTaskParams L arg argsEscaped =
     (let result =
            (case (if argsEscaped then
                     (case url_PathUnescape arg of
                        Inl err \<Rightarrow> Inl (Wrapf ''unescape path'' err)
                      | Inr unescaped \<Rightarrow> Inr unescaped)
                   else Inr arg) of
               Inl err \<Rightarrow> Inl err
             | Inr param \<Rightarrow>
                 if length param > 0 then
                   (case lib_path_value L param of
                      Inl err \<Rightarrow> Inl err
                    | Inr val \<Rightarrow> lib_to_uuid L val)
                 else Inl (Sentinel ErrFieldRequired))
      in case result of
           Inl err \<Rightarrow> Inl (DecodeParamError ''id'' ''path'' err)
         | Inr c \<Rightarrow> Inr \<lparr>gp_ID = c\<rparr>)"

text \<open>\<open>close\<close> runs the registered closers in reverse and joins their errors.\<close>

definition run_closers :: "gerr option list \<Rightarrow> gerr option" where
  "run_closers closers = fold (\<lambda>c merr. errors_Join [merr, c]) (rev closers) None"

text \<open>
  The body of \<open>decodeCreateTaskRequest\<close> before its deferred function: the request, the raw
  body and the error. \<open>d.Skip() != io.EOF\<close> compares the error itself.
\<close>

definition decode_body ::
  "lib \<Rightarrow> http_request \<Rightarrow> create_task_request option \<times> bytes \<times> gerr option" where
  "decode_body L r =
     (case lib_mime L (rq_Header r ''Content-Type'') of
        Inl err \<Rightarrow> (None, [], Some (Wrapf ''parse media type'' err))
      | Inr ct \<Rightarrow>
          if ct = ''application/json'' then
            (if rq_ContentLength r = 0 then (None, [], Some (Sentinel ErrBodyRequired))
             else
               (case rq_BodyErr r of
                  Some err \<Rightarrow> (None, [], Some err)
                | None \<Rightarrow>
                    (let buf = rq_Body r
                     in if length buf = 0 then (None, [], Some (Sentinel ErrBodyRequired))
                        else
                          (let rawBody = buf;
                               d = jx_DecodeBytes (lib_jx L) buf;
                               (request, derr) =
                                 CreateTaskRequest_Decode (lib_jx L) (doc_root d)
                                   (Some zero_create_task_request);
                               err = (case derr of
                                        Some e \<Rightarrow> Some e
                                      | None \<Rightarrow>
                                          if doc_rest d \<noteq> Some (Sentinel ErrEOF)
                                          then Some (Plain ''unexpected trailing data'') else None)
                           in case err of
                                Some e \<Rightarrow> (None, rawBody, Some (DecodeBodyError ct buf e))
                              | None \<Rightarrow>
                                  (case CreateTaskRequest_Validate (lib_validate L) request of
                                     Some e \<Rightarrow> (None, rawBody, Some (Wrapf ''validate'' e))
                                   | None \<Rightarrow> (request, rawBody, None))))))
          else (None, [], Some (InvalidContentType ct)))"

definition decodeCreateTaskRequest ::
  "lib \<Rightarrow> http_request \<Rightarrow> create_task_request option \<times> bytes \<times> gerr option \<times> gerr option" where
  "decodeCreateTaskRequest L r =
     (let closers = []
      in case decode_body L r of
           (req, rawBody, rerr) \<Rightarrow>
             (req, rawBody, run_closers closers,
              (case rerr of None \<Rightarrow> None | Some e \<Rightarrow> errors_Join [Some e, run_closers closers])))"

lemma run_closers_Nil [simp]: "run_closers [] = None"
  by (simp add: run_closers_def)

section \<open>Telemetry\<close>

text \<open>
  What a request leaves in traces and metrics, in order: the span's start, recorded errors,
  error status and end, the counters and the histogram with the status code they carry (0 for
  none).
\<close>

datatype tel =
    TelSpanStart string
  | TelRecordError gerr
  | TelStatusError string
  | TelErrorsAdd string nat
  | TelSpanCode nat
  | TelRequestsAdd string nat
  | TelDuration string nat
  | TelSpanEnd string

text \<open>The state a request works on: the application's, the response, the telemetry.\<close>

record 's exchange =
  ex_app :: 's
  ex_rw :: resp_writer
  ex_tel :: "tel list"

definition emit_tel :: "tel \<Rightarrow> 's exchange \<Rightarrow> 's exchange" where
  "emit_tel t ex = ex\<lparr>ex_tel := ex_tel ex @ [t]\<rparr>"

definition on_rw :: "(resp_writer \<Rightarrow> resp_writer) \<Rightarrow> 's exchange \<Rightarrow> 's exchange" where
  "on_rw f ex = ex\<lparr>ex_rw := f (ex_rw ex)\<rparr>"

definition recorder_status :: "'s exchange \<Rightarrow> nat" where
  "recorder_status ex = (case rw_recorder (ex_rw ex) of None \<Rightarrow> 0 | Some n \<Rightarrow> n)"

lemma exchange_simps [simp]:
  "ex_app (emit_tel t ex) = ex_app ex" "ex_rw (emit_tel t ex) = ex_rw ex"
  "ex_tel (emit_tel t ex) = ex_tel ex @ [t]"
  "ex_app (on_rw f ex) = ex_app ex" "ex_rw (on_rw f ex) = f (ex_rw ex)"
  "ex_tel (on_rw f ex) = ex_tel ex"
  "recorder_status (emit_tel t ex) = recorder_status ex"
  by (simp_all add: emit_tel_def on_rw_def recorder_status_def)

text \<open>The closure \<open>recordError\<close> of each handler.\<close>

definition recordError :: "string \<Rightarrow> string \<Rightarrow> gerr \<Rightarrow> 's exchange \<Rightarrow> 's exchange" where
  "recordError op stage err ex =
     (let ex1 = emit_tel (TelRecordError err) ex;
          code = recorder_status ex1;
          ex2 = (if code < 100 \<or> code \<ge> 500 then emit_tel (TelStatusError stage) ex1 else ex1)
      in emit_tel (TelErrorsAdd op code) ex2)"

text \<open>The deferred stopwatch and, after it, \<open>span.End\<close>.\<close>

definition stopwatch :: "string \<Rightarrow> 's exchange \<Rightarrow> 's exchange" where
  "stopwatch op ex =
     (let code = recorder_status ex;
          ex1 = (if code \<noteq> 0 then emit_tel (TelSpanCode code) ex else ex)
      in emit_tel (TelDuration op code) (emit_tel (TelRequestsAdd op code) ex1))"

definition finish_request :: "string \<Rightarrow> 's exchange \<Rightarrow> 's exchange" where
  "finish_request op ex = emit_tel (TelSpanEnd op) (stopwatch op ex)"

section \<open>Encoding responses\<close>

text \<open>
  The block each case of the encoders repeats: content type, status line, for a 500 the span's
  error status, then the encoded body in one write.
\<close>

definition send_json :: "lib \<Rightarrow> nat \<Rightarrow> encoder \<Rightarrow> 's exchange op_err" where
  "send_json L status e ex =
     (let ex1 = on_rw (\<lambda>w. rw_WriteHeader status
                             (header_Set ''Content-Type'' ''application/json; charset=utf-8'' w)) ex;
          ex2 = (if status = 500 then emit_tel (TelStatusError ''Internal Server Error'') ex1
                 else ex1);
          (w, err) = rw_Write (jx_Bytes (lib_jx L) e) (ex_rw ex2)
      in (ex2\<lparr>ex_rw := w\<rparr>, map_option (Wrapf ''write'') err))"

definition encodeCreateTaskResponse :: "lib \<Rightarrow> create_task_res \<Rightarrow> 's exchange op_err" where
  "encodeCreateTaskResponse L response ex =
     (case response of
        CreateTaskResTask t \<Rightarrow> send_json L 201 (Task_Encode t []) ex
      | CreateTaskBadRequest e \<Rightarrow> send_json L 400 (CreateTaskBadRequest_Encode e []) ex
      | CreateTaskInternalServerError e \<Rightarrow>
          send_json L 500 (CreateTaskInternalServerError_Encode e []) ex
      | CreateTaskResNil \<Rightarrow> (ex, Some (Errorf ''unexpected response type: %T'' [])))"

definition encodeGetTaskResponse :: "lib \<Rightarrow> get_task_res \<Rightarrow> 's exchange op_err" where
  "encodeGetTaskResponse L response ex =
     (case response of
        GetTaskResTask t \<Rightarrow> send_json L 200 (Task_Encode t []) ex
      | GetTaskNotFound e \<Rightarrow> send_json L 404 (GetTaskNotFound_Encode e []) ex
      | GetTaskInternalServerError e \<Rightarrow>
          send_json L 500 (GetTaskInternalServerError_Encode e []) ex
      | GetTaskResNil \<Rightarrow> (ex, Some (Errorf ''unexpected response type: %T'' [])))"

section \<open>The request handlers\<close>

text \<open>
  Deferred functions run in reverse: \<open>recordError\<close> of the failing branch, then the closing of
  the request, the stopwatch and the end of the span.
\<close>

definition run_handler :: "('s, 'r) op_res \<Rightarrow> 's exchange \<Rightarrow> 's exchange \<times> (gerr + 'r)" where
  "run_handler h ex = (case h (ex_app ex) of (s, res) \<Rightarrow> (ex\<lparr>ex_app := s\<rparr>, res))"

definition handleCreateTaskRequest ::
  "lib \<Rightarrow> ('c, 's) server \<Rightarrow> 'c \<Rightarrow> http_request \<Rightarrow> 's exchange \<Rightarrow> 's exchange" where
  "handleCreateTaskRequest L srv ctx r ex =
     (let ex = on_rw (\<lambda>w. w\<lparr>rw_recorder := Some 0\<rparr>) ex;
          ex = emit_tel (TelSpanStart CreateTaskOperation) ex;
          fail = (\<lambda>err. on_rw (cfg_ErrorHandler (sv_cfg srv) err))
      in case decodeCreateTaskRequest L r of
           (request, rawBody, close, Some e) \<Rightarrow>
             (let err = DecodeRequestError ''createTask'' e
              in finish_request CreateTaskOperation
                   (recordError CreateTaskOperation ''DecodeRequest'' err (fail err ex)))
         | (None, rawBody, close, None) \<Rightarrow> ex
         | (Some request, rawBody, close, None) \<Rightarrow>
             (let closing = (\<lambda>ex. case close of None \<Rightarrow> ex
                                  | Some err \<Rightarrow> recordError CreateTaskOperation ''CloseRequest'' err ex);
                  call = (case cfg_Middleware (sv_cfg srv) of
                            Some m \<Rightarrow> mw_create m (h_CreateTask (sv_h srv)) ctx request rawBody r
                          | None \<Rightarrow> h_CreateTask (sv_h srv) ctx request)
              in case run_handler call ex of
                   (ex, Inl err) \<Rightarrow>
                     finish_request CreateTaskOperation
                       (closing (recordError CreateTaskOperation ''Internal'' err (fail err ex)))
                 | (ex, Inr response) \<Rightarrow>
                     (case encodeCreateTaskResponse L response ex of
                        (ex, None) \<Rightarrow> finish_request CreateTaskOperation (closing ex)
                      | (ex, Some err) \<Rightarrow>
                          finish_request CreateTaskOperation
                            (closing (recordError CreateTaskOperation ''EncodeResponse'' err
                              (if \<not> errors_Is err ErrInternalServerErrorResponse
                               then fail err ex else ex))))))"

definition handleGetTaskRequest ::
  "lib \<Rightarrow> ('c, 's) server \<Rightarrow> 'c \<Rightarrow> string \<Rightarrow> bool \<Rightarrow> http_request \<Rightarrow> 's exchange \<Rightarrow> 's exchange" where
  "handleGetTaskRequest L srv ctx arg argsEscaped r ex =
     (let ex = on_rw (\<lambda>w. w\<lparr>rw_recorder := Some 0\<rparr>) ex;
          ex = emit_tel (TelSpanStart GetTaskOperation) ex;
          fail = (\<lambda>err. on_rw (cfg_ErrorHandler (sv_cfg srv) err))
      in case decodeGetTaskParams L arg argsEscaped of
           Inl e \<Rightarrow>
             (let err = DecodeParamsError ''getTask'' e
              in finish_request GetTaskOperation
                   (recordError GetTaskOperation ''DecodeParams'' err (fail err ex)))
         | Inr params \<Rightarrow>
             (let call = (case cfg_Middleware (sv_cfg srv) of
                            Some m \<Rightarrow> mw_get m (h_GetTask (sv_h srv)) ctx params r
                          | None \<Rightarrow> h_GetTask (sv_h srv) ctx params)
              in case run_handler call ex of
                   (ex, Inl err) \<Rightarrow>
                     finish_request GetTaskOperation
                       (recordError GetTaskOperation ''Internal'' err (fail err ex))
                 | (ex, Inr response) \<Rightarrow>
                     (case encodeGetTaskResponse L response ex of
                        (ex, None) \<Rightarrow> finish_request GetTaskOperation ex
                      | (ex, Some err) \<Rightarrow>
                          finish_request GetTaskOperation
                            (recordError GetTaskOperation ''EncodeResponse'' err
                              (if \<not> errors_Is err ErrInternalServerErrorResponse
                               then fail err ex else ex)))))"

section \<open>Packed parameters\<close>

text \<open>
  A middleware sees the parameters under their name and place; \<open>unpackGetTaskParams\<close> reads
  them back before the handler is called. A type assertion on a missing or different value panics.
\<close>

datatype param_value = ParamUUID uuid | ParamOther

type_synonym packed_params = "(string \<times> string) \<Rightarrow> param_value option"

definition pack_get_params :: "get_task_params \<Rightarrow> packed_params" where
  "pack_get_params params = [(''id'', ''path'') \<mapsto> ParamUUID (gp_ID params)]"

definition unpackGetTaskParams :: "packed_params \<Rightarrow> get_task_params option" where
  "unpackGetTaskParams packed =
     (case packed (''id'', ''path'') of
        Some (ParamUUID i) \<Rightarrow> Some \<lparr>gp_ID = i\<rparr>
      | _ \<Rightarrow> None)"

lemma unpack_pack: "unpackGetTaskParams (pack_get_params params) = Some params"
  by (simp add: unpackGetTaskParams_def pack_get_params_def)

section \<open>ServeHTTP\<close>

definition notFound :: "('c, 's) server_config \<Rightarrow> http_request \<Rightarrow> resp_writer \<Rightarrow> resp_writer" where
  "notFound cfg r = cfg_NotFound cfg r"

declare notFound_def [simp]

definition ServeHTTP ::
  "lib \<Rightarrow> ('c, 's) server \<Rightarrow> 'c \<Rightarrow> http_request \<Rightarrow> 's exchange \<Rightarrow> 's exchange" where
  "ServeHTTP L srv ctx r ex =
     (case serve_route L (cfg_Prefix (sv_cfg srv)) r of
        CallCreateTask elemIsEscaped \<Rightarrow> handleCreateTaskRequest L srv ctx r ex
      | CallGetTask arg elemIsEscaped \<Rightarrow> handleGetTaskRequest L srv ctx arg elemIsEscaped r ex
      | CallNotAllowed params \<Rightarrow> on_rw (notAllowed (sv_cfg srv) r params) ex
      | CallNotFound \<Rightarrow> on_rw (notFound (sv_cfg srv) r) ex)"

end
