(* ===== verification/Oas_Client.thy ===== *)
theory Oas_Client
  imports Oas_Server
begin

text \<open>
  The generated HTTP client: its configuration (oas_cfg_gen.go), the two invocations with their
  stages and telemetry (oas_client_gen.go), the request encoder and the response decoders.
\<close>

section \<open>URLs, requests and responses\<close>

record url =
  u_Path :: string
  u_RawPath :: string
  u_Rest :: string

record client_request =
  cq_Method :: string
  cq_URL :: url
  cq_ContentType :: string
  cq_Body :: bytes

record http_response =
  rs_StatusCode :: nat
  rs_Header :: "string \<Rightarrow> string"
  rs_Body :: bytes
  rs_BodyErr :: "gerr option"

definition trimTrailingSlashes :: "url \<Rightarrow> url" where
  "trimTrailingSlashes u =
     u\<lparr>u_Path := strings_TrimRight (u_Path u) (CHR ''/''),
       u_RawPath := strings_TrimRight (u_RawPath u) (CHR ''/'')\<rparr>"

section \<open>Configuration\<close>

type_synonym 's http_client = "client_request \<Rightarrow> ('s, http_response) op_res"

record 's client_config =
  cc_otel :: otel_config
  cc_Client :: "'s http_client"

datatype 's client_option =
    CWithTracerProvider "nat option"
  | CWithMeterProvider "nat option"
  | CWithAttributes attributes
  | CWithClient "'s http_client option"

fun applyClient :: "'s client_option \<Rightarrow> 's client_config \<Rightarrow> 's client_config" where
  "applyClient (CWithTracerProvider p) cfg =
     (case p of None \<Rightarrow> cfg | Some _ \<Rightarrow> cfg\<lparr>cc_otel := (cc_otel cfg)\<lparr>oc_TracerProvider := p\<rparr>\<rparr>)"
| "applyClient (CWithMeterProvider p) cfg =
     (case p of None \<Rightarrow> cfg | Some _ \<Rightarrow> cfg\<lparr>cc_otel := (cc_otel cfg)\<lparr>oc_MeterProvider := p\<rparr>\<rparr>)"
| "applyClient (CWithAttributes xs) cfg =
     cfg\<lparr>cc_otel := (cc_otel cfg)\<lparr>oc_Attributes := xs\<rparr>\<rparr>"
| "applyClient (CWithClient c) cfg =
     (case c of None \<Rightarrow> cfg | Some f \<Rightarrow> cfg\<lparr>cc_Client := f\<rparr>)"

text \<open>
  What the client takes from outside: \<open>url.Parse\<close>, \<open>uri.Clone\<close>,
  \<open>uri.AddPathParts\<close>, \<open>ht.NewRequest\<close>, \<open>http.DefaultClient\<close>, the global
  providers and the creation of the three instruments.
\<close>

record 's client_env =
  ce_lib :: lib
  ce_parse :: "string \<Rightarrow> gerr + url"
  ce_clone :: "url \<Rightarrow> url"
  ce_addPathParts :: "url \<Rightarrow> string list \<Rightarrow> url"
  ce_newRequest :: "string \<Rightarrow> url \<Rightarrow> gerr + client_request"
  ce_defaultClient :: "'s http_client"
  ce_globalTracer :: nat
  ce_globalMeter :: nat
  ce_requestsErr :: "gerr option"
  ce_errorsErr :: "gerr option"
  ce_durationErr :: "gerr option"

definition newClientConfig :: "'s client_env \<Rightarrow> 's client_option list \<Rightarrow> 's client_config" where
  "newClientConfig E opts =
     (let cfg = \<lparr>cc_otel = \<lparr>oc_TracerProvider = None, oc_Tracer = None, oc_MeterProvider = None,
                            oc_Meter = None, oc_Attributes = []\<rparr>,
                 cc_Client = ce_defaultClient E\<rparr>;
          cfg = fold applyClient opts cfg
      in cfg\<lparr>cc_otel := initOTEL (ce_globalTracer E) (ce_globalMeter E) (cc_otel cfg)\<rparr>)"

definition baseClient :: "'s client_env \<Rightarrow> 's client_config \<Rightarrow> gerr + 's client_config" where
  "baseClient E cfg =
     (case ce_requestsErr E of Some err \<Rightarrow> Inl err
      | None \<Rightarrow> (case ce_errorsErr E of Some err \<Rightarrow> Inl err
      | None \<Rightarrow> (case ce_durationErr E of Some err \<Rightarrow> Inl err
      | None \<Rightarrow> Inr cfg)))"

record 's oas_client =
  cl_serverURL :: url
  cl_cfg :: "'s client_config"

definition NewClient ::
  "'s client_env \<Rightarrow> string \<Rightarrow> 's client_option list \<Rightarrow> gerr + 's oas_client" where
  "NewClient E serverURL opts =
     (case ce_parse E serverURL of
        Inl err \<Rightarrow> Inl err
      | Inr u \<Rightarrow>
          (let u = trimTrailingSlashes u
           in case baseClient E (newClientConfig E opts) of
                Inl err \<Rightarrow> Inl err
              | Inr c \<Rightarrow> Inr \<lparr>cl_serverURL = u, cl_cfg = c\<rparr>))"

text \<open>A context is known by the server URL it overrides, if any.\<close>

type_synonym client_ctx = "url option"

definition WithServerURL :: "client_ctx \<Rightarrow> url \<Rightarrow> client_ctx" where
  "WithServerURL ctx u = Some u"

definition requestURL :: "'s oas_client \<Rightarrow> client_ctx \<Rightarrow> url" where
  "requestURL c ctx = (case ctx of None \<Rightarrow> cl_serverURL c | Some u \<Rightarrow> u)"

section \<open>Decoding responses\<close>

text \<open>The block every case of the response decoders repeats, for one response type.\<close>

definition decode_response ::
  "lib \<Rightarrow> (jx_node \<Rightarrow> 'a option op_err) \<Rightarrow> ('a option \<Rightarrow> gerr option) \<Rightarrow> 'a \<Rightarrow>
   http_response \<Rightarrow> gerr + 'a" where
  "decode_response L dec validate zero resp =
     (case lib_mime L (rs_Header resp ''Content-Type'') of
        Inl err \<Rightarrow> Inl (Wrapf ''parse media type'' err)
      | Inr ct \<Rightarrow>
          if ct = ''application/json'' then
            (case rs_BodyErr resp of
               Some err \<Rightarrow> Inl err
             | None \<Rightarrow>
                 (let buf = rs_Body resp;
                      d = jx_DecodeBytes (lib_jx L) buf;
                      (response, derr) = dec (doc_root d) (Some zero);
                      err = (case derr of
                               Some e \<Rightarrow> Some e
                             | None \<Rightarrow>
                                 if doc_rest d \<noteq> Some (Sentinel ErrEOF)
                                 then Some (Plain ''unexpected trailing data'') else None)
                  in case err of
                       Some e \<Rightarrow> Inl (DecodeBodyError ct buf e)
                     | None \<Rightarrow>
                         (case validate response of
                            Some e \<Rightarrow> Inl (Wrapf ''validate'' e)
                          | None \<Rightarrow> Inr (the_rcv zero response))))
          else Inl (InvalidContentType ct))"

definition decodeCreateTaskResponse :: "lib \<Rightarrow> http_response \<Rightarrow> gerr + create_task_res" where
  "decodeCreateTaskResponse L resp =
     (if rs_StatusCode resp = 201 then
        map_sum id CreateTaskResTask
          (decode_response L (Task_Decode (lib_jx L)) Task_Validate zero_oas_task resp)
      else if rs_StatusCode resp = 400 then
        map_sum id CreateTaskBadRequest
          (decode_response L (CreateTaskBadRequest_Decode (lib_jx L)) CreateTaskBadRequest_Validate
             zero_oas_error resp)
      else if rs_StatusCode resp = 500 then
        map_sum id CreateTaskInternalServerError
          (decode_response L (CreateTaskInternalServerError_Decode (lib_jx L))
             CreateTaskInternalServerError_Validate zero_oas_error resp)
      else Inl (UnexpectedStatusCode (rs_StatusCode resp)))"

definition decodeGetTaskResponse :: "lib \<Rightarrow> http_response \<Rightarrow> gerr + get_task_res" where
  "decodeGetTaskResponse L resp =
     (if rs_StatusCode resp = 200 then
        map_sum id GetTaskResTask
          (decode_response L (Task_Decode (lib_jx L)) Task_Validate zero_oas_task resp)
      else if rs_StatusCode resp = 404 then
        map_sum id GetTaskNotFound
          (decode_response L (GetTaskNotFound_Decode (lib_jx L)) GetTaskNotFound_Validate
             zero_oas_error resp)
      else if rs_StatusCode resp = 500 then
        map_sum id GetTaskInternalServerError
          (decode_response L (GetTaskInternalServerError_Decode (lib_jx L))
             GetTaskInternalServerError_Validate zero_oas_error resp)
      else Inl (UnexpectedStatusCode (rs_StatusCode resp)))"

section \<open>Invocations\<close>

text \<open>
  \<open>encodeCreateTaskRequest\<close> hands the encoded body and its content type to
  \<open>ht.SetBody\<close>.
\<close>

definition encodeCreateTaskRequest ::
  "lib \<Rightarrow> create_task_request \<Rightarrow> client_request \<Rightarrow> client_request" where
  "encodeCreateTaskRequest L req r =
     r\<lparr>cq_Body := jx_Bytes (lib_jx L) (CreateTaskRequest_Encode (lib_jx L) req []),
       cq_ContentType := ''application/json''\<rparr>"

text \<open>Client telemetry: the request counter, a failed span with its stage, the error counter.\<close>

datatype ctel =
    CTelRequestsAdd string
  | CTelSpanStart string
  | CTelFailed gerr string
  | CTelErrorsAdd string
  | CTelSpanEnd string
  | CTelDuration string

definition client_finish :: "string \<Rightarrow> string \<Rightarrow> gerr + 'r \<Rightarrow> ctel list" where
  "client_finish op stage res =
     [CTelRequestsAdd op, CTelSpanStart op] @
     (case res of Inl err \<Rightarrow> [CTelFailed err stage, CTelErrorsAdd op] | Inr _ \<Rightarrow> []) @
     [CTelSpanEnd op, CTelDuration op]"

definition sendCreateTask ::
  "'s client_env \<Rightarrow> 's oas_client \<Rightarrow> client_ctx \<Rightarrow> create_task_request \<Rightarrow> 's \<Rightarrow>
   's \<times> (gerr + create_task_res) \<times> ctel list" where
  "sendCreateTask E c ctx request s =
     (let u = ce_addPathParts E (ce_clone E (requestURL c ctx)) [''/v1/tasks''];
          ret = (\<lambda>s stage res. (s, res, client_finish CreateTaskOperation stage res))
      in case ce_newRequest E ''POST'' u of
           Inl err \<Rightarrow> ret s ''EncodeRequest'' (Inl (Wrapf ''create request'' err))
         | Inr r \<Rightarrow>
             (let r = encodeCreateTaskRequest (ce_lib E) request r
              in case cc_Client (cl_cfg c) r s of
                   (s1, Inl err) \<Rightarrow> ret s1 ''SendRequest'' (Inl (Wrapf ''do request'' err))
                 | (s1, Inr resp) \<Rightarrow>
                     (case decodeCreateTaskResponse (ce_lib E) resp of
                        Inl err \<Rightarrow> ret s1 ''DecodeResponse'' (Inl (Wrapf ''decode response'' err))
                      | Inr result \<Rightarrow> ret s1 ''DecodeResponse'' (Inr result))))"

text \<open>The path encoder's \<open>EncodeValue\<close> and \<open>Result\<close> are one parameter that may fail.\<close>

definition sendGetTask ::
  "'s client_env \<Rightarrow> 's oas_client \<Rightarrow> client_ctx \<Rightarrow> get_task_params \<Rightarrow> 's \<Rightarrow>
   's \<times> (gerr + get_task_res) \<times> ctel list" where
  "sendGetTask E c ctx params s =
     (let u = ce_clone E (requestURL c ctx);
          ret = (\<lambda>s stage res. (s, res, client_finish GetTaskOperation stage res))
      in case lib_path_encode (ce_lib E) (lib_uuid_string (ce_lib E) (gp_ID params)) of
           Inl err \<Rightarrow> ret s ''BuildURL'' (Inl (Wrapf ''encode path'' err))
         | Inr encoded \<Rightarrow>
             (let u = ce_addPathParts E u [''/v1/tasks/'', encoded]
              in case ce_newRequest E ''GET'' u of
                   Inl err \<Rightarrow> ret s ''EncodeRequest'' (Inl (Wrapf ''create request'' err))
                 | Inr r \<Rightarrow>
                     (case cc_Client (cl_cfg c) r s of
                        (s1, Inl err) \<Rightarrow> ret s1 ''SendRequest'' (Inl (Wrapf ''do request'' err))
                      | (s1, Inr resp) \<Rightarrow>
                          (case decodeGetTaskResponse (ce_lib E) resp of
                             Inl err \<Rightarrow>
                               ret s1 ''DecodeResponse'' (Inl (Wrapf ''decode response'' err))
                           | Inr result \<Rightarrow> ret s1 ''DecodeResponse'' (Inr result)))))"

definition Client_CreateTask ::
  "'s client_env \<Rightarrow> 's oas_client \<Rightarrow> client_ctx \<Rightarrow> create_task_request \<Rightarrow> ('s, create_task_res) op_res" where
  "Client_CreateTask E c ctx request s = (case sendCreateTask E c ctx request s of (s1, r, _) \<Rightarrow> (s1, r))"

definition Client_GetTask ::
  "'s client_env \<Rightarrow> 's oas_client \<Rightarrow> client_ctx \<Rightarrow> get_task_params \<Rightarrow> ('s, get_task_res) op_res" where
  "Client_GetTask E c ctx params s = (case sendGetTask E c ctx params s of (s1, r, _) \<Rightarrow> (s1, r))"

end
