(* ===== verification/Domain_Tasks.thy ===== *)
theory Domain_Tasks
  imports Go_Prelude
begin

text \<open>
  The innermost layer, internal/domain and internal/domain/tasks: the Task aggregate, its
  status vocabulary, its constructors and accessors, and the Submitted event.
\<close>

section \<open>The Task aggregate (task.go, task_internal.go)\<close>

text \<open>
  \<open>Status\<close> is a Go string type: the five constants are the vocabulary, but a value read
  from a column can be any string.
\<close>

type_synonym status = string

definition StatusPending :: status where "StatusPending = ''pending''"
definition StatusRunning :: status where "StatusRunning = ''running''"
definition StatusComplete :: status where "StatusComplete = ''complete''"
definition StatusFailed :: status where "StatusFailed = ''failed''"
definition StatusCanceled :: status where "StatusCanceled = ''canceled''"

lemmas status_defs [go_defs] =
  StatusPending_def StatusRunning_def StatusComplete_def StatusFailed_def StatusCanceled_def

record task =
  t_id :: uuid
  t_status :: status
  t_handler :: string
  t_payload :: "bytes option"
  t_createdAt :: gotime

definition tasks_Submit :: "uuid \<Rightarrow> string \<Rightarrow> bytes option \<Rightarrow> gotime \<Rightarrow> task" where
  "tasks_Submit i handler payload now =
     \<lparr>t_id = i, t_status = StatusPending, t_handler = handler, t_payload = payload,
      t_createdAt = now\<rparr>"

definition FromPersistence ::
  "uuid \<Rightarrow> status \<Rightarrow> string \<Rightarrow> bytes option \<Rightarrow> gotime \<Rightarrow> task" where
  "FromPersistence i st handler payload createdAt =
     \<lparr>t_id = i, t_status = st, t_handler = handler, t_payload = payload,
      t_createdAt = createdAt\<rparr>"

lemma tasks_Submit_sel [simp]:
  "t_id (tasks_Submit i h p n) = i" "t_status (tasks_Submit i h p n) = StatusPending"
  "t_handler (tasks_Submit i h p n) = h" "t_payload (tasks_Submit i h p n) = p"
  "t_createdAt (tasks_Submit i h p n) = n"
  by (simp_all add: tasks_Submit_def)

lemma FromPersistence_sel [simp]:
  "t_id (FromPersistence i st h p n) = i" "t_status (FromPersistence i st h p n) = st"
  "t_handler (FromPersistence i st h p n) = h" "t_payload (FromPersistence i st h p n) = p"
  "t_createdAt (FromPersistence i st h p n) = n"
  by (simp_all add: FromPersistence_def)

text \<open>The getters, which are all a caller outside the package sees of a task.\<close>

definition task_ID :: "task \<Rightarrow> uuid" where "task_ID t = t_id t"
definition task_Status :: "task \<Rightarrow> status" where "task_Status t = t_status t"
definition task_Handler :: "task \<Rightarrow> string" where "task_Handler t = t_handler t"
definition task_Payload :: "task \<Rightarrow> bytes option" where "task_Payload t = t_payload t"
definition task_CreatedAt :: "task \<Rightarrow> gotime" where "task_CreatedAt t = t_createdAt t"

lemmas task_getters = task_ID_def task_Status_def task_Handler_def task_Payload_def task_CreatedAt_def

text \<open>They see everything: a repository can rebuild a task from them.\<close>

lemma FromPersistence_getters:
  "FromPersistence (task_ID t) (task_Status t) (task_Handler t) (task_Payload t) (task_CreatedAt t) = t"
  by (simp add: task_getters FromPersistence_def)

section \<open>Events (event.go, events.go)\<close>

text \<open>\<open>domain.Event\<close> has one implementation, \<open>tasks.Submitted\<close>.\<close>

record submitted =
  ev_TaskID :: uuid
  ev_Handler :: string
  ev_ocurredAt :: gotime

datatype event = EvSubmitted submitted

definition NewSubmitted :: "task \<Rightarrow> gotime \<Rightarrow> event" where
  "NewSubmitted t now =
     EvSubmitted \<lparr>ev_TaskID = t_id t, ev_Handler = t_handler t, ev_ocurredAt = now\<rparr>"

fun EventName :: "event \<Rightarrow> string" where
  "EventName (EvSubmitted e) = ''task.submitted.v1''"

fun OccurredAt :: "event \<Rightarrow> gotime" where
  "OccurredAt (EvSubmitted e) = ev_ocurredAt e"

definition EnvelopeVersion :: int where "EnvelopeVersion = 1"

end
