(* ===== verification/Task_Ports.thy ===== *)
theory Task_Ports
  imports Domain_Tasks
begin

text \<open>
  internal/service/task/ports.go: the interfaces the service layer declares. Each interface is a
  record of its methods (over a context type \<open>'c\<close> and the state \<open>'s\<close> behind the
  port) and a locale with the laws the service relies on. The laws speak about the store
  through \<open>rows\<close>, the list of stored tasks with their idempotency keys, and \<open>ok\<close>,
  the invariant the provider keeps.
\<close>

record ('c, 's) tasks_repo =
  repo_Insert :: "'c \<Rightarrow> task \<Rightarrow> string option \<Rightarrow> 's op_err"
  repo_Get :: "'c \<Rightarrow> uuid \<Rightarrow> ('s, task) op_res"
  repo_GetByIdempotencyKey :: "'c \<Rightarrow> string \<Rightarrow> ('s, task) op_res"

type_synonym ('c, 's) outbox_append = "'c \<Rightarrow> event list \<Rightarrow> 's op_err"
type_synonym ('c, 's) within_tx = "'c \<Rightarrow> ('c \<Rightarrow> 's op_err) \<Rightarrow> 's op_err"

section \<open>The store as the ports see it\<close>

type_synonym stored = "string option \<times> task"

definition uniq_rows :: "stored list \<Rightarrow> bool" where
  "uniq_rows rs \<longleftrightarrow> distinct (map (\<lambda>x. t_id (snd x)) rs)
     \<and> distinct (filter (\<lambda>k. k \<noteq> None) (map fst rs))"

text \<open>The columns an insert takes from the aggregate; the status is the column's default.\<close>

definition stored_from :: "task \<Rightarrow> task \<Rightarrow> bool" where
  "stored_from t d \<longleftrightarrow>
     t_id d = t_id t \<and> t_handler d = t_handler t \<and> t_status d = StatusPending"

definition taken :: "task \<Rightarrow> string option \<Rightarrow> stored list \<Rightarrow> bool" where
  "taken t k rs \<longleftrightarrow> t_id t \<in> (\<lambda>x. t_id (snd x)) ` set rs \<or> (k \<noteq> None \<and> k \<in> fst ` set rs)"

lemma uniq_rows_key:
  assumes "uniq_rows rs" and "(Some k, a) \<in> set rs" and "(Some k, b) \<in> set rs"
  shows "a = b"
  using assms
proof (induction rs)
  case Nil
  then show ?case by simp
next
  case (Cons r rs)
  have notin: "(Some k, x) \<notin> set rs" if "fst r = Some k" for x
  proof
    assume "(Some k, x) \<in> set rs"
    then have "Some k \<in> set (filter (\<lambda>k. k \<noteq> None) (map fst rs))" by force
    with Cons.prems(1) that show False by (simp add: uniq_rows_def)
  qed
  have "uniq_rows rs"
    using Cons.prems(1) by (simp add: uniq_rows_def split: if_splits)
  with Cons.IH Cons.prems(2,3) notin show ?case
    by (metis fst_conv set_ConsD snd_conv)
qed

lemma uniq_rows_id:
  assumes "uniq_rows rs" and "(k, a) \<in> set rs" and "(l, b) \<in> set rs" and "t_id a = t_id b"
  shows "(k, a) = (l, b)"
proof -
  have "inj_on (\<lambda>x. t_id (snd x)) (set rs)"
    using assms(1) by (simp add: uniq_rows_def distinct_map)
  with assms(2-4) show ?thesis
    by (metis inj_onD snd_conv)
qed

text \<open>A lookup by id or by key finds the one row that has it.\<close>

lemma uniq_find_id:
  assumes "uniq_rows rs" and "(k, d) \<in> set rs"
  shows "List.find (\<lambda>x. t_id (snd x) = t_id d) rs = Some (k, d)"
proof (cases "List.find (\<lambda>x. t_id (snd x) = t_id d) rs")
  case None
  with assms(2) show ?thesis by (auto dest: find_NoneD)
next
  case (Some x)
  obtain l e where x: "x = (l, e)" by (cases x)
  from find_SomeD [OF Some] x have "(l, e) \<in> set rs" "t_id e = t_id d" by simp_all
  from uniq_rows_id [OF assms(1) this(1) assms(2) this(2)] Some x show ?thesis by simp
qed

lemma uniq_find_key:
  assumes "uniq_rows rs" and "(Some k, d) \<in> set rs"
  shows "List.find (\<lambda>x. fst x = Some k) rs = Some (Some k, d)"
proof (cases "List.find (\<lambda>x. fst x = Some k) rs")
  case None
  with assms(2) show ?thesis by (auto dest: find_NoneD)
next
  case (Some x)
  obtain l e where x: "x = (l, e)" by (cases x)
  from find_SomeD [OF Some] x have "(Some k, e) \<in> set rs" "l = Some k" by auto
  from uniq_rows_key [OF assms(1) this(1) assms(2)] this(2) Some x show ?thesis by simp
qed

text \<open>The key at most one row carries: how many rows an idempotency key has.\<close>

definition key_rows :: "string \<Rightarrow> stored list \<Rightarrow> stored list" where
  "key_rows k rs = filter (\<lambda>x. fst x = Some k) rs"

lemma uniq_rows_key_count: "uniq_rows rs \<Longrightarrow> length (key_rows k rs) \<le> 1"
proof (induction rs)
  case Nil
  then show ?case by (simp add: key_rows_def)
next
  case (Cons r rs)
  have tail: "uniq_rows rs"
    using Cons.prems by (simp add: uniq_rows_def split: if_splits)
  have "key_rows k rs = []" if "fst r = Some k"
    using that Cons.prems by (force simp: uniq_rows_def key_rows_def filter_empty_conv)
  with Cons.IH [OF tail] show ?case
    by (cases "fst r = Some k") (simp_all add: key_rows_def)
qed

lemma uniq_key_rows:
  assumes "uniq_rows rs" and "(Some k, d) \<in> set rs"
  shows "key_rows k rs = [(Some k, d)]"
proof -
  have "(Some k, d) \<in> set (key_rows k rs)" using assms(2) by (simp add: key_rows_def)
  with uniq_rows_key_count [OF assms(1), of k] show ?thesis
    by (cases "key_rows k rs") auto
qed

section \<open>TasksRepo\<close>

locale task_store =
  fixes R :: "('c, 's) tasks_repo"
    and rows :: "'s \<Rightarrow> stored list"
    and ok :: "'s \<Rightarrow> bool"
  assumes ok_uniq: "ok s \<Longrightarrow> uniq_rows (rows s)"
    and insert_ok: "ok s \<Longrightarrow> ok (fst (repo_Insert R c t k s))"
    and insert_stored: "ok s \<Longrightarrow> repo_Insert R c t k s = (s', None) \<Longrightarrow>
      \<exists>d. rows s' = rows s @ [(k, d)] \<and> stored_from t d"
    and insert_failed: "ok s \<Longrightarrow> repo_Insert R c t k s = (s', Some e) \<Longrightarrow>
      rows s' = rows s \<or> (\<exists>d. rows s' = rows s @ [(k, d)] \<and> stored_from t d)"
    and insert_conflict: "ok s \<Longrightarrow> repo_Insert R c t k s = (s', Some e) \<Longrightarrow>
      errors_Is e ErrConflict \<Longrightarrow> rows s' = rows s \<and> taken t k (rows s)"
    and get_ok: "ok s \<Longrightarrow> ok (fst (repo_Get R c i s))"
    and get_rows: "ok s \<Longrightarrow> rows (fst (repo_Get R c i s)) = rows s"
    and get_found: "ok s \<Longrightarrow> repo_Get R c i s = (s', Inr t) \<Longrightarrow>
      t \<in> snd ` set (rows s) \<and> t_id t = i"
    and get_missing: "ok s \<Longrightarrow> repo_Get R c i s = (s', Inl e) \<Longrightarrow> errors_Is e ErrNotFound \<Longrightarrow>
      x \<in> set (rows s) \<Longrightarrow> t_id (snd x) \<noteq> i"
    and get_key_ok: "ok s \<Longrightarrow> ok (fst (repo_GetByIdempotencyKey R c k' s))"
    and get_key_rows: "ok s \<Longrightarrow> rows (fst (repo_GetByIdempotencyKey R c k' s)) = rows s"
    and get_key_found: "ok s \<Longrightarrow> repo_GetByIdempotencyKey R c k' s = (s', Inr t) \<Longrightarrow>
      (Some k', t) \<in> set (rows s)"
    and get_key_missing: "ok s \<Longrightarrow> repo_GetByIdempotencyKey R c k' s = (s', Inl e) \<Longrightarrow>
      errors_Is e ErrNotFound \<Longrightarrow> Some k' \<notin> fst ` set (rows s)"

section \<open>TxRunner and OutboxRepo\<close>

text \<open>
  \<open>WithinTx\<close> runs the closure once. It answers nil only for a closure that did; its own
  failure (a commit that fails) is never \<open>ErrConflict\<close>; on an error the closure's effects
  may be kept or rolled back.
\<close>

locale tx_runner =
  fixes run_tx :: "('c, 's) within_tx"
  assumes tx_commit: "run_tx c f s = (s', None) \<Longrightarrow> \<exists>c'. f c' s = (s', None)"
    and tx_abort: "run_tx c f s = (s', Some e) \<Longrightarrow>
      \<exists>c' s'' r. f c' s = (s'', r) \<and> (s' = s \<or> s' = s'')
        \<and> (r = Some e \<or> \<not> errors_Is e ErrConflict)"

locale outbox_port =
  fixes append_events :: "('c, 's) outbox_append"
    and rows :: "'s \<Rightarrow> stored list"
    and ok :: "'s \<Rightarrow> bool"
  assumes append_ok: "ok s \<Longrightarrow> ok (fst (append_events c es s))"
    and append_rows: "rows (fst (append_events c es s)) = rows s"
    and append_no_conflict: "append_events c es s = (s', Some e) \<Longrightarrow> \<not> errors_Is e ErrConflict"

end
