(* ===== verification/Task_Service.thy ===== *)
theory Task_Service
  imports Task_Ports "HOL-Library.Sublist"
begin

text \<open>
  internal/service/task: the Commander (\<open>Submit\<close>) and the Querier (\<open>Get\<close>) over the
  ports, what they guarantee under the ports' laws, and the order of the calls they make.
\<close>

section \<open>commander.go\<close>

record submit_command =
  sc_Handler :: string
  sc_Payload :: "bytes option"
  sc_IdempotencyKey :: string

record ('c, 's) commander =
  cm_tasks :: "('c, 's) tasks_repo"
  cm_outbox :: "('c, 's) outbox_append"
  cm_tx :: "('c, 's) within_tx"
  cm_now :: "('s, gotime) op"
  cm_newID :: "('s, uuid) op_res"

text \<open>
  The real clock and the UUIDv7 generator of \<open>NewCommander\<close> belong to the environment:
  they are arguments.
\<close>

definition NewCommander ::
  "('s, gotime) op \<Rightarrow> ('s, uuid) op_res \<Rightarrow>
   ('c, 's) tasks_repo \<Rightarrow> ('c, 's) outbox_append \<Rightarrow> ('c, 's) within_tx \<Rightarrow> ('c, 's) commander" where
  "NewCommander time_Now uuid_NewV7 tasks outbox tx =
     \<lparr>cm_tasks = tasks, cm_outbox = outbox, cm_tx = tx, cm_now = time_Now,
      cm_newID = uuid_NewV7\<rparr>"

text \<open>The closure \<open>Submit\<close> hands to \<open>WithinTx\<close>.\<close>

definition submit_tx ::
  "('c, 's) commander \<Rightarrow> task \<Rightarrow> string option \<Rightarrow> gotime \<Rightarrow> 'c \<Rightarrow> 's op_err" where
  "submit_tx cm t key now ctx s =
     (case repo_Insert (cm_tasks cm) ctx t key s of
        (s1, Some e) \<Rightarrow> (s1, Some e)
      | (s1, None) \<Rightarrow> cm_outbox cm ctx [NewSubmitted t now] s1)"

text \<open>The switch on the transaction's error, with the replay read outside \<open>WithinTx\<close>.\<close>

definition submit_result ::
  "('c, 's) commander \<Rightarrow> 'c \<Rightarrow> submit_command \<Rightarrow> task \<Rightarrow> gerr option \<Rightarrow> ('s, task) op_res" where
  "submit_result cm ctx cmd t err s =
     (case err of
        None \<Rightarrow> (s, Inr t)
      | Some e \<Rightarrow>
          if errors_Is e ErrConflict then
            if sc_IdempotencyKey cmd = [] then
              (s, Inl (Wrapf ''idempotency conflict without a key'' e))
            else
              (case repo_GetByIdempotencyKey (cm_tasks cm) ctx (sc_IdempotencyKey cmd) s of
                 (s1, Inl rerr) \<Rightarrow> (s1, Inl (Wrapf ''replay idempotent task'' rerr))
               | (s1, Inr existing) \<Rightarrow> (s1, Inr existing))
          else (s, Inl (Wrapf ''submit task'' e)))"

definition key_of_command :: "submit_command \<Rightarrow> string option" where
  "key_of_command cmd =
     (if sc_IdempotencyKey cmd \<noteq> [] then Some (sc_IdempotencyKey cmd) else None)"

definition Submit ::
  "('c, 's) commander \<Rightarrow> 'c \<Rightarrow> submit_command \<Rightarrow> ('s, task) op_res" where
  "Submit cm ctx cmd s =
     (case cm_newID cm s of
        (s1, Inl e) \<Rightarrow> (s1, Inl (Wrapf ''new id'' e))
      | (s1, Inr i) \<Rightarrow>
          (case cm_now cm s1 of
             (s2, n) \<Rightarrow>
               (let now = time_UTC n;
                    t = tasks_Submit i (sc_Handler cmd) (sc_Payload cmd) now;
                    key = key_of_command cmd
                in case cm_tx cm ctx (submit_tx cm t key now) s2 of
                     (s3, err) \<Rightarrow> submit_result cm ctx cmd t err s3)))"

section \<open>querier.go\<close>

record task_view =
  tv_ID :: uuid
  tv_Status :: string
  tv_Handler :: string
  tv_CreatedAt :: gotime

text \<open>The read side is a struct with one field, the repository: it is that repository here.\<close>

definition NewQuerier :: "('c, 's) tasks_repo \<Rightarrow> ('c, 's) tasks_repo" where
  "NewQuerier tasks = tasks"

definition Querier_Get :: "('c, 's) tasks_repo \<Rightarrow> 'c \<Rightarrow> uuid \<Rightarrow> ('s, task_view) op_res" where
  "Querier_Get tasks ctx i s =
     (case repo_Get tasks ctx i s of
        (s1, Inl e) \<Rightarrow> (s1, Inl e)
      | (s1, Inr row) \<Rightarrow>
          (s1, Inr \<lparr>tv_ID = t_id row, tv_Status = t_status row, tv_Handler = t_handler row,
                   tv_CreatedAt = t_createdAt row\<rparr>))"

lemma Querier_Get_ok:
  "Querier_Get tasks ctx i s = (s', Inr v) \<Longrightarrow> \<exists>t. repo_Get tasks ctx i s = (s', Inr t)
     \<and> v = \<lparr>tv_ID = t_id t, tv_Status = t_status t, tv_Handler = t_handler t,
            tv_CreatedAt = t_createdAt t\<rparr>"
  by (cases "repo_Get tasks ctx i s") (auto simp: Querier_Get_def split: sum.splits)

lemma Querier_Get_err:
  "Querier_Get tasks ctx i s = (s', Inl e) \<Longrightarrow> repo_Get tasks ctx i s = (s', Inl e)"
  by (cases "repo_Get tasks ctx i s") (auto simp: Querier_Get_def split: sum.splits)

lemma Querier_Get_state: "fst (Querier_Get tasks ctx i s) = fst (repo_Get tasks ctx i s)"
  by (cases "repo_Get tasks ctx i s") (auto simp: Querier_Get_def split: sum.splits)

section \<open>A sequence of submits\<close>

text \<open>Clients that submit one after the other; the answers in order.\<close>

fun submit_all ::
  "('c, 's) commander \<Rightarrow> ('c \<times> submit_command) list \<Rightarrow> 's \<Rightarrow> 's \<times> (gerr + task) list" where
  "submit_all cm [] s = (s, [])"
| "submit_all cm ((ctx, cmd) # cmds) s =
     (case Submit cm ctx cmd s of
        (s1, r) \<Rightarrow> (case submit_all cm cmds s1 of (s2, rs) \<Rightarrow> (s2, r # rs)))"

lemma length_submit_all [simp]: "length (snd (submit_all cm cmds s)) = length cmds"
  by (induction cmds arbitrary: s) (auto simp: case_prod_beta)

section \<open>What Submit guarantees under the ports' laws\<close>

text \<open>
  An outcome of a submit on the store: it added one row for the command, or it left the rows
  alone.
\<close>

definition added :: "submit_command \<Rightarrow> stored list \<Rightarrow> stored list \<Rightarrow> task \<Rightarrow> bool" where
  "added cmd rs rs' t \<longleftrightarrow>
     (\<exists>d. rs' = rs @ [(key_of_command cmd, d)] \<and> stored_from t d)"

definition fresh_task :: "submit_command \<Rightarrow> task \<Rightarrow> bool" where
  "fresh_task cmd t \<longleftrightarrow> t_status t = StatusPending \<and> t_handler t = sc_Handler cmd
     \<and> t_payload t = sc_Payload cmd \<and> mono (t_createdAt t) = None \<and> zone (t_createdAt t) = ''UTC''"

definition submit_outcome ::
  "submit_command \<Rightarrow> stored list \<Rightarrow> stored list \<Rightarrow> gerr + task \<Rightarrow> bool" where
  "submit_outcome cmd rs rs' r \<longleftrightarrow>
     (rs' = rs \<or> (\<exists>t. added cmd rs rs' t \<and> fresh_task cmd t))
     \<and> (\<forall>t. r = Inr t \<longrightarrow>
          (added cmd rs rs' t \<and> fresh_task cmd t)
          \<or> (rs' = rs \<and> sc_IdempotencyKey cmd \<noteq> []
             \<and> (Some (sc_IdempotencyKey cmd), t) \<in> set rs))"

lemma fresh_task_Submit:
  "fresh_task cmd (tasks_Submit i (sc_Handler cmd) (sc_Payload cmd) (time_UTC n))"
  by (simp add: fresh_task_def)

locale submit_service =
  task_store "cm_tasks C" rows ok +
  tx_runner "cm_tx C" +
  outbox_port "cm_outbox C" rows ok
  for C :: "('c, 's) commander" and rows :: "'s \<Rightarrow> stored list" and ok :: "'s \<Rightarrow> bool" +
  assumes now_ok: "ok s \<Longrightarrow> ok (fst (cm_now C s))"
    and now_rows: "rows (fst (cm_now C s)) = rows s"
    and id_ok: "ok s \<Longrightarrow> ok (fst (cm_newID C s))"
    and id_rows: "rows (fst (cm_newID C s)) = rows s"
begin

lemma submit_tx_effect:
  assumes ok: "ok s" and run: "submit_tx C t key now ctx s = (s', r)"
  shows "ok s'"
    and "r = None \<Longrightarrow> \<exists>d. rows s' = rows s @ [(key, d)] \<and> stored_from t d"
    and "rows s' = rows s \<or> (\<exists>d. rows s' = rows s @ [(key, d)] \<and> stored_from t d)"
    and "r = Some e \<Longrightarrow> errors_Is e ErrConflict \<Longrightarrow> rows s' = rows s \<and> taken t key (rows s)"
proof -
  obtain s1 ri where ins: "repo_Insert (cm_tasks C) ctx t key s = (s1, ri)"
    by (cases "repo_Insert (cm_tasks C) ctx t key s")
  have ok1: "ok s1" using insert_ok [OF ok] ins by (metis fst_conv)
  have app: "rows s' = rows s1 \<and> ok s'
      \<and> (r = Some e \<longrightarrow> \<not> errors_Is e ErrConflict)" if "ri = None" for e
    using run ins that append_rows append_ok [OF ok1] append_no_conflict
    by (simp add: submit_tx_def) (metis fst_conv)
  have err: "s' = s1 \<and> r = ri" if "ri = Some x" for x
    using run ins that by (simp add: submit_tx_def)
  show "ok s'" using app err ok1 by (cases ri) auto
  show "\<exists>d. rows s' = rows s @ [(key, d)] \<and> stored_from t d" if "r = None"
    using that app err ins insert_stored [OF ok] by (cases ri) auto
  show "rows s' = rows s \<or> (\<exists>d. rows s' = rows s @ [(key, d)] \<and> stored_from t d)"
    using app err ins insert_stored [OF ok] insert_failed [OF ok] by (cases ri) auto
  show "rows s' = rows s \<and> taken t key (rows s)" if "r = Some e" "errors_Is e ErrConflict"
    using that app err ins insert_conflict [OF ok] by (cases ri) auto
qed

lemma within_tx_effect:
  assumes ok: "ok s" and run: "cm_tx C ctx (submit_tx C t key now) s = (s', r)"
  shows "ok s'"
    and "r = None \<Longrightarrow> \<exists>d. rows s' = rows s @ [(key, d)] \<and> stored_from t d"
    and "rows s' = rows s \<or> (\<exists>d. rows s' = rows s @ [(key, d)] \<and> stored_from t d)"
    and "r = Some e \<Longrightarrow> errors_Is e ErrConflict \<Longrightarrow> rows s' = rows s \<and> taken t key (rows s)"
proof -
  have "\<exists>c' s'' r'. submit_tx C t key now c' s = (s'', r') \<and> (s' = s \<or> s' = s'')
      \<and> (r = None \<longrightarrow> s' = s'' \<and> r' = None)
      \<and> (\<forall>e. r = Some e \<and> errors_Is e ErrConflict \<longrightarrow> r' = Some e)"
    using run tx_commit tx_abort by (cases r) fastforce+
  then obtain c' s'' r' where f: "submit_tx C t key now c' s = (s'', r')"
    and s': "s' = s \<or> s' = s''" and none: "r = None \<longrightarrow> s' = s'' \<and> r' = None"
    and conf: "\<forall>e. r = Some e \<and> errors_Is e ErrConflict \<longrightarrow> r' = Some e"
    by blast
  note eff = submit_tx_effect [OF ok f]
  show "ok s'" using s' ok eff(1) by blast
  show "\<exists>d. rows s' = rows s @ [(key, d)] \<and> stored_from t d" if "r = None"
    using that none eff(2) by simp
  show "rows s' = rows s \<or> (\<exists>d. rows s' = rows s @ [(key, d)] \<and> stored_from t d)"
    using s' eff(3) by blast
  show "rows s' = rows s \<and> taken t key (rows s)" if "r = Some e" "errors_Is e ErrConflict"
    using that s' conf eff(4) by blast
qed

text \<open>
  One submit: it keeps the invariant and adds at most one row; a success is a fresh task whose
  row was added, or the task stored under the command's key with the rows unchanged.
\<close>

lemma submit_result_effect:
  assumes ok: "ok s3" and fresh: "fresh_task cmd t"
    and grow: "rows s3 = rs \<or> added cmd rs (rows s3) t"
    and commit: "err = None \<Longrightarrow> added cmd rs (rows s3) t"
    and conf: "\<And>e. err = Some e \<Longrightarrow> errors_Is e ErrConflict \<Longrightarrow> rows s3 = rs"
    and fin: "submit_result C ctx cmd t err s3 = (s', r)"
  shows "ok s' \<and> submit_outcome cmd rs (rows s') r"
proof (cases "\<exists>e. err = Some e \<and> errors_Is e ErrConflict \<and> sc_IdempotencyKey cmd \<noteq> []")
  case True
  then obtain e where e: "err = Some e" "errors_Is e ErrConflict" "sc_IdempotencyKey cmd \<noteq> []"
    by blast
  obtain s4 g where get:
    "repo_GetByIdempotencyKey (cm_tasks C) ctx (sc_IdempotencyKey cmd) s3 = (s4, g)"
    by (cases "repo_GetByIdempotencyKey (cm_tasks C) ctx (sc_IdempotencyKey cmd) s3")
  have s4: "ok s4" "rows s4 = rs"
    using get_key_ok [OF ok] get_key_rows [OF ok] get conf [OF e(1,2)] by (metis fst_conv)+
  have res: "s' = s4 \<and> (\<forall>t. r = Inr t \<longrightarrow> g = Inr t)"
    using fin e get by (cases g) (auto simp: submit_result_def)
  then have "(Some (sc_IdempotencyKey cmd), t) \<in> set rs" if "r = Inr t" for t
    using that get_key_found [OF ok] get conf [OF e(1,2)] by simp
  with res s4 e(3) show ?thesis by (simp add: submit_outcome_def)
next
  case False
  then have "s' = s3" and "\<forall>u. r = Inr u \<longrightarrow> u = t \<and> err = None"
    using fin by (auto simp: submit_result_def split: option.splits if_splits)
  with ok grow commit fresh show ?thesis by (auto simp: submit_outcome_def)
qed

lemma submit_effect:
  assumes ok: "ok s" and run: "Submit C ctx cmd s = (s', r)"
  shows "ok s' \<and> submit_outcome cmd (rows s) (rows s') r"
proof -
  obtain s1 ri where nid: "cm_newID C s = (s1, ri)" by (cases "cm_newID C s")
  have s1: "ok s1" "rows s1 = rows s"
    using id_ok [OF ok] id_rows [of s] nid by simp_all
  show ?thesis
  proof (cases ri)
    case (Inl e)
    with run nid have "s' = s1" and "r = Inl (Wrapf ''new id'' e)"
      by (simp_all add: Submit_def)
    with s1 show ?thesis by (simp add: submit_outcome_def)
  next
    case (Inr i)
    obtain s2 n where now: "cm_now C s1 = (s2, n)" by (cases "cm_now C s1")
    have s2: "ok s2" "rows s2 = rows s"
      using now_ok [OF s1(1)] now_rows [of s1] now s1 by simp_all
    let ?t = "tasks_Submit i (sc_Handler cmd) (sc_Payload cmd) (time_UTC n)"
    let ?k = "key_of_command cmd"
    obtain s3 err where tx: "cm_tx C ctx (submit_tx C ?t ?k (time_UTC n)) s2 = (s3, err)"
      by (cases "cm_tx C ctx (submit_tx C ?t ?k (time_UTC n)) s2")
    note eff = within_tx_effect [OF s2(1) tx]
    have fin: "submit_result C ctx cmd ?t err s3 = (s', r)"
      using run nid now tx Inr by (simp add: Submit_def Let_def)
    show ?thesis
      by (rule submit_result_effect [OF eff(1) fresh_task_Submit _ _ _ fin])
        (use eff(2,3,4) s2 in \<open>auto simp: added_def\<close>)
  qed
qed

lemma submit_ok: "ok s \<Longrightarrow> Submit C ctx cmd s = (s', r) \<Longrightarrow> ok s'"
  using submit_effect by blast

lemma submit_mono: "ok s \<Longrightarrow> set (rows s) \<subseteq> set (rows (fst (Submit C ctx cmd s)))"
  using submit_effect [of s ctx cmd]
  by (cases "Submit C ctx cmd s") (fastforce simp: added_def submit_outcome_def)

text \<open>After a success with a key, the key's row holds the answered task's id.\<close>

lemma submit_key_row:
  assumes "ok s" and "Submit C ctx cmd s = (s', Inr t)" and "sc_IdempotencyKey cmd = k" and "k \<noteq> []"
  shows "\<exists>d. (Some k, d) \<in> set (rows s') \<and> t_id d = t_id t"
  using submit_effect [OF assms(1,2)] assms(3,4)
  by (auto simp: submit_outcome_def added_def stored_from_def key_of_command_def)

lemma submit_all_ok:
  "ok s \<Longrightarrow> ok (fst (submit_all C cmds s)) \<and> set (rows s) \<subseteq> set (rows (fst (submit_all C cmds s)))
     \<and> length (rows (fst (submit_all C cmds s))) \<le> length (rows s) + length cmds"
proof (induction cmds arbitrary: s)
  case Nil
  then show ?case by simp
next
  case (Cons x cmds)
  obtain ctx cmd where x: "x = (ctx, cmd)" by (cases x)
  obtain s1 r where sub: "Submit C ctx cmd s = (s1, r)" by (cases "Submit C ctx cmd s")
  note eff = submit_effect [OF Cons.prems sub]
  have "set (rows s) \<subseteq> set (rows s1)" "length (rows s1) \<le> Suc (length (rows s))"
    using eff by (auto simp: submit_outcome_def added_def)
  with Cons.IH [OF conjunct1 [OF eff]] show ?case
    by (auto simp: x sub case_prod_beta)
qed

text \<open>
  What a history of submits adds: at most one pending row per command, in the commands' order, with
  the command's key and handler. Every success has its row.
\<close>

lemma submit_all_adds:
  "ok s \<Longrightarrow> submit_all C cmds s = (s', as) \<Longrightarrow>
   \<exists>new. rows s' = rows s @ new \<and> list_all (\<lambda>x. t_status (snd x) = StatusPending) new
     \<and> subseq (map (\<lambda>x. (fst x, t_handler (snd x))) new)
         (map (\<lambda>x. (key_of_command (snd x), sc_Handler (snd x))) cmds)"
proof (induction cmds arbitrary: s as)
  case Nil
  then show ?case by simp
next
  case (Cons x cmds)
  obtain ctx cmd where x: "x = (ctx, cmd)" by (cases x)
  obtain s1 r where sub: "Submit C ctx cmd s = (s1, r)" by (cases "Submit C ctx cmd s")
  note eff = submit_effect [OF Cons.prems(1) sub]
  obtain new where new: "rows s' = rows s1 @ new" "list_all (\<lambda>x. t_status (snd x) = StatusPending) new"
    "subseq (map (\<lambda>x. (fst x, t_handler (snd x))) new)
       (map (\<lambda>x. (key_of_command (snd x), sc_Handler (snd x))) cmds)"
    using Cons.IH [OF conjunct1 [OF eff]] Cons.prems(2) x sub by (auto split: prod.splits)
  consider "rows s1 = rows s"
    | d where "rows s1 = rows s @ [(key_of_command cmd, d)]" "t_handler d = sc_Handler cmd"
        "t_status d = StatusPending"
    using eff by (auto simp: submit_outcome_def added_def stored_from_def fresh_task_def)
  then show ?case
  proof cases
    case 1
    with new show ?thesis by (intro exI [of _ new]) auto
  next
    case 2
    with new x show ?thesis by (intro exI [of _ "(key_of_command cmd, d) # new"]) auto
  qed
qed

lemma submit_all_has_row:
  "ok s \<Longrightarrow> submit_all C cmds s = (s', as) \<Longrightarrow> i < length cmds \<Longrightarrow> as ! i = Inr t \<Longrightarrow>
   \<exists>d. (key_of_command (snd (cmds ! i)), d) \<in> set (rows s') \<and> t_id d = t_id t"
proof (induction cmds arbitrary: s as i)
  case (Cons x cmds)
  obtain ctx cmd where x: "x = (ctx, cmd)" by (cases x)
  obtain s1 r where sub: "Submit C ctx cmd s = (s1, r)" by (cases "Submit C ctx cmd s")
  note eff = submit_effect [OF Cons.prems(1) sub]
  obtain as1 where rest: "submit_all C cmds s1 = (s', as1)" "as = r # as1"
    using Cons.prems(2) x sub by (auto split: prod.splits)
  show ?case
  proof (cases i)
    case 0
    with Cons.prems(4) rest(2) eff
    have "\<exists>d. (key_of_command cmd, d) \<in> set (rows s1) \<and> t_id d = t_id t"
      by (auto simp: submit_outcome_def added_def stored_from_def key_of_command_def)
    with submit_all_ok [OF conjunct1 [OF eff], of cmds] rest(1) 0 x show ?thesis by auto
  next
    case (Suc j)
    with Cons.IH [OF conjunct1 [OF eff] rest(1), of j] Cons.prems(3,4) rest(2) show ?thesis by simp
  qed
qed simp

text \<open>A success without a key answers an id that no row had, and no earlier success.\<close>

lemma keyless_new_id:
  "ok s \<Longrightarrow> j < length cmds \<Longrightarrow> sc_IdempotencyKey (snd (cmds ! j)) = [] \<Longrightarrow>
   snd (submit_all C cmds s) ! j = Inr t \<Longrightarrow> t_id t \<notin> (\<lambda>x. t_id (snd x)) ` set (rows s)"
proof (induction cmds arbitrary: s j)
  case (Cons x cmds)
  obtain ctx cmd where x: "x = (ctx, cmd)" by (cases x)
  obtain s1 r where sub: "Submit C ctx cmd s = (s1, r)" by (cases "Submit C ctx cmd s")
  have ok1: "ok s1" by (rule submit_ok [OF Cons.prems(1) sub])
  show ?case
  proof (cases j)
    case 0
    with Cons.prems(3,4) x sub have "added cmd (rows s) (rows s1) t"
      using submit_effect [OF Cons.prems(1) sub] by (auto simp: submit_outcome_def case_prod_beta)
    then obtain d where "rows s1 = rows s @ [(key_of_command cmd, d)]" "t_id d = t_id t"
      by (auto simp: added_def stored_from_def)
    with ok_uniq [OF ok1] show ?thesis by (simp add: uniq_rows_def)
  next
    case (Suc j')
    with Cons.prems x sub have "t_id t \<notin> (\<lambda>x. t_id (snd x)) ` set (rows s1)"
      by (intro Cons.IH [OF ok1, of j']) (simp_all add: case_prod_beta)
    with submit_mono [OF Cons.prems(1), of ctx cmd] sub show ?thesis by auto
  qed
qed simp

lemma submit_all_id_stored:
  "ok s \<Longrightarrow> Submit C ctx cmd s = (s', Inr t) \<Longrightarrow> t_id t \<in> (\<lambda>x. t_id (snd x)) ` set (rows s')"
  using submit_effect [of s ctx cmd s' "Inr t"]
  by (auto simp: submit_outcome_def added_def stored_from_def intro: rev_image_eqI)

lemma keyless_other_id:
  "ok s \<Longrightarrow> i < j \<Longrightarrow> j < length cmds \<Longrightarrow> sc_IdempotencyKey (snd (cmds ! j)) = [] \<Longrightarrow>
   snd (submit_all C cmds s) ! i = Inr t \<Longrightarrow> snd (submit_all C cmds s) ! j = Inr u \<Longrightarrow> t_id u \<noteq> t_id t"
proof (induction cmds arbitrary: s i j)
  case (Cons x cmds)
  obtain ctx cmd where x: "x = (ctx, cmd)" by (cases x)
  obtain s1 r where sub: "Submit C ctx cmd s = (s1, r)" by (cases "Submit C ctx cmd s")
  have ok1: "ok s1" by (rule submit_ok [OF Cons.prems(1) sub])
  obtain j' where j: "j = Suc j'" using Cons.prems(2) by (cases j) auto
  show ?case
  proof (cases i)
    case 0
    with Cons.prems(5) x sub have "r = Inr t" by (simp add: case_prod_beta)
    moreover have "t_id u \<notin> (\<lambda>x. t_id (snd x)) ` set (rows s1)"
      using Cons.prems x sub j by (intro keyless_new_id [OF ok1, of j']) (simp_all add: case_prod_beta)
    ultimately show ?thesis using submit_all_id_stored [OF Cons.prems(1)] sub by metis
  next
    case (Suc i')
    with Cons.prems x sub j show ?thesis
      by (intro Cons.IH [OF ok1, of i' j']) (simp_all add: case_prod_beta)
  qed
qed simp

text \<open>A success for a key that has a row answers that row's task.\<close>

lemma later_success_same_id:
  assumes "ok s" and "(Some k, d) \<in> set (rows s)"
    and "j < length cmds" and "sc_IdempotencyKey (snd (cmds ! j)) = k" and "k \<noteq> []"
    and "snd (submit_all C cmds s) ! j = Inr t"
  shows "t_id t = t_id d"
  using assms
proof (induction cmds arbitrary: s j)
  case Nil
  then show ?case by simp
next
  case (Cons x cmds)
  obtain ctx cmd where x: "x = (ctx, cmd)" by (cases x)
  obtain s1 r where sub: "Submit C ctx cmd s = (s1, r)" by (cases "Submit C ctx cmd s")
  have ok1: "ok s1" by (rule submit_ok [OF Cons.prems(1) sub])
  have d1: "(Some k, d) \<in> set (rows s1)"
    using submit_mono [OF Cons.prems(1), of ctx cmd] Cons.prems(2) sub by auto
  show ?case
  proof (cases j)
    case 0
    with Cons.prems x sub have k: "sc_IdempotencyKey cmd = k" and r: "r = Inr t"
      by (simp_all add: case_prod_beta)
    obtain d' where "(Some k, d') \<in> set (rows s1)" "t_id d' = t_id t"
      using submit_key_row [OF Cons.prems(1) sub [unfolded r] k Cons.prems(5)] by blast
    with d1 uniq_rows_key [OF ok_uniq [OF ok1]] show ?thesis by metis
  next
    case (Suc j')
    with Cons.prems x sub show ?thesis
      by (intro Cons.IH [OF ok1 d1, of j']) (simp_all add: case_prod_beta)
  qed
qed

lemma same_key_same_id:
  assumes "ok s" and "i < j" and "j < length cmds"
    and "sc_IdempotencyKey (snd (cmds ! i)) = k" and "sc_IdempotencyKey (snd (cmds ! j)) = k"
    and "k \<noteq> []"
    and "snd (submit_all C cmds s) ! i = Inr t" and "snd (submit_all C cmds s) ! j = Inr u"
  shows "t_id t = t_id u"
  using assms
proof (induction cmds arbitrary: s i j)
  case Nil
  then show ?case by simp
next
  case (Cons x cmds)
  obtain ctx cmd where x: "x = (ctx, cmd)" by (cases x)
  obtain s1 r where sub: "Submit C ctx cmd s = (s1, r)" by (cases "Submit C ctx cmd s")
  have ok1: "ok s1" by (rule submit_ok [OF Cons.prems(1) sub])
  obtain j' where j: "j = Suc j'" using Cons.prems(2) by (cases j) auto
  show ?case
  proof (cases i)
    case 0
    with Cons.prems x sub have k: "sc_IdempotencyKey cmd = k" and r: "r = Inr t"
      by (simp_all add: case_prod_beta)
    obtain d where d: "(Some k, d) \<in> set (rows s1)" "t_id d = t_id t"
      using submit_key_row [OF Cons.prems(1) sub [unfolded r] k Cons.prems(6)] by blast
    have "t_id u = t_id d"
      using Cons.prems x sub j
      by (intro later_success_same_id [OF ok1 d(1), of j']) (simp_all add: case_prod_beta)
    with d(2) show ?thesis by simp
  next
    case (Suc i')
    with Cons.prems x sub j show ?thesis
      by (intro Cons.IH [OF ok1, of i' j']) (simp_all add: case_prod_beta)
  qed
qed

end

section \<open>The order of the calls\<close>

text \<open>
  A Commander over ports that record their calls, with a transaction runner that records begin,
  commit and rollback around the closure.
\<close>

datatype port_call =
  TxBegin | CallInsert | CallAppend | TxCommit | TxRollback | CallGetByKey | CallGet

definition record_call :: "port_call \<Rightarrow> ('s, 'a) op \<Rightarrow> ('s \<times> port_call list, 'a) op" where
  "record_call c f x = (case f (fst x) of (s, r) \<Rightarrow> ((s, snd x @ [c]), r))"

definition recorded :: "('c, 's) commander \<Rightarrow> ('c, 's \<times> port_call list) commander" where
  "recorded cm =
     \<lparr>cm_tasks =
        \<lparr>repo_Insert = (\<lambda>c t k. record_call CallInsert (repo_Insert (cm_tasks cm) c t k)),
         repo_Get = (\<lambda>c i. record_call CallGet (repo_Get (cm_tasks cm) c i)),
         repo_GetByIdempotencyKey =
           (\<lambda>c k. record_call CallGetByKey (repo_GetByIdempotencyKey (cm_tasks cm) c k))\<rparr>,
      cm_outbox = (\<lambda>c es. record_call CallAppend (cm_outbox cm c es)),
      cm_tx = (\<lambda>c f x.
        (case f c (fst x, snd x @ [TxBegin]) of
           ((s, l), None) \<Rightarrow> ((s, l @ [TxCommit]), None)
         | ((s, l), Some e) \<Rightarrow> ((s, l @ [TxRollback]), Some e))),
      cm_now = (\<lambda>x. case cm_now cm (fst x) of (s, n) \<Rightarrow> ((s, snd x), n)),
      cm_newID = (\<lambda>x. case cm_newID cm (fst x) of (s, r) \<Rightarrow> ((s, snd x), r))\<rparr>"

text \<open>The calls a submit makes, from the results its ports gave.\<close>

definition expected_calls ::
  "gerr + uuid \<Rightarrow> gerr option \<Rightarrow> gerr option \<Rightarrow> string \<Rightarrow> port_call list" where
  "expected_calls nid ins app key =
     (case nid of
        Inl _ \<Rightarrow> []
      | Inr _ \<Rightarrow>
          (let err = (case ins of None \<Rightarrow> app | Some e \<Rightarrow> Some e)
           in [TxBegin, CallInsert] @ (if ins = None then [CallAppend] else [])
              @ (case err of
                   None \<Rightarrow> [TxCommit]
                 | Some e \<Rightarrow> TxRollback #
                     (if errors_Is e ErrConflict \<and> key \<noteq> [] then [CallGetByKey] else []))))"

text \<open>
  C12. The order of the calls, for any ports: nothing before an id exists; insert before append,
  both between begin and the end of the transaction; append only after an insert that
  succeeded; and the replay read only for a keyed conflict, after the rollback.
\<close>

theorem submit_call_order:
  fixes cm :: "('c, 's) commander"
  assumes "cm_newID cm s = (s1, nid)" and "cm_now cm s1 = (s2, n)"
    and "now = time_UTC n"
    and "t = tasks_Submit (case nid of Inl _ \<Rightarrow> 0 | Inr i \<Rightarrow> i) (sc_Handler cmd) (sc_Payload cmd) now"
    and "repo_Insert (cm_tasks cm) ctx t (key_of_command cmd) s2 = (s3, ins)"
    and "cm_outbox cm ctx [NewSubmitted t now] s3 = (s4, app)"
  shows "snd (fst (Submit (recorded cm) ctx cmd (s, [])))
    = expected_calls nid ins app (sc_IdempotencyKey cmd)"
proof (cases nid)
  case (Inl e)
  with assms(1) show ?thesis
    by (simp add: Submit_def recorded_def expected_calls_def)
next
  case (Inr i)
  with assms show ?thesis
    by (cases ins; cases app)
      (auto simp: Submit_def submit_tx_def submit_result_def recorded_def record_call_def
        expected_calls_def Let_def split: prod.splits sum.splits)
qed

definition quiet_commander :: "gerr option \<Rightarrow> (unit, unit) commander" where
  "quiet_commander ins =
     \<lparr>cm_tasks = \<lparr>repo_Insert = (\<lambda>c t k s. (s, ins)), repo_Get = (\<lambda>c i s. (s, Inl (Plain []))),
                  repo_GetByIdempotencyKey = (\<lambda>c k s. (s, Inl (Plain [])))\<rparr>,
      cm_outbox = (\<lambda>c es s. (s, None)), cm_tx = (\<lambda>c f s. f c s),
      cm_now = (\<lambda>s. (s, \<lparr>wall = 0, mono = None, zone = ''UTC''\<rparr>)), cm_newID = (\<lambda>s. (s, Inr 1))\<rparr>"

theorem submit_call_order_witness:
  "snd (fst (Submit (recorded (quiet_commander (Some (Sentinel ErrConflict)))) ()
      \<lparr>sc_Handler = ''echo'', sc_Payload = None, sc_IdempotencyKey = ''k''\<rparr> ((), [])))
   = [TxBegin, CallInsert, TxRollback, CallGetByKey]"
proof -
  let ?c = "quiet_commander (Some (Sentinel ErrConflict))"
  let ?cmd = "\<lparr>sc_Handler = ''echo'', sc_Payload = None, sc_IdempotencyKey = ''k''\<rparr>"
  have "snd (fst (Submit (recorded ?c) () ?cmd ((), [])))
      = expected_calls (Inr 1) (Some (Sentinel ErrConflict)) None (sc_IdempotencyKey ?cmd)"
    by (rule submit_call_order) (simp_all add: quiet_commander_def)
  then show ?thesis by (simp add: expected_calls_def)
qed

end
