(* ===== verification/Api_Handler.thy ===== *)
theory Api_Handler
  imports Oas_Server Task_Service
begin

text \<open>
  internal/api: the status mapping (mapper.go), the handler that implements the generated
  interface over the task service (handler.go), and the error handler (errors.go). Its spans
  and log lines, which do not influence its answers, are in \<open>Handler_Reports\<close>.
\<close>

section \<open>mapper.go\<close>

definition toOASStatus :: "status \<Rightarrow> gerr + oas_status" where
  "toOASStatus s =
     (if s = StatusPending then Inr TaskStatusPending
      else if s = StatusRunning then Inr TaskStatusRunning
      else if s = StatusComplete then Inr TaskStatusSucceeded
      else if s = StatusFailed then Inr TaskStatusFailed
      else if s = StatusCanceled then Inr TaskStatusCancelled
      else Inl (Errorf ''unmapped task status %q'' [ArgStr s]))"

definition toOASTask :: "task \<Rightarrow> gerr + oas_task" where
  "toOASTask t =
     (case toOASStatus (t_status t) of
        Inl err \<Rightarrow> Inl err
      | Inr status \<Rightarrow>
          Inr \<lparr>ot_ID = t_id t, ot_Status = status, ot_CreatedAt = t_createdAt t\<rparr>)"

definition toOASTaskView :: "task_view \<Rightarrow> gerr + oas_task" where
  "toOASTaskView v =
     (case toOASStatus (tv_Status v) of
        Inl err \<Rightarrow> Inl err
      | Inr status \<Rightarrow>
          Inr \<lparr>ot_ID = tv_ID v, ot_Status = status, ot_CreatedAt = tv_CreatedAt v\<rparr>)"

text \<open>The statuses the domain names.\<close>

definition domain_statuses :: "status list" where
  "domain_statuses =
     [StatusPending, StatusRunning, StatusComplete, StatusFailed, StatusCanceled]"

lemma toOASStatus_ok:
  "(\<exists>o'. toOASStatus s = Inr o') \<longleftrightarrow> s \<in> set domain_statuses"
  by (auto simp: toOASStatus_def domain_statuses_def)

lemma toOASStatus_valid: "toOASStatus s = Inr o' \<Longrightarrow> o' \<in> set TaskStatus_AllValues"
  by (auto simp: toOASStatus_def TaskStatus_AllValues_def split: if_splits)

section \<open>handler.go\<close>

record ('c, 's) api_handler =
  hd_cmd :: "'c \<Rightarrow> submit_command \<Rightarrow> ('s, task) op_res"
  hd_q :: "'c \<Rightarrow> uuid \<Rightarrow> ('s, task_view) op_res"

definition NewHandler ::
  "('c \<Rightarrow> submit_command \<Rightarrow> ('s, task) op_res) \<Rightarrow> ('c \<Rightarrow> uuid \<Rightarrow> ('s, task_view) op_res) \<Rightarrow>
   ('c, 's) api_handler" where
  "NewHandler cmd q = \<lparr>hd_cmd = cmd, hd_q = q\<rparr>"

text \<open>\<open>json.Marshal\<close> of a payload calls its \<open>MarshalJSON\<close> and compacts the result.\<close>

definition json_Marshal_payload :: "lib \<Rightarrow> payload \<Rightarrow> gerr + bytes" where
  "json_Marshal_payload L p =
     (case Payload_MarshalJSON (lib_jx L) p of
        Inl err \<Rightarrow> Inl err
      | Inr b \<Rightarrow> lib_json_compact L b)"

definition request_payload :: "lib \<Rightarrow> create_task_request \<Rightarrow> gerr + bytes" where
  "request_payload L req =
     (case OptPayload_Get (cr_Payload req) of
        (p, ok) \<Rightarrow>
          if ok then
            (case json_Marshal_payload L p of
               Inl err \<Rightarrow> Inl (Wrapf ''marshal payload'' err)
             | Inr b \<Rightarrow> Inr b)
          else Inr ''{}'')"

definition Handler_CreateTask ::
  "lib \<Rightarrow> ('c, 's) api_handler \<Rightarrow> 'c \<Rightarrow> create_task_request \<Rightarrow> ('s, create_task_res) op_res" where
  "Handler_CreateTask L h ctx req s =
     (case request_payload L req of
        Inl err \<Rightarrow> (s, Inl err)
      | Inr payloadJSON \<Rightarrow>
          (let (key, _) = OptString_Get (cr_IdempotencyKey req);
               cmd = \<lparr>sc_Handler = cr_Handler req, sc_Payload = Some payloadJSON,
                      sc_IdempotencyKey = key\<rparr>
           in case hd_cmd h ctx cmd s of
                (s1, Inl err) \<Rightarrow> (s1, Inl (Wrapf ''submit task'' err))
              | (s1, Inr t) \<Rightarrow>
                  (case toOASTask t of
                     Inl err \<Rightarrow> (s1, Inl err)
                   | Inr dto \<Rightarrow> (s1, Inr (CreateTaskResTask dto)))))"

definition Handler_GetTask ::
  "('c, 's) api_handler \<Rightarrow> 'c \<Rightarrow> get_task_params \<Rightarrow> ('s, get_task_res) op_res" where
  "Handler_GetTask h ctx params s =
     (case hd_q h ctx (gp_ID params) s of
        (s1, Inl err) \<Rightarrow>
          if errors_Is err ErrNotFound then
            (s1, Inr (GetTaskNotFound
                   \<lparr>oe_Code = ErrorCodeTaskNotFound, oe_Message = ''task ID not found''\<rparr>))
          else (s1, Inl (WrapErrorf ''get task %s: %w'' [ArgUuid (gp_ID params)] err))
      | (s1, Inr view) \<Rightarrow>
          (case toOASTaskView view of
             Inl err \<Rightarrow> (s1, Inl err)
           | Inr dto \<Rightarrow> (s1, Inr (GetTaskResTask dto))))"

definition as_oas_handler :: "lib \<Rightarrow> ('c, 's) api_handler \<Rightarrow> ('c, 's) oas_handler" where
  "as_oas_handler L h =
     \<lparr>h_CreateTask = Handler_CreateTask L h, h_GetTask = Handler_GetTask h\<rparr>"

section \<open>errors.go\<close>

text \<open>The status, symbol and message an error is reported with.\<close>

definition classify_error :: "lib \<Rightarrow> gerr \<Rightarrow> nat \<times> error_code \<times> string" where
  "classify_error L err =
     (case errors_As is_DecodeRequestError err of
        Some _ \<Rightarrow> (400, ErrorCodeInvalidRequestBody, lib_error_text L err)
      | None \<Rightarrow>
          (case errors_As is_DecodeParamsError err of
             Some _ \<Rightarrow> (400, ErrorCodeInvalidParameter, lib_error_text L err)
           | None \<Rightarrow> (500, ErrorCodeInternalError, ''internal server error'')))"

definition ErrorHandler :: "lib \<Rightarrow> error_handler" where
  "ErrorHandler L err w =
     (case classify_error L err of
        (code, symbol, msg) \<Rightarrow>
          (let w1 = header_Set ''Content-Type'' ''application/json; charset=utf-8'' w;
               w2 = rw_WriteHeader code w1;
               e = \<lparr>oe_Code = symbol, oe_Message = msg\<rparr>;
               enc = Error_Encode e []
           in fst (rw_Write (jx_Bytes (lib_jx L) enc) w2)))"

text \<open>The server as \<open>server.Run\<close> builds it: the API handler with its error handler.\<close>

definition api_server ::
  "('c, 's) server_env \<Rightarrow> ('c, 's) api_handler \<Rightarrow> gerr + ('c, 's) server" where
  "api_server E h =
     NewServer E (as_oas_handler (se_lib E) h) [WithErrorHandler (Some (ErrorHandler (se_lib E)))]"

section \<open>The handler over its interfaces\<close>

definition command_of_request :: "bytes \<Rightarrow> create_task_request \<Rightarrow> submit_command" where
  "command_of_request payloadJSON req =
     \<lparr>sc_Handler = cr_Handler req, sc_Payload = Some payloadJSON,
      sc_IdempotencyKey = fst (OptString_Get (cr_IdempotencyKey req))\<rparr>"

text \<open>
  The two interfaces handler.go declares, as laws over the stored tasks: what a submit does to
  them, and that a read finds what is stored.
\<close>

locale api_backend =
  fixes cmd :: "'c \<Rightarrow> submit_command \<Rightarrow> ('s, task) op_res"
    and qry :: "'c \<Rightarrow> uuid \<Rightarrow> ('s, task_view) op_res"
    and rows :: "'s \<Rightarrow> stored list"
    and ok :: "'s \<Rightarrow> bool"
  assumes rows_uniq: "ok s \<Longrightarrow> uniq_rows (rows s)"
    and cmd_law: "ok s \<Longrightarrow> cmd ctx c s = (s', r) \<Longrightarrow> ok s' \<and> submit_outcome c (rows s) (rows s') r"
    and qry_frame: "ok s \<Longrightarrow> qry ctx i s = (s', rv) \<Longrightarrow> ok s' \<and> rows s' = rows s"
    and qry_found: "ok s \<Longrightarrow> qry ctx i s = (s', Inr v) \<Longrightarrow>
      \<exists>t\<in>snd ` set (rows s). tv_ID v = i \<and> t_id t = i \<and> tv_Status v = t_status t
        \<and> tv_CreatedAt v = t_createdAt t"
    and qry_missing: "ok s \<Longrightarrow> qry ctx i s = (s', Inl e) \<Longrightarrow> errors_Is e ErrNotFound \<Longrightarrow>
      x \<in> set (rows s) \<Longrightarrow> t_id (snd x) \<noteq> i"
begin

lemma create_task_submits:
  assumes "Handler_CreateTask L (NewHandler cmd qry) ctx req s = (s', r)"
  obtains (refused) err where "request_payload L req = Inl err" "s' = s" "r = Inl err"
  | (failed) b err where "request_payload L req = Inr b"
      "cmd ctx (command_of_request b req) s = (s', Inl err)" "r = Inl (Wrapf ''submit task'' err)"
  | (unmapped) b t err where "request_payload L req = Inr b"
      "cmd ctx (command_of_request b req) s = (s', Inr t)" "toOASTask t = Inl err" "r = Inl err"
  | (answered) b t dto where "request_payload L req = Inr b"
      "cmd ctx (command_of_request b req) s = (s', Inr t)" "toOASTask t = Inr dto"
      "r = Inr (CreateTaskResTask dto)"
proof (cases "request_payload L req")
  case (Inl err)
  with assms refused show ?thesis by (simp add: Handler_CreateTask_def)
next
  case (Inr b)
  obtain s1 rc where sub: "cmd ctx (command_of_request b req) s = (s1, rc)"
    by (cases "cmd ctx (command_of_request b req) s")
  have run: "Handler_CreateTask L (NewHandler cmd qry) ctx req s =
      (case rc of Inl err \<Rightarrow> (s1, Inl (Wrapf ''submit task'' err))
       | Inr t \<Rightarrow> (case toOASTask t of Inl err \<Rightarrow> (s1, Inl err)
                  | Inr dto \<Rightarrow> (s1, Inr (CreateTaskResTask dto))))"
    using Inr sub
    by (simp add: Handler_CreateTask_def NewHandler_def command_of_request_def Let_def
        case_prod_beta split: sum.split)
  show ?thesis
  proof (cases rc)
    case (Inl err)
    with run assms failed [OF Inr] sub show ?thesis by simp
  next
    case (Inr t)
    with run assms unmapped [OF \<open>request_payload L req = Inr b\<close>]
      answered [OF \<open>request_payload L req = Inr b\<close>] sub
    show ?thesis by (cases "toOASTask t") auto
  qed
qed

lemma create_task_effect:
  assumes "ok s" and "Handler_CreateTask L (NewHandler cmd qry) ctx req s = (s', r)"
  shows "ok s'"
    and "rows s' = rows s \<or> (\<exists>d. rows s' =
      rows s @ [(key_of_command (command_of_request [] req), d)] \<and> t_status d = StatusPending)"
    and "r = Inr res \<Longrightarrow> \<exists>t. res = CreateTaskResTask t \<and>
      (\<exists>d\<in>snd ` set (rows s'). t_id d = ot_ID t \<and> toOASStatus (t_status d) = Inr (ot_Status t))"
proof -
  have key: "key_of_command (command_of_request b req) = key_of_command (command_of_request [] req)"
    for b by (simp add: key_of_command_def command_of_request_def)
  have "ok s' \<and> (rows s' = rows s \<or> (\<exists>d. rows s' =
      rows s @ [(key_of_command (command_of_request [] req), d)] \<and> t_status d = StatusPending))
    \<and> (\<forall>res. r = Inr res \<longrightarrow> (\<exists>t. res = CreateTaskResTask t \<and>
      (\<exists>d\<in>snd ` set (rows s'). t_id d = ot_ID t \<and> toOASStatus (t_status d) = Inr (ot_Status t))))"
    using assms(2)
  proof (cases rule: create_task_submits)
    case refused
    with assms(1) show ?thesis by simp
  next
    case (failed b err)
    from cmd_law [OF assms(1) failed(2)] key [of b] failed(3) show ?thesis
      by (auto simp: submit_outcome_def added_def stored_from_def fresh_task_def)
  next
    case (unmapped b t err)
    from cmd_law [OF assms(1) unmapped(2)] key [of b] unmapped(4) show ?thesis
      by (auto simp: submit_outcome_def added_def stored_from_def fresh_task_def)
  next
    case (answered b t dto)
    have dto: "ot_ID dto = t_id t" "toOASStatus (t_status t) = Inr (ot_Status dto)"
      using answered(3) by (auto simp: toOASTask_def split: sum.splits)
    have "\<exists>d\<in>snd ` set (rows s'). t_id d = t_id t \<and> t_status d = t_status t"
      using cmd_law [OF assms(1) answered(2)]
      by (force simp: submit_outcome_def added_def stored_from_def fresh_task_def)
    with cmd_law [OF assms(1) answered(2)] key [of b] answered(4) dto show ?thesis
      by (auto simp: submit_outcome_def added_def stored_from_def fresh_task_def)
  qed
  then show "ok s'"
    and "rows s' = rows s \<or> (\<exists>d. rows s' =
      rows s @ [(key_of_command (command_of_request [] req), d)] \<and> t_status d = StatusPending)"
    and "r = Inr res \<Longrightarrow> \<exists>t. res = CreateTaskResTask t \<and>
      (\<exists>d\<in>snd ` set (rows s'). t_id d = ot_ID t \<and> toOASStatus (t_status d) = Inr (ot_Status t))"
    by blast+
qed

lemma create_task_key_row:
  assumes "ok s" and "Handler_CreateTask L (NewHandler cmd qry) ctx req s = (s', Inr (CreateTaskResTask t))"
    and "OptString_Get (cr_IdempotencyKey req) = (k, b)" and "k \<noteq> []"
  shows "\<exists>d. (Some k, d) \<in> set (rows s') \<and> t_id d = ot_ID t"
  using assms(2)
proof (cases rule: create_task_submits)
  case (answered b' u dto)
  have "ot_ID dto = t_id u" using answered(3) by (auto simp: toOASTask_def split: sum.splits)
  with cmd_law [OF assms(1) answered(2)] answered(4) assms(3,4) show ?thesis
    by (auto simp: submit_outcome_def added_def stored_from_def key_of_command_def
        command_of_request_def)
qed simp_all

lemma create_task_mono:
  assumes "ok s" and "Handler_CreateTask L (NewHandler cmd qry) ctx req s = (s', r)"
  shows "set (rows s) \<subseteq> set (rows s')"
  using create_task_effect(2) [OF assms] by auto

lemma get_task_effect:
  assumes "ok s" and "Handler_GetTask (NewHandler cmd qry) ctx params s = (s', r)"
  shows "ok s'" and "rows s' = rows s"
    and "r = Inr (GetTaskResTask t) \<Longrightarrow> ot_ID t = gp_ID params \<and>
      (\<exists>d\<in>snd ` set (rows s). t_id d = gp_ID params \<and> toOASStatus (t_status d) = Inr (ot_Status t)
         \<and> t_createdAt d = ot_CreatedAt t)"
    and "r = Inr (GetTaskNotFound e) \<Longrightarrow> x \<in> set (rows s) \<Longrightarrow> t_id (snd x) \<noteq> gp_ID params"
    and "r = Inr res \<Longrightarrow> (\<exists>t. res = GetTaskResTask t) \<or>
      res = GetTaskNotFound \<lparr>oe_Code = ErrorCodeTaskNotFound, oe_Message = ''task ID not found''\<rparr>"
proof -
  obtain s1 rv where q: "qry ctx (gp_ID params) s = (s1, rv)"
    by (cases "qry ctx (gp_ID params) s")
  have s1: "s' = s1"
    using assms(2) q
    by (auto simp: Handler_GetTask_def NewHandler_def split: sum.splits if_splits)
  then show "ok s'" "rows s' = rows s" using qry_frame [OF assms(1) q] by simp_all
  show "ot_ID t = gp_ID params \<and>
      (\<exists>d\<in>snd ` set (rows s). t_id d = gp_ID params \<and> toOASStatus (t_status d) = Inr (ot_Status t)
         \<and> t_createdAt d = ot_CreatedAt t)" if res: "r = Inr (GetTaskResTask t)"
  proof -
    obtain v where v: "rv = Inr v" "toOASTaskView v = Inr t"
      using assms(2) q res
      by (auto simp: Handler_GetTask_def NewHandler_def split: sum.splits if_splits)
    from qry_found [OF assms(1) q [unfolded v(1)]] v(2) show ?thesis
      by (auto simp: toOASTaskView_def split: sum.splits)
  qed
  show "t_id (snd x) \<noteq> gp_ID params" if res: "r = Inr (GetTaskNotFound e)" and x: "x \<in> set (rows s)"
  proof -
    obtain err where "rv = Inl err" "errors_Is err ErrNotFound"
      using assms(2) q res
      by (auto simp: Handler_GetTask_def NewHandler_def split: sum.splits if_splits)
    with qry_missing [OF assms(1) _ _ x] q show ?thesis by blast
  qed
  show "(\<exists>t. res = GetTaskResTask t) \<or>
      res = GetTaskNotFound \<lparr>oe_Code = ErrorCodeTaskNotFound, oe_Message = ''task ID not found''\<rparr>"
    if "r = Inr res"
    using assms(2) q that
    by (auto simp: Handler_GetTask_def NewHandler_def split: sum.splits if_splits)
qed

end

end
