(* ===== verification/Oas_Codec_Props.thy ===== *)
theory Oas_Codec_Props
  imports Oas_Json Oas_Validate
begin

text \<open>
  What the JSON codecs guarantee: which required members a decoder misses, and that each type's
  decoder reads what its encoder wrote, given that the JSON library does so for the value
  written.
\<close>

section \<open>Required members\<close>

definition missing_required :: "string list \<Rightarrow> string list \<Rightarrow> gerr option" where
  "missing_required names present =
     (let missing = filter (\<lambda>n. n \<notin> set present) names
      in if missing = [] then None
         else Some (ValidateError (map (\<lambda>n. (n, Sentinel ErrFieldRequired)) missing)))"

lemma obj_members_bits:
  assumes step: "\<And>k n s b s1 b1. f k n (s, b) = ((s1, b1), None) \<Longrightarrow> b1 = b OR g k"
  shows "obj_members J f ms stop (s, b) = ((s1, b1), None) \<Longrightarrow>
     bit (b1 :: 8 word) i \<longleftrightarrow> bit b i \<or> (\<exists>k\<in>set (map fst ms). bit (g k) i)"
proof (induction ms arbitrary: s b)
  case Nil
  then show ?case by simp
next
  case (Cons m ms)
  obtain k n where m: "m = (k, n)" by (cases m)
  obtain s2 b2 where f: "f k n (s, b) = ((s2, b2), None)"
    and rest: "obj_members J f ms stop (s2, b2) = ((s1, b1), None)"
    using Cons.prems by (auto simp: m split: prod.splits option.splits)
  from Cons.IH [OF rest] step [OF f] show ?case
    by (auto simp: m bit_or_iff)
qed

definition request_bit :: "bytes \<Rightarrow> 8 word" where
  "request_bit k = (if k = ''handler'' then 1 else 0)"

definition error_bit :: "bytes \<Rightarrow> 8 word" where
  "error_bit k = (if k = ''code'' then 1 else if k = ''message'' then 2 else 0)"

definition task_bit :: "bytes \<Rightarrow> 8 word" where
  "task_bit k =
     (if k = ''id'' then 1 else if k = ''status'' then 2 else if k = ''created_at'' then 4 else 0)"

lemma request_member_bit:
  "CreateTaskRequest_member J k d (s, b) = ((s1, b1), None) \<Longrightarrow> b1 = b OR request_bit k"
  by (auto simp: CreateTaskRequest_member_def request_bit_def Let_def split: if_splits prod.splits)

lemma error_member_bit: "Error_member k d (s, b) = ((s1, b1), None) \<Longrightarrow> b1 = b OR error_bit k"
  by (auto simp: Error_member_def error_bit_def split: if_splits prod.splits)

lemma task_member_bit: "Task_member k d (s, b) = ((s1, b1), None) \<Longrightarrow> b1 = b OR task_bit k"
  by (auto simp: Task_member_def task_bit_def split: if_splits prod.splits)

text \<open>A bit of the set stands for the presence of the member that has its position.\<close>

lemma check_required_names:
  assumes "\<And>k. k < length names \<Longrightarrow> bit msk k \<Longrightarrow> bit b k \<longleftrightarrow> names ! k \<in> set present"
    and "\<And>k. bit msk k \<Longrightarrow> k < length names" and "length names \<le> 8"
    and "req = map (\<lambda>k. names ! k) (filter (bit msk) [0..<8])"
  shows "check_required names msk b = missing_required req present"
proof -
  have "map (\<lambda>k. (field_name names k, Sentinel ErrFieldRequired))
        (filter (\<lambda>k. bit msk k \<and> \<not> bit b k) [0..<8]) =
      map (\<lambda>n. (n, Sentinel ErrFieldRequired))
        (map (\<lambda>k. names ! k) (filter (\<lambda>k. bit msk k \<and> \<not> bit b k) [0..<8]))"
    using assms(2) by (auto simp: field_name_def)
  moreover have "map (\<lambda>k. names ! k) (filter (\<lambda>k. bit msk k \<and> \<not> bit b k) [0..<8]) =
      filter (\<lambda>n. n \<notin> set present) req"
    unfolding assms(4) filter_map filter_filter
    by (intro arg_cong [where f = "map _"] filter_cong) (use assms(1,2) in auto)
  ultimately have "required_failures names 0 [b] [msk] =
      map (\<lambda>n. (n, Sentinel ErrFieldRequired)) (filter (\<lambda>n. n \<notin> set present) req)"
    by (simp only: required_failures_single)
  then show ?thesis
    by (simp only: check_required_def missing_required_def Let_def) simp
qed

lemma upt8: "[0..<8] = [0, 1, 2, 3, 4, 5, 6, 7::nat]"
  by (simp add: upt_rec)

declare bit_numeral_word_iff [simp del]

lemma small_bits:
  "bit (1 :: 8 word) i \<longleftrightarrow> i = 0" "bit (2 :: 8 word) i \<longleftrightarrow> i = 1" "bit (4 :: 8 word) i \<longleftrightarrow> i = 2"
  "bit (3 :: 8 word) i \<longleftrightarrow> i = 0 \<or> i = 1" "bit (7 :: 8 word) i \<longleftrightarrow> i = 0 \<or> i = 1 \<or> i = 2"
proof -
  have *: "bit (push_bit k (1 :: 8 word)) i \<longleftrightarrow> i = k" if "k < 8" for k
    using that by (auto simp: bit_push_bit_iff bit_1_iff simp del: push_bit_of_1)
  show "bit (1 :: 8 word) i \<longleftrightarrow> i = 0" by (simp add: bit_1_iff)
  have e: "(2 :: 8 word) = push_bit 1 1" "(4 :: 8 word) = push_bit 2 1" 
    "(3 :: 8 word) = push_bit 0 1 OR push_bit 1 1"
    "(7 :: 8 word) = push_bit 0 1 OR push_bit 1 1 OR push_bit 2 1" by simp_all
  show "bit (2 :: 8 word) i \<longleftrightarrow> i = 1" "bit (4 :: 8 word) i \<longleftrightarrow> i = 2"
    "bit (3 :: 8 word) i \<longleftrightarrow> i = 0 \<or> i = 1" "bit (7 :: 8 word) i \<longleftrightarrow> i = 0 \<or> i = 1 \<or> i = 2"
    unfolding e bit_or_iff using *[of 0] *[of 1] *[of 2] by simp_all
qed

lemma error_bit_iff:
  "bit (error_bit k) i \<longleftrightarrow> k = ''code'' \<and> i = 0 \<or> k = ''message'' \<and> i = 1"
  by (simp add: error_bit_def small_bits)

lemma task_bit_iff:
  "bit (task_bit k) i \<longleftrightarrow>
     k = ''id'' \<and> i = 0 \<or> k = ''status'' \<and> i = 1 \<or> k = ''created_at'' \<and> i = 2"
  by (simp add: task_bit_def small_bits)

lemma request_missing:
  assumes "jx_ObjBytes J d (CreateTaskRequest_member J) (r, 0) = ((s1, b), None)"
  shows "check_required jsonFieldsNameOfCreateTaskRequest 0b00000001 b =
    missing_required [''handler''] (map fst (nd_Obj d))"
proof (rule check_required_names)
  let ?P = "set (map fst (nd_Obj d))"
  have "bit b i \<longleftrightarrow> (\<exists>k\<in>?P. bit (request_bit k) i)" for i
    using obj_members_bits [OF request_member_bit assms[unfolded jx_ObjBytes_def], where i = i] by simp
  then have bits: "bit b i \<longleftrightarrow> i = 0 \<and> ''handler'' \<in> ?P" for i
    by (auto simp: request_bit_def small_bits simp del: set_map)
  show "bit b k = (jsonFieldsNameOfCreateTaskRequest ! k \<in> ?P)" if "bit (1 :: 8 word) k" for k
    using that by (simp add: bits small_bits jsonFieldsNameOfCreateTaskRequest_def)
qed (simp_all add: small_bits jsonFieldsNameOfCreateTaskRequest_def upt8)

lemma error_missing:
  assumes "jx_ObjBytes J d Error_member (r, 0) = ((s1, b), None)"
  shows "check_required jsonFieldsNameOfError 0b00000011 b =
    missing_required [''code'', ''message''] (map fst (nd_Obj d))"
proof (rule check_required_names)
  let ?P = "set (map fst (nd_Obj d))"
  have "bit b i \<longleftrightarrow> (\<exists>k\<in>?P. bit (error_bit k) i)" for i
    using obj_members_bits [OF error_member_bit assms[unfolded jx_ObjBytes_def], where i = i] by simp
  then have bits: "bit b i \<longleftrightarrow> i = 0 \<and> ''code'' \<in> ?P \<or> i = 1 \<and> ''message'' \<in> ?P" for i
    unfolding error_bit_iff by blast
  show "bit b k = (jsonFieldsNameOfError ! k \<in> ?P)" if "bit (3 :: 8 word) k" for k
    using that by (auto simp: bits small_bits jsonFieldsNameOfError_def simp del: set_map)
qed (auto simp: small_bits jsonFieldsNameOfError_def upt8)

lemma task_missing:
  assumes "jx_ObjBytes J d Task_member (r, 0) = ((s1, b), None)"
  shows "check_required jsonFieldsNameOfTask 0b00000111 b =
    missing_required [''id'', ''status'', ''created_at''] (map fst (nd_Obj d))"
proof (rule check_required_names)
  let ?P = "set (map fst (nd_Obj d))"
  have "bit b i \<longleftrightarrow> (\<exists>k\<in>?P. bit (task_bit k) i)" for i
    using obj_members_bits [OF task_member_bit assms[unfolded jx_ObjBytes_def], where i = i] by simp
  then have bits: "bit b i \<longleftrightarrow> i = 0 \<and> ''id'' \<in> ?P \<or> i = 1 \<and> ''status'' \<in> ?P
      \<or> i = 2 \<and> ''created_at'' \<in> ?P" for i
    unfolding task_bit_iff by blast
  show "bit b k = (jsonFieldsNameOfTask ! k \<in> ?P)" if "bit (7 :: 8 word) k" for k
    using that by (auto simp: bits small_bits jsonFieldsNameOfTask_def simp del: set_map)
qed (auto simp: small_bits jsonFieldsNameOfTask_def upt8)

declare bit_numeral_word_iff [simp]

text \<open>
  C13. What a decoder answers about missing members: when the object itself and its members
  decode, the error is nil if every required member is present, and otherwise lists exactly the
  absent required ones, in the order of the fields; unknown members and repetitions do not
  matter. An error of the object takes precedence.
\<close>

theorem decoders_report_missing_fields:
  "snd (CreateTaskRequest_Decode J d (Some r)) =
     (case snd (jx_ObjBytes J d (CreateTaskRequest_member J) (r, 0)) of
        Some err \<Rightarrow> Some (Wrapf ''decode CreateTaskRequest'' err)
      | None \<Rightarrow> missing_required [''handler''] (map fst (nd_Obj d)))
   \<and> snd (Error_Decode J d (Some e)) =
     (case snd (jx_ObjBytes J d Error_member (e, 0)) of
        Some err \<Rightarrow> Some (Wrapf ''decode Error'' err)
      | None \<Rightarrow> missing_required [''code'', ''message''] (map fst (nd_Obj d)))
   \<and> snd (Task_Decode J d (Some t)) =
     (case snd (jx_ObjBytes J d Task_member (t, 0)) of
        Some err \<Rightarrow> Some (Wrapf ''decode Task'' err)
      | None \<Rightarrow> missing_required [''id'', ''status'', ''created_at''] (map fst (nd_Obj d)))"
  by (intro conjI)
    (simp_all add: CreateTaskRequest_Decode_def Error_Decode_def Task_Decode_def request_missing
      error_missing task_missing split: prod.splits option.splits)

section \<open>Round trips\<close>

text \<open>The value an \<open>Encode\<close> writes.\<close>

definition payload_val :: "jx_env \<Rightarrow> payload \<Rightarrow> jx_val" where
  "payload_val J s = VObj (map (\<lambda>(k, elem). (k, VRaw elem)) (go_range J (payload_init s)))"

definition request_val :: "jx_env \<Rightarrow> create_task_request \<Rightarrow> jx_val" where
  "request_val J r =
     VObj ([(''handler'', VStr (cr_Handler r))] @
       (if op_Set (cr_Payload r) then [(''payload'', payload_val J (op_Value (cr_Payload r)))] else []) @
       (if os_Set (cr_IdempotencyKey r)
        then [(''idempotency_key'', VStr (os_Value (cr_IdempotencyKey r)))] else []))"

definition error_val :: "oas_error \<Rightarrow> jx_val" where
  "error_val e = VObj [(''code'', VStr (oe_Code e)), (''message'', VStr (oe_Message e))]"

definition task_val :: "oas_task \<Rightarrow> jx_val" where
  "task_val t =
     VObj [(''id'', VUUID (ot_ID t)), (''status'', VStr (ot_Status t)),
           (''created_at'', VTime (ot_CreatedAt t))]"

text \<open>
  A payload the encoder can write: every member has a value, the Go map has each key once, and
  iterating it visits every entry once.
\<close>

definition payload_ok :: "jx_env \<Rightarrow> payload \<Rightarrow> bool" where
  "payload_ok J s \<longleftrightarrow>
     distinct (map fst (payload_init s)) \<and> list_all (\<lambda>(k, elem). elem \<noteq> []) (payload_init s) \<and>
     distinct (go_range J (payload_init s)) \<and>
     set (go_range J (payload_init s)) = set (payload_init s)"

lemma payload_fold:
  "list_all (\<lambda>(k, elem). elem \<noteq> []) m \<Longrightarrow>
   fold (\<lambda>(k, elem) e. let e1 = e @ [JxFieldStart k]
                       in if length elem \<noteq> 0 then e1 @ [JxRaw elem] else e1) m e =
   e @ emit_members (map (\<lambda>(k, elem). (k, VRaw elem)) m)"
  by (induction m arbitrary: e) (auto simp: Let_def)

lemma Payload_Encode_emit:
  "payload_ok J s \<Longrightarrow> Payload_Encode J s e = e @ emit (payload_val J s)"
proof -
  assume ok: "payload_ok J s"
  then have "list_all (\<lambda>(k, elem). elem \<noteq> []) (go_range J (payload_init s))"
    by (simp add: payload_ok_def list_all_iff)
  then show ?thesis
    by (simp add: Payload_Encode_def Payload_encodeFields_def payload_val_def
        payload_fold [simplified] flip: payload_init_def)
qed

lemma CreateTaskRequest_Encode_emit:
  "(op_Set (cr_Payload r) \<Longrightarrow> payload_ok J (op_Value (cr_Payload r))) \<Longrightarrow>
   CreateTaskRequest_Encode J r e = e @ emit (request_val J r)"
  by (simp add: CreateTaskRequest_Encode_def CreateTaskRequest_encodeFields_def request_val_def
      OptPayload_Encode_def OptString_Encode_def Payload_Encode_emit Let_def)

lemma Error_Encode_emit: "Error_Encode s e = e @ emit (error_val s)"
  by (simp add: Error_Encode_def Error_encodeFields_def ErrorCode_Encode_def error_val_def)

lemma Task_Encode_emit: "Task_Encode s e = e @ emit (task_val s)"
  by (simp add: Task_Encode_def Task_encodeFields_def TaskStatus_Encode_def task_val_def)

text \<open>Decoding a node that presents the value.\<close>

lemma payload_members:
  "reads_members tm (map (\<lambda>(k, elem). (k, VRaw elem)) m) ns \<Longrightarrow>
   distinct (map fst (m0 @ m)) \<Longrightarrow>
   obj_members J Payload_member ns None m0 = (m0 @ m, None)"
proof (induction m arbitrary: ns m0)
  case Nil
  then show ?case by simp
next
  case (Cons x m)
  obtain k v where x: "x = (k, v)" by (cases x)
  obtain n ns' where ns: "ns = (k, n) # ns'" "nd_Raw n = (v, None)"
    "reads_members tm (map (\<lambda>(k, elem). (k, VRaw elem)) m) ns'"
    using Cons.prems(1) by (auto simp: x split: list.splits)
  have "map_assign k v m0 = m0 @ [(k, v)]"
    by (rule map_assign_fresh) (use Cons.prems(2) in \<open>auto simp: x\<close>)
  with ns Cons.IH [OF ns(3), of "m0 @ [(k, v)]"] Cons.prems(2) show ?case
    by (simp add: x Payload_member_def)
qed

lemma Payload_Decode_reads:
  assumes "payload_ok J s" and "reads tm (payload_val J s) n"
  shows "Payload_Decode J n (Some (Some [])) =
    (Some (Some (go_range J (payload_init s))), None)"
proof -
  have "distinct (map fst (go_range J (payload_init s)))"
    using assms(1) by (auto simp: payload_ok_def distinct_map intro: inj_on_subset)
  with payload_members [of tm "go_range J (payload_init s)" "nd_Obj n" "[]" J] assms(2)
  show ?thesis
    by (simp add: Payload_Decode_def jx_ObjBytes_def payload_val_def payload_init_def)
qed

text \<open>Two requests that no accessor tells apart, a payload being a map.\<close>

definition same_request :: "create_task_request \<Rightarrow> create_task_request \<Rightarrow> bool" where
  "same_request a b \<longleftrightarrow>
     cr_Handler a = cr_Handler b \<and>
     OptString_Get (cr_IdempotencyKey a) = OptString_Get (cr_IdempotencyKey b) \<and>
     snd (OptPayload_Get (cr_Payload a)) = snd (OptPayload_Get (cr_Payload b)) \<and>
     map_of (payload_init (fst (OptPayload_Get (cr_Payload a)))) =
     map_of (payload_init (fst (OptPayload_Get (cr_Payload b))))"

lemma map_of_same_set:
  assumes "distinct (map fst xs)" and "set ys = set xs" and "distinct ys"
  shows "map_of ys = map_of xs"
proof -
  have "distinct (map fst ys)"
    using assms by (auto simp: distinct_map intro: inj_on_subset)
  then show ?thesis using assms map_of_inject_set by blast
qed

definition read_request :: "jx_env \<Rightarrow> create_task_request \<Rightarrow> create_task_request" where
  "read_request J r =
     \<lparr>cr_Handler = cr_Handler r,
      cr_Payload =
        (if op_Set (cr_Payload r)
         then NewOptPayload (Some (go_range J (payload_init (op_Value (cr_Payload r)))))
         else \<lparr>op_Value = None, op_Set = False\<rparr>),
      cr_IdempotencyKey =
        (if os_Set (cr_IdempotencyKey r) then NewOptString (os_Value (cr_IdempotencyKey r))
         else \<lparr>os_Value = [], os_Set = False\<rparr>)\<rparr>"

lemma same_read_request:
  assumes "op_Set (cr_Payload r) \<Longrightarrow> payload_ok J (op_Value (cr_Payload r))"
  shows "same_request (read_request J r) r"
proof (cases "op_Set (cr_Payload r)")
  case True
  with assms have "payload_ok J (op_Value (cr_Payload r))" by simp
  then have "map_of (go_range J (payload_init (op_Value (cr_Payload r)))) =
      map_of (payload_init (op_Value (cr_Payload r)))"
    by (intro map_of_same_set) (simp_all add: payload_ok_def)
  with True show ?thesis
    by (simp add: same_request_def read_request_def NewOptPayload_def OptPayload_Get_def
        OptString_Get_def NewOptString_def payload_init_def)
next
  case False
  then show ?thesis
    by (simp add: same_request_def read_request_def OptPayload_Get_def OptString_Get_def
        NewOptString_def)
qed

lemma request_decode_reads:
  assumes "op_Set (cr_Payload r) \<Longrightarrow> payload_ok J (op_Value (cr_Payload r))"
    and "reads tm (request_val J r) n"
  shows "CreateTaskRequest_Decode J n (Some zero_create_task_request) =
    (Some (read_request J r), None)"
proof -
  have keys: "''handler'' \<in> set (map fst (nd_Obj n))"
    using assms(2) by (auto simp: request_val_def split: list.splits if_splits)
  have payload: "OptPayload_Decode J m (Some \<lparr>op_Value = None, op_Set = False\<rparr>) =
      (Some (NewOptPayload (Some (go_range J (payload_init (op_Value (cr_Payload r)))))), None)"
    if "op_Set (cr_Payload r)" and "reads tm (payload_val J (op_Value (cr_Payload r))) m" for m
    using Payload_Decode_reads [OF assms(1) [OF that(1)] that(2)]
    by (simp add: OptPayload_Decode_def NewOptPayload_def)
  have "\<exists>b. jx_ObjBytes J n (CreateTaskRequest_member J) (zero_create_task_request, 0) =
      ((read_request J r, b), None)"
    using assms(2) payload
    by (auto simp: request_val_def jx_ObjBytes_def CreateTaskRequest_member_def Let_def
        OptString_Decode_def OptPayload_Reset_def OptString_Reset_def NewOptString_def
        zero_create_task_request_def read_request_def split: list.splits if_splits)
  then obtain b where b: "jx_ObjBytes J n (CreateTaskRequest_member J)
      (zero_create_task_request, 0) = ((read_request J r, b), None)"
    by blast
  from request_missing [OF b] keys show ?thesis
    by (simp add: CreateTaskRequest_Decode_def b missing_required_def)
qed

lemma error_decode_reads:
  assumes "reads tm (error_val e) n"
  shows "Error_Decode J n (Some z) = (Some e, None)"
proof -
  have keys: "map fst (nd_Obj n) = [''code'', ''message'']"
    using assms by (auto simp: error_val_def split: list.splits)
  have "\<exists>b. jx_ObjBytes J n Error_member (z, 0) = ((e, b), None)"
    using assms
    by (auto simp: error_val_def jx_ObjBytes_def Error_member_def Let_def ErrorCode_Decode_def
        split: list.splits)
  then obtain b where b: "jx_ObjBytes J n Error_member (z, 0) = ((e, b), None)" by blast
  from error_missing [OF b] keys show ?thesis
    by (simp add: Error_Decode_def b missing_required_def)
qed

lemma task_decode_reads:
  assumes "reads tm (task_val t) n"
  shows "Task_Decode J n (Some z) = (Some (t\<lparr>ot_CreatedAt := tm (ot_CreatedAt t)\<rparr>), None)"
proof -
  have keys: "map fst (nd_Obj n) = [''id'', ''status'', ''created_at'']"
    using assms by (auto simp: task_val_def split: list.splits)
  have "\<exists>b. jx_ObjBytes J n Task_member (z, 0) =
      ((t\<lparr>ot_CreatedAt := tm (ot_CreatedAt t)\<rparr>, b), None)"
    using assms
    by (auto simp: task_val_def jx_ObjBytes_def Task_member_def Let_def TaskStatus_Decode_def
        split: list.splits)
  then obtain b where b: "jx_ObjBytes J n Task_member (z, 0) =
      ((t\<lparr>ot_CreatedAt := tm (ot_CreatedAt t)\<rparr>, b), None)" by blast
  from task_missing [OF b] keys show ?thesis
    by (simp add: Task_Decode_def b missing_required_def)
qed

text \<open>
  C14. A request survives the wire: given that the JSON library reads back what it wrote for
  this request, unmarshalling the marshalled bytes succeeds and gives a request no accessor tells
  from the original, whatever the order in which the payload map was iterated.
\<close>

theorem request_roundtrip:
  assumes "op_Set (cr_Payload r) \<Longrightarrow> payload_ok J (op_Value (cr_Payload r))"
    and "jx_reads_back J tm (request_val J r)"
  shows "\<exists>data r'. CreateTaskRequest_MarshalJSON J r = Inr data
    \<and> CreateTaskRequest_UnmarshalJSON J data (Some zero_create_task_request) = (Some r', None)
    \<and> same_request r' r"
proof -
  have enc: "CreateTaskRequest_Encode J r [] = emit (request_val J r)"
    using CreateTaskRequest_Encode_emit [of r J "[]"] assms(1) by simp
  moreover have "CreateTaskRequest_Decode J
      (doc_root (jx_DecodeBytes J (jx_Bytes J (emit (request_val J r))))) (Some zero_create_task_request) =
      (Some (read_request J r), None)"
    by (rule request_decode_reads [where tm = tm, OF assms(1)])
      (use assms(2) in \<open>simp_all add: jx_reads_back_def Let_def\<close>)
  ultimately show ?thesis
    using same_read_request [OF assms(1)]
    by (simp add: CreateTaskRequest_MarshalJSON_def CreateTaskRequest_UnmarshalJSON_def
        marshal_def unmarshal_def)
qed

definition demo_request :: create_task_request where
  "demo_request =
     \<lparr>cr_Handler = ''echo'',
      cr_Payload = \<lparr>op_Value = Some [(''a'', ''1''), (''b'', ''[2]'')], op_Set = True\<rparr>,
      cr_IdempotencyKey = \<lparr>os_Value = ''k'', os_Set = True\<rparr>\<rparr>"

definition demo_request_val :: jx_val where
  "demo_request_val =
     VObj [(''handler'', VStr ''echo''),
           (''payload'', VObj [(''b'', VRaw ''[2]''), (''a'', VRaw ''1'')]),
           (''idempotency_key'', VStr ''k'')]"

lemma demo_request_val [simp]: "request_val (echo_jx tm v) demo_request = demo_request_val"
  by (simp add: request_val_def demo_request_def demo_request_val_def payload_val_def echo_jx_def
      payload_init_def)

theorem request_roundtrip_witness:
  "\<exists>data r'. CreateTaskRequest_MarshalJSON (echo_jx id demo_request_val) demo_request = Inr data
    \<and> CreateTaskRequest_UnmarshalJSON (echo_jx id demo_request_val) data
        (Some zero_create_task_request) = (Some r', None)
    \<and> same_request r' demo_request"
proof (rule request_roundtrip [where tm = id])
  show "payload_ok (echo_jx id demo_request_val) (op_Value (cr_Payload demo_request))"
    by (simp add: payload_ok_def demo_request_def echo_jx_def payload_init_def insert_commute)
qed simp

text \<open>
  C15. Responses survive the wire: given that the JSON library reads back what it wrote, a task
  comes back with its id and status and the creation time the format keeps, and an error comes
  back unchanged, as itself and through each of its four alias types, whatever the receiver held.
\<close>

theorem response_roundtrip:
  assumes "jx_reads_back J tm (task_val t)" and "jx_reads_back J tm (error_val e)"
  shows "\<exists>dt de. Task_MarshalJSON J t = Inr dt \<and> Error_MarshalJSON J e = Inr de
    \<and> Task_UnmarshalJSON J dt (Some z) = (Some (t\<lparr>ot_CreatedAt := tm (ot_CreatedAt t)\<rparr>), None)
    \<and> Error_UnmarshalJSON J de (Some z') = (Some e, None)
    \<and> CreateTaskBadRequest_MarshalJSON J e = Inr de
    \<and> CreateTaskBadRequest_UnmarshalJSON J de (Some z') = (Some e, None)
    \<and> CreateTaskInternalServerError_MarshalJSON J e = Inr de
    \<and> CreateTaskInternalServerError_UnmarshalJSON J de (Some z') = (Some e, None)
    \<and> GetTaskNotFound_MarshalJSON J e = Inr de
    \<and> GetTaskNotFound_UnmarshalJSON J de (Some z') = (Some e, None)
    \<and> GetTaskInternalServerError_MarshalJSON J e = Inr de
    \<and> GetTaskInternalServerError_UnmarshalJSON J de (Some z') = (Some e, None)"
proof -
  have "reads tm (task_val t) (doc_root (jx_DecodeBytes J (jx_Bytes J (emit (task_val t)))))"
    and "reads tm (error_val e) (doc_root (jx_DecodeBytes J (jx_Bytes J (emit (error_val e)))))"
    using assms by (simp_all add: jx_reads_back_def Let_def)
  note reads = task_decode_reads [OF this(1)] error_decode_reads [OF this(2)]
  show ?thesis
    by (simp add: marshal_def unmarshal_def Task_Encode_emit Error_Encode_emit reads
        alias_Decode_def the_rcv_def
        Task_MarshalJSON_def Error_MarshalJSON_def Task_UnmarshalJSON_def Error_UnmarshalJSON_def
        CreateTaskBadRequest_MarshalJSON_def CreateTaskBadRequest_UnmarshalJSON_def
        CreateTaskBadRequest_Encode_def CreateTaskBadRequest_Decode_def
        CreateTaskInternalServerError_MarshalJSON_def
        CreateTaskInternalServerError_UnmarshalJSON_def
        CreateTaskInternalServerError_Encode_def CreateTaskInternalServerError_Decode_def
        GetTaskNotFound_MarshalJSON_def GetTaskNotFound_UnmarshalJSON_def
        GetTaskNotFound_Encode_def GetTaskNotFound_Decode_def
        GetTaskInternalServerError_MarshalJSON_def GetTaskInternalServerError_UnmarshalJSON_def
        GetTaskInternalServerError_Encode_def GetTaskInternalServerError_Decode_def)
qed

text \<open>A codec that reads back two values, told apart by the calls that wrote them.\<close>

definition echo2_jx :: "(gotime \<Rightarrow> gotime) \<Rightarrow> jx_val \<Rightarrow> jx_val \<Rightarrow> jx_env" where
  "echo2_jx tm v w =
     \<lparr>jx_DecodeBytes = (\<lambda>b. \<lparr>doc_root = node_of tm (if b = ''v'' then v else w),
                             doc_rest = Some (Sentinel ErrEOF)\<rparr>),
      jx_Bytes = (\<lambda>e. if e = emit v then ''v'' else ''w''),
      jx_callback = Wrapf ''callback'', go_range = rev\<rparr>"

lemma echo2_jx_reads_back:
  "jx_reads_back (echo2_jx tm v w) tm v"
  "emit v \<noteq> emit w \<Longrightarrow> jx_reads_back (echo2_jx tm v w) tm w"
  by (auto simp: jx_reads_back_def echo2_jx_def Let_def reads_node_of)

definition demo_task :: oas_task where
  "demo_task =
     \<lparr>ot_ID = 7, ot_Status = ''pending'',
      ot_CreatedAt = \<lparr>wall = 5, mono = None, zone = ''UTC''\<rparr>\<rparr>"

definition demo_error :: oas_error where
  "demo_error = \<lparr>oe_Code = ErrorCodeTaskNotFound, oe_Message = ''task ID not found''\<rparr>"

theorem response_roundtrip_witness:
  "\<exists>dt. Task_MarshalJSON (echo2_jx id (task_val demo_task) (error_val demo_error)) demo_task = Inr dt
    \<and> Task_UnmarshalJSON (echo2_jx id (task_val demo_task) (error_val demo_error)) dt
        (Some zero_oas_task) = (Some demo_task, None)"
proof -
  let ?J = "echo2_jx id (task_val demo_task) (error_val demo_error)"
  have "jx_reads_back ?J id (task_val demo_task)" "jx_reads_back ?J id (error_val demo_error)"
    by (auto simp: echo2_jx_reads_back task_val_def error_val_def)
  from response_roundtrip [OF this, of zero_oas_task zero_oas_error] show ?thesis by auto
qed

end
