(* ===== verification/Api_Props.thy ===== *)
theory Api_Props
  imports Api_Handler Oas_Codec_Props
begin

text \<open>
  Properties of the HTTP front end that hold for every backend: which statuses and bodies
  requests are answered with, what a decoded request satisfies, and what the telemetry reports.
\<close>

section \<open>Status mapping\<close>

text \<open>
  The status mapping is a bijection between the domain's vocabulary and the contract's: it is
  defined exactly on the five domain statuses, its results pass the contract's validation, no two
  statuses share a result, and every contract status is one; both response mappers keep id and
  creation time and fail exactly on a status outside the vocabulary.
\<close>

lemma status_mapping_bijective:
  "(\<exists>o'. toOASStatus s = Inr o') = (s \<in> set domain_statuses)
   \<and> (toOASStatus s = Inr o1 \<and> toOASStatus s' = Inr o1 \<longrightarrow> s = s' \<and> TaskStatus_Validate o1 = None)
   \<and> (TaskStatus_Validate o2 = None \<longrightarrow> (\<exists>s\<in>set domain_statuses. toOASStatus s = Inr o2))
   \<and> (case toOASTask t of
        Inl _ \<Rightarrow> t_status t \<notin> set domain_statuses
      | Inr d \<Rightarrow> t_status t \<in> set domain_statuses \<and> ot_ID d = t_id t \<and> ot_CreatedAt d = t_createdAt t
          \<and> toOASStatus (t_status t) = Inr (ot_Status d))
   \<and> toOASTaskView \<lparr>tv_ID = t_id t, tv_Status = t_status t, tv_Handler = t_handler t,
        tv_CreatedAt = t_createdAt t\<rparr> = toOASTask t"
proof (intro conjI)
  show "(\<exists>o'. toOASStatus s = Inr o') = (s \<in> set domain_statuses)" by (rule toOASStatus_ok)
  show "toOASStatus s = Inr o1 \<and> toOASStatus s' = Inr o1 \<longrightarrow> s = s' \<and> TaskStatus_Validate o1 = None"
    by (auto simp: toOASStatus_def status_defs oas_status_defs TaskStatus_Validate_def
        split: if_splits)
  show "TaskStatus_Validate o2 = None \<longrightarrow> (\<exists>s\<in>set domain_statuses. toOASStatus s = Inr o2)"
    by (simp add: TaskStatus_Validate_ok TaskStatus_AllValues_def domain_statuses_def)
      (auto simp: toOASStatus_def status_defs)
  show "case toOASTask t of Inl _ \<Rightarrow> t_status t \<notin> set domain_statuses
      | Inr d \<Rightarrow> t_status t \<in> set domain_statuses \<and> ot_ID d = t_id t \<and> ot_CreatedAt d = t_createdAt t
          \<and> toOASStatus (t_status t) = Inr (ot_Status d)"
    using toOASStatus_ok [of "t_status t"]
    by (auto simp: toOASTask_def split: sum.splits)
qed (simp add: toOASTask_def toOASTaskView_def split: sum.split)

lemma status_mapping_bijective_example:
  "toOASStatus ''canceled'' = Inr ''cancelled'' \<and> TaskStatus_Validate ''cancelled'' = None"
proof -
  have *: "toOASStatus ''canceled'' = Inr ''cancelled''"
    by (simp add: toOASStatus_def status_defs oas_status_defs)
  then show ?thesis
    using status_mapping_bijective [of "''canceled''" "''cancelled''" "''canceled''"] by blast
qed

section \<open>Decoded requests\<close>

text \<open>
  C18. A request body that decodes without an error has the contract's shape: it came as
  application/json with a body, followed by nothing, its handler has between 1 and 128 characters,
  and so has its idempotency key if it has one.
\<close>

lemma Decode_Some: "\<exists>q. fst (CreateTaskRequest_Decode J d (Some z)) = Some q"
  by (simp add: CreateTaskRequest_Decode_def)

theorem decoded_request_valid:
  assumes "decodeCreateTaskRequest L r = (req, rawBody, close, None)"
    and "counts_length cnt (lib_validate L)"
  shows "\<exists>q. req = Some q \<and> lib_mime L (rq_Header r ''Content-Type'') = Inr ''application/json''
    \<and> rawBody = rq_Body r \<and> rq_Body r \<noteq> [] \<and> close = None
    \<and> CreateTaskRequest_UnmarshalJSON (lib_jx L) (rq_Body r) (Some zero_create_task_request) =
        (Some q, None)
    \<and> doc_rest (jx_DecodeBytes (lib_jx L) (rq_Body r)) = Some (Sentinel ErrEOF)
    \<and> 1 \<le> cnt (cr_Handler q) \<and> cnt (cr_Handler q) \<le> 128
    \<and> (os_Set (cr_IdempotencyKey q) \<longrightarrow>
         1 \<le> cnt (os_Value (cr_IdempotencyKey q)) \<and> cnt (os_Value (cr_IdempotencyKey q)) \<le> 128)"
proof -
  let ?d = "jx_DecodeBytes (lib_jx L) (rq_Body r)"
  obtain q where q: "fst (CreateTaskRequest_Decode (lib_jx L) (doc_root ?d)
      (Some zero_create_task_request)) = Some q"
    using Decode_Some by blast
  have "decode_body L r = (req, rawBody, None) \<and> close = None"
    using assms(1) by (auto simp: decodeCreateTaskRequest_def split: prod.splits option.splits)
  with q assms(2) show ?thesis
    by (auto simp: decode_body_def Let_def unmarshal_def CreateTaskRequest_UnmarshalJSON_def
        CreateTaskRequest_Validate_ok prod_eq_iff
        split: sum.splits if_splits option.splits prod.splits)
qed

definition demo_jx :: jx_env where "demo_jx = echo_jx id demo_request_val"

lemma demo_decoded:
  "decodeCreateTaskRequest (demo_lib demo_jx) (demo_http ''POST'' ''/v1/tasks'') =
     (Some (read_request demo_jx demo_request), ''{}'', None, None)"
  by code_simp

theorem decoded_request_valid_witness:
  "\<exists>q. fst (decodeCreateTaskRequest (demo_lib demo_jx) (demo_http ''POST'' ''/v1/tasks'')) = Some q
     \<and> 1 \<le> int (length (cr_Handler q))"
  using decoded_request_valid [OF demo_decoded demo_lib_validate] demo_decoded by auto

section \<open>How requests are answered\<close>

lemma ErrorHandler_simps [simp]:
  "rw_status (ErrorHandler L err w) =
     (case rw_status w of None \<Rightarrow> Some (fst (classify_error L err)) | Some k \<Rightarrow> Some k)"
  "rw_recorder (ErrorHandler L err w) =
     (case rw_recorder w of None \<Rightarrow> None | Some _ \<Rightarrow> Some (fst (classify_error L err)))"
  "rw_body (ErrorHandler L err w) =
     (if rw_werr w = None
      then rw_body w @ jx_Bytes (lib_jx L) (Error_Encode
             \<lparr>oe_Code = fst (snd (classify_error L err)),
              oe_Message = snd (snd (classify_error L err))\<rparr> [])
      else rw_body w)"
  "rw_sent (ErrorHandler L err w) =
     (case rw_status w of
        None \<Rightarrow> rw_header (header_Set ''Content-Type'' ''application/json; charset=utf-8'' w)
      | Some _ \<Rightarrow> rw_sent w)"
  "rw_werr (ErrorHandler L err w) = rw_werr w"
  by (auto simp: ErrorHandler_def Let_def case_prod_beta split: option.splits)

lemma send_json_simps [simp]:
  "ex_app (fst (send_json L c e ex)) = ex_app ex"
  "snd (send_json L c e ex) = map_option (Wrapf ''write'') (rw_werr (ex_rw ex))"
  "rw_status (ex_rw (fst (send_json L c e ex))) =
     (case rw_status (ex_rw ex) of None \<Rightarrow> Some c | Some k \<Rightarrow> Some k)"
  "rw_recorder (ex_rw (fst (send_json L c e ex))) =
     (case rw_recorder (ex_rw ex) of None \<Rightarrow> None | Some _ \<Rightarrow> Some c)"
  "rw_body (ex_rw (fst (send_json L c e ex))) =
     (if rw_werr (ex_rw ex) = None then rw_body (ex_rw ex) @ jx_Bytes (lib_jx L) e
      else rw_body (ex_rw ex))"
  "rw_sent (ex_rw (fst (send_json L c e ex))) =
     (case rw_status (ex_rw ex) of
        None \<Rightarrow> rw_header (header_Set ''Content-Type'' ''application/json; charset=utf-8'' (ex_rw ex))
      | Some _ \<Rightarrow> rw_sent (ex_rw ex))"
  "rw_werr (ex_rw (fst (send_json L c e ex))) = rw_werr (ex_rw ex)"
  "ex_tel (fst (send_json L c e ex)) =
     ex_tel ex @ (if c = 500 then [TelStatusError ''Internal Server Error''] else [])"
  by (auto simp: send_json_def Let_def case_prod_beta split: option.splits)

lemma finish_request_simps [simp]:
  "ex_app (finish_request op ex) = ex_app ex" "ex_rw (finish_request op ex) = ex_rw ex"
  "ex_tel (finish_request op ex) =
     ex_tel ex @ (if recorder_status ex \<noteq> 0 then [TelSpanCode (recorder_status ex)] else []) @
     [TelRequestsAdd op (recorder_status ex), TelDuration op (recorder_status ex), TelSpanEnd op]"
  by (simp_all add: finish_request_def stopwatch_def Let_def)

lemma recordError_simps [simp]:
  "ex_app (recordError op stage err ex) = ex_app ex"
  "ex_rw (recordError op stage err ex) = ex_rw ex"
  "recorder_status (recordError op stage err ex) = recorder_status ex"
  "ex_tel (recordError op stage err ex) =
     ex_tel ex @ [TelRecordError err] @
     (if recorder_status ex < 100 \<or> recorder_status ex \<ge> 500 then [TelStatusError stage] else []) @
     [TelErrorsAdd op (recorder_status ex)]"
  by (simp_all add: recordError_def Let_def)

text \<open>
  A handled request ends in one of three ways: an error was rendered by the error handler, a
  typed response was written, or a typed response's body could not be written, in which case the
  error handler ran on a response whose status line had gone out.
\<close>

datatype ending = Failed gerr | Answered nat encoder | Broken nat gerr

definition ended :: "lib \<Rightarrow> string \<Rightarrow> resp_writer \<Rightarrow> tel list \<Rightarrow> ending \<Rightarrow> 's exchange \<Rightarrow> bool" where
  "ended L op w ts e ex \<longleftrightarrow>
     rw_sent (ex_rw ex) =
       rw_header (header_Set ''Content-Type'' ''application/json; charset=utf-8'' w)
     \<and> (case e of
          Failed err \<Rightarrow>
            (let (c, symbol, msg) = classify_error L err
             in rw_status (ex_rw ex) = Some c
                \<and> rw_body (ex_rw ex) =
                  (if rw_werr w = None
                   then jx_Bytes (lib_jx L) (Error_Encode \<lparr>oe_Code = symbol, oe_Message = msg\<rparr> [])
                   else [])
                \<and> (\<exists>stage. ex_tel ex = ts @ [TelSpanStart op, TelRecordError err] @
                    (if c = 500 then [TelStatusError stage] else []) @
                    [TelErrorsAdd op c, TelSpanCode c, TelRequestsAdd op c, TelDuration op c,
                     TelSpanEnd op]))
        | Answered c enc \<Rightarrow>
            rw_werr w = None \<and> rw_status (ex_rw ex) = Some c
            \<and> rw_body (ex_rw ex) = jx_Bytes (lib_jx L) enc
            \<and> ex_tel ex = ts @ [TelSpanStart op, TelSpanCode c, TelRequestsAdd op c,
                TelDuration op c, TelSpanEnd op]
        | Broken c err \<Rightarrow>
            rw_werr w = Some err \<and> rw_status (ex_rw ex) = Some c \<and> rw_body (ex_rw ex) = []
            \<and> (let c' = fst (classify_error L (Wrapf ''write'' err))
               in \<exists>stage. ex_tel ex = ts @ [TelSpanStart op, TelRecordError (Wrapf ''write'' err)] @
                    (if c' = 500 then [TelStatusError stage] else []) @
                    [TelErrorsAdd op c', TelSpanCode c', TelRequestsAdd op c', TelDuration op c',
                     TelSpanEnd op]))"

lemma classify_error_code: "fst (classify_error L err) = 400 \<or> fst (classify_error L err) = 500"
  by (auto simp: classify_error_def split: option.splits)

text \<open>The exchange once the handler has wrapped the writer and started the span.\<close>

definition started :: "string \<Rightarrow> 's exchange \<Rightarrow> 's exchange" where
  "started op ex = emit_tel (TelSpanStart op) (on_rw (\<lambda>w. w\<lparr>rw_recorder := Some 0\<rparr>) ex)"

lemma ended_failed:
  assumes "fresh_writer (ex_rw ex)" and "ex0 = (started op ex)\<lparr>ex_app := s\<rparr>"
  shows "ended L op (ex_rw ex) (ex_tel ex) (Failed err)
    (finish_request op (recordError op stage err (on_rw (ErrorHandler L err) ex0)))"
  using assms classify_error_code [of L err]
  by (auto simp: ended_def started_def fresh_writer_def recorder_status_def header_Set_def
      case_prod_beta)

lemma ended_answered:
  assumes "fresh_writer (ex_rw ex)" and "ex0 = (started op ex)\<lparr>ex_app := s\<rparr>"
    and "send_json L c e ex0 = (ex1, None)" and "c \<noteq> 0" and "c \<noteq> 500"
  shows "ended L op (ex_rw ex) (ex_tel ex) (Answered c e) (finish_request op ex1)"
proof -
  have ex1: "ex1 = fst (send_json L c e ex0)" "rw_werr (ex_rw ex0) = None"
    using assms(3) send_json_simps(2) [of L c e ex0] by (auto simp del: send_json_simps)
  show ?thesis
    using assms(1,2,4,5) ex1(2) unfolding ex1(1)
    by (simp add: ended_def started_def fresh_writer_def recorder_status_def header_Set_def)
qed

lemma ended_broken:
  assumes "fresh_writer (ex_rw ex)" and "ex0 = (started op ex)\<lparr>ex_app := s\<rparr>"
    and "send_json L c e ex0 = (ex1, Some err)" and "c \<noteq> 500"
  shows "\<exists>err'. err = Wrapf ''write'' err' \<and> ended L op (ex_rw ex) (ex_tel ex) (Broken c err')
    (finish_request op (recordError op stage err (on_rw (ErrorHandler L err) ex1)))"
proof -
  have ex1: "ex1 = fst (send_json L c e ex0)"
    "map_option (Wrapf ''write'') (rw_werr (ex_rw ex0)) = Some err"
    using assms(3) send_json_simps(2) [of L c e ex0] by (auto simp del: send_json_simps)
  then obtain err' where err': "rw_werr (ex_rw ex0) = Some err'" "err = Wrapf ''write'' err'"
    by auto
  then show ?thesis
    using assms(1,2,4) classify_error_code [of L err] unfolding ex1(1)
    by (auto simp: ended_def started_def fresh_writer_def recorder_status_def header_Set_def)
qed

lemma api_server_cfg:
  assumes "api_server E h = Inr srv"
  shows "sv_h srv = as_oas_handler (se_lib E) h"
    and "cfg_ErrorHandler (sv_cfg srv) = ErrorHandler (se_lib E)"
    and "cfg_Middleware (sv_cfg srv) = None" and "cfg_Prefix (sv_cfg srv) = []"
    and "cfg_NotFound (sv_cfg srv) = http_NotFound" and "cfg_MethodNotAllowed (sv_cfg srv) = None"
  using assms
  by (auto simp: api_server_def NewServer_def baseServer_def newServerConfig_def Let_def
      split: option.splits)

text \<open>What the two operations end with, and what they leave of the application's state.\<close>

definition create_ends ::
  "lib \<Rightarrow> ('c, 's) api_handler \<Rightarrow> 'c \<Rightarrow> http_request \<Rightarrow> 's \<Rightarrow> 's \<Rightarrow> ending \<Rightarrow> bool" where
  "create_ends L h ctx r s s' e \<longleftrightarrow>
     (case decodeCreateTaskRequest L r of
        (req, _, _, Some d) \<Rightarrow> e = Failed (DecodeRequestError ''createTask'' d) \<and> s' = s
      | (req, _, _, None) \<Rightarrow>
          (\<exists>q. req = Some q \<and> s' = fst (Handler_CreateTask L h ctx q s) \<and>
             (case snd (Handler_CreateTask L h ctx q s) of
                Inl err \<Rightarrow> e = Failed err
              | Inr res \<Rightarrow> (\<exists>t. res = CreateTaskResTask t \<and>
                  (e = Answered 201 (Task_Encode t []) \<or> (\<exists>err. e = Broken 201 err))))))"

definition get_ends ::
  "lib \<Rightarrow> ('c, 's) api_handler \<Rightarrow> 'c \<Rightarrow> string \<Rightarrow> bool \<Rightarrow> 's \<Rightarrow> 's \<Rightarrow> ending \<Rightarrow> bool" where
  "get_ends L h ctx arg esc s s' e \<longleftrightarrow>
     (case decodeGetTaskParams L arg esc of
        Inl d \<Rightarrow> e = Failed (DecodeParamsError ''getTask'' d) \<and> s' = s
      | Inr params \<Rightarrow>
          s' = fst (Handler_GetTask h ctx params s) \<and>
          (case snd (Handler_GetTask h ctx params s) of
             Inl err \<Rightarrow> e = Failed err
           | Inr res \<Rightarrow>
               (\<exists>c enc. (e = Answered c enc \<or> (\<exists>err. e = Broken c err)) \<and>
                  (case res of
                     GetTaskResTask t \<Rightarrow> c = 200 \<and> enc = Task_Encode t []
                   | GetTaskNotFound oe \<Rightarrow> c = 404 \<and> enc = GetTaskNotFound_Encode oe []
                   | _ \<Rightarrow> False))))"

lemma Handler_CreateTask_res:
  "Handler_CreateTask L h ctx q s = (s1, Inr res) \<Longrightarrow> \<exists>t. res = CreateTaskResTask t"
  by (auto simp: Handler_CreateTask_def Let_def case_prod_beta split: sum.splits prod.splits)

lemma Handler_GetTask_res:
  "Handler_GetTask h ctx params s = (s1, Inr res) \<Longrightarrow> (\<exists>t. res = GetTaskResTask t) \<or>
     res = GetTaskNotFound \<lparr>oe_Code = ErrorCodeTaskNotFound, oe_Message = ''task ID not found''\<rparr>"
  by (auto simp: Handler_GetTask_def split: sum.splits prod.splits if_splits)

lemma started_app [simp]: "ex_app (started op ex) = ex_app ex"
  by (simp add: started_def)

lemma decode_shape:
  assumes "decodeCreateTaskRequest L r = (req, raw, cl, de)"
  shows "cl = None" and "de = None \<Longrightarrow> \<exists>q. req = Some q"
proof -
  let ?d = "jx_DecodeBytes (lib_jx L) (rq_Body r)"
  obtain q where q: "fst (CreateTaskRequest_Decode (lib_jx L) (doc_root ?d)
      (Some zero_create_task_request)) = Some q"
    using Decode_Some by blast
  show "cl = None"
    using assms by (auto simp: decodeCreateTaskRequest_def split: prod.splits)
  show "\<exists>q. req = Some q" if "de = None"
    using assms that q
    by (auto simp: decodeCreateTaskRequest_def decode_body_def Let_def
        split: sum.splits if_splits option.splits prod.splits)
qed

lemma create_ending:
  assumes srv: "api_server E h = Inr srv" and fresh: "fresh_writer (ex_rw ex)"
    and run: "ex' = handleCreateTaskRequest (se_lib E) srv ctx r ex"
  shows "\<exists>e. ended (se_lib E) CreateTaskOperation (ex_rw ex) (ex_tel ex) e ex'
    \<and> create_ends (se_lib E) h ctx r (ex_app ex) (ex_app ex') e"
proof -
  let ?L = "se_lib E" and ?op = CreateTaskOperation
  let ?fin = "finish_request ?op" and ?ex0 = "started ?op ex"
  let ?fail = "\<lambda>stage err ex. ?fin (recordError ?op stage err (on_rw (ErrorHandler ?L err) ex))"
  note cfg = api_server_cfg [OF srv]
  obtain req raw cl de where dec: "decodeCreateTaskRequest ?L r = (req, raw, cl, de)"
    by (cases "decodeCreateTaskRequest ?L r")
  note shape = decode_shape [OF dec]
  show ?thesis
  proof (cases de)
    case (Some d)
    have ex': "ex' = ?fail ''DecodeRequest'' (DecodeRequestError ''createTask'' d) ?ex0"
      using Some dec
      by (cases req) (simp_all add: run handleCreateTaskRequest_def cfg started_def Let_def)
    have "ended ?L ?op (ex_rw ex) (ex_tel ex) (Failed (DecodeRequestError ''createTask'' d)) ex'"
      unfolding ex' by (rule ended_failed [OF fresh, where s = "ex_app ex"]) (simp add: started_def)
    moreover have "ex_app ex' = ex_app ex" by (simp add: ex')
    ultimately show ?thesis using Some dec by (auto simp: create_ends_def)
  next
    case None
    with shape obtain q where q: "req = Some q" "cl = None" by blast
    obtain s1 res where call: "Handler_CreateTask ?L h ctx q (ex_app ex) = (s1, res)"
      by (cases "Handler_CreateTask ?L h ctx q (ex_app ex)")
    let ?ex1 = "?ex0\<lparr>ex_app := s1\<rparr>"
    have ex': "ex' =
        (case res of Inl err \<Rightarrow> ?fail ''Internal'' err ?ex1
         | Inr response \<Rightarrow>
             (case encodeCreateTaskResponse ?L response ?ex1 of
                (ex, None) \<Rightarrow> ?fin ex
              | (ex, Some err) \<Rightarrow> ?fin (recordError ?op ''EncodeResponse'' err
                  (if \<not> errors_Is err ErrInternalServerErrorResponse
                   then on_rw (ErrorHandler ?L err) ex else ex))))"
      using None dec q call
      by (simp add: run handleCreateTaskRequest_def cfg as_oas_handler_def started_def Let_def
          run_handler_def split: sum.split)
    show ?thesis
    proof (cases res)
      case (Inl err)
      have "ended ?L ?op (ex_rw ex) (ex_tel ex) (Failed err) ex'"
        unfolding ex' Inl by (simp only: sum.case) (rule ended_failed [OF fresh refl])
      moreover have "ex_app ex' = s1" by (simp add: ex' Inl)
      ultimately show ?thesis using None dec q call Inl by (auto simp: create_ends_def)
    next
      case (Inr response)
      then obtain t where t: "response = CreateTaskResTask t"
        using Handler_CreateTask_res [OF call [unfolded Inr]] by blast
      obtain ex2 we where send: "send_json ?L 201 (Task_Encode t []) ?ex1 = (ex2, we)"
        by (cases "send_json ?L 201 (Task_Encode t []) ?ex1")
      have app: "ex_app ex2 = s1" using send_json_simps(1) [of ?L 201 "Task_Encode t []" ?ex1] send
        by (simp del: send_json_simps)
      show ?thesis
      proof (cases we)
        case None
        have "ended ?L ?op (ex_rw ex) (ex_tel ex) (Answered 201 (Task_Encode t [])) ex'"
          using ended_answered [OF fresh refl send [unfolded None]] None
          by (simp add: ex' Inr t encodeCreateTaskResponse_def send)
        moreover have "ex_app ex' = s1"
          by (simp add: ex' Inr t encodeCreateTaskResponse_def send None app)
        ultimately show ?thesis
          using \<open>de = None\<close> dec q call Inr t by (auto simp: create_ends_def)
      next
        case (Some err)
        obtain err' where err': "err = Wrapf ''write'' err'"
          "ended ?L ?op (ex_rw ex) (ex_tel ex) (Broken 201 err') (?fail ''EncodeResponse'' err ex2)"
          using ended_broken [OF fresh refl send [unfolded Some]] by auto
        then have "\<not> errors_Is err ErrInternalServerErrorResponse"
          using fresh by (auto simp: ended_def fresh_writer_def)
        then have ex'2: "ex' = ?fail ''EncodeResponse'' err ex2"
          by (simp add: ex' Inr t encodeCreateTaskResponse_def send Some)
        with err'(2) have "ended ?L ?op (ex_rw ex) (ex_tel ex) (Broken 201 err') ex'" by simp
        moreover have "ex_app ex' = s1" by (simp add: ex'2 app)
        ultimately show ?thesis
          using \<open>de = None\<close> dec q call Inr t by (auto simp: create_ends_def)
      qed
    qed
  qed
qed

lemma get_ending:
  fixes ex :: "'s exchange"
  assumes srv: "api_server E h = Inr srv" and fresh: "fresh_writer (ex_rw ex)"
    and run: "ex' = handleGetTaskRequest (se_lib E) srv ctx arg esc r ex"
  shows "\<exists>e. ended (se_lib E) GetTaskOperation (ex_rw ex) (ex_tel ex) e ex'
    \<and> get_ends (se_lib E) h ctx arg esc (ex_app ex) (ex_app ex') e"
proof -
  let ?L = "se_lib E" and ?op = GetTaskOperation
  let ?fin = "finish_request ?op" and ?ex0 = "started ?op ex"
  let ?fail = "\<lambda>stage err ex. ?fin (recordError ?op stage err (on_rw (ErrorHandler ?L err) ex))"
  note cfg = api_server_cfg [OF srv]
  show ?thesis
  proof (cases "decodeGetTaskParams ?L arg esc")
    case (Inl d)
    have ex': "ex' = ?fail ''DecodeParams'' (DecodeParamsError ''getTask'' d) ?ex0"
      using Inl by (simp add: run handleGetTaskRequest_def cfg started_def Let_def)
    have "ended ?L ?op (ex_rw ex) (ex_tel ex) (Failed (DecodeParamsError ''getTask'' d)) ex'"
      unfolding ex' by (rule ended_failed [OF fresh, where s = "ex_app ex"]) (simp add: started_def)
    moreover have "ex_app ex' = ex_app ex" by (simp add: ex')
    ultimately show ?thesis using Inl by (auto simp: get_ends_def)
  next
    case params: (Inr params)
    obtain s1 res where call: "Handler_GetTask h ctx params (ex_app ex) = (s1, res)"
      by (cases "Handler_GetTask h ctx params (ex_app ex)")
    let ?ex1 = "?ex0\<lparr>ex_app := s1\<rparr>"
    have ex': "ex' =
        (case res of Inl err \<Rightarrow> ?fail ''Internal'' err ?ex1
         | Inr response \<Rightarrow>
             (case encodeGetTaskResponse ?L response ?ex1 of
                (ex, None) \<Rightarrow> ?fin ex
              | (ex, Some err) \<Rightarrow> ?fin (recordError ?op ''EncodeResponse'' err
                  (if \<not> errors_Is err ErrInternalServerErrorResponse
                   then on_rw (ErrorHandler ?L err) ex else ex))))"
      using params call
      by (simp add: run handleGetTaskRequest_def cfg as_oas_handler_def started_def Let_def
          run_handler_def split: sum.split)
    show ?thesis
    proof (cases res)
      case (Inl err)
      have "ended ?L ?op (ex_rw ex) (ex_tel ex) (Failed err) ex'"
        unfolding ex' Inl by (simp only: sum.case) (rule ended_failed [OF fresh refl])
      moreover have "ex_app ex' = s1" by (simp add: ex' Inl)
      ultimately show ?thesis using params call Inl by (auto simp: get_ends_def)
    next
      case (Inr response)
      obtain c enc where c: "encodeGetTaskResponse ?L response ?ex1 = send_json ?L c enc ?ex1"
        "c \<noteq> 0" "c \<noteq> 500"
        "case response of GetTaskResTask t \<Rightarrow> c = 200 \<and> enc = Task_Encode t []
         | GetTaskNotFound oe \<Rightarrow> c = 404 \<and> enc = GetTaskNotFound_Encode oe [] | _ \<Rightarrow> False"
        using Handler_GetTask_res [OF call [unfolded Inr]]
        by (elim disjE exE) (auto simp: encodeGetTaskResponse_def)
      obtain ex2 we where send: "send_json ?L c enc ?ex1 = (ex2, we)"
        by (cases "send_json ?L c enc ?ex1")
      have app: "ex_app ex2 = s1"
        using send_json_simps(1) [of ?L c enc ?ex1] send by (simp del: send_json_simps)
      show ?thesis
      proof (cases we)
        case None
        have "ended ?L ?op (ex_rw ex) (ex_tel ex) (Answered c enc) ex'"
          using ended_answered [OF fresh refl send [unfolded None] c(2,3)] None
          by (simp add: ex' Inr c(1) send)
        moreover have "ex_app ex' = s1" by (simp add: ex' Inr c(1) send None app)
        ultimately show ?thesis using params call Inr c(4) by (auto simp: get_ends_def)
      next
        case (Some err)
        obtain err' where err': "err = Wrapf ''write'' err'"
          "ended ?L ?op (ex_rw ex) (ex_tel ex) (Broken c err') (?fail ''EncodeResponse'' err ex2)"
          using ended_broken [OF fresh refl send [unfolded Some] c(3)] by auto
        then have "\<not> errors_Is err ErrInternalServerErrorResponse"
          using fresh by (auto simp: ended_def fresh_writer_def)
        then have ex'2: "ex' = ?fail ''EncodeResponse'' err ex2"
          by (simp add: ex' Inr c(1) send Some)
        with err'(2) have "ended ?L ?op (ex_rw ex) (ex_tel ex) (Broken c err') ex'" by simp
        moreover have "ex_app ex' = s1" by (simp add: ex'2 app)
        ultimately show ?thesis using params call Inr c(4) by (auto simp: get_ends_def)
      qed
    qed
  qed
qed

section \<open>Properties of the answers\<close>

definition op_of_call :: "route_call \<Rightarrow> string" where
  "op_of_call c =
     (case c of CallCreateTask _ \<Rightarrow> CreateTaskOperation | CallGetTask _ _ \<Rightarrow> GetTaskOperation
      | _ \<Rightarrow> [])"

definition is_operation :: "route_call \<Rightarrow> bool" where
  "is_operation c = (case c of CallCreateTask _ \<Rightarrow> True | CallGetTask _ _ \<Rightarrow> True | _ \<Rightarrow> False)"

lemma serve_operation:
  assumes "api_server E h = Inr srv" and "fresh_writer (ex_rw ex)"
    and "ex' = ServeHTTP (se_lib E) srv ctx r ex"
    and "is_operation (serve_route (se_lib E) [] r)"
  obtains e where "ended (se_lib E) (op_of_call (serve_route (se_lib E) [] r)) (ex_rw ex) (ex_tel ex) e ex'"
    and "case serve_route (se_lib E) [] r of
        CallCreateTask esc \<Rightarrow> create_ends (se_lib E) h ctx r (ex_app ex) (ex_app ex') e
      | CallGetTask arg esc \<Rightarrow> get_ends (se_lib E) h ctx arg esc (ex_app ex) (ex_app ex') e
      | _ \<Rightarrow> False"
proof (cases "serve_route (se_lib E) [] r")
  case (CallCreateTask esc)
  with assms(3) have "ex' = handleCreateTaskRequest (se_lib E) srv ctx r ex"
    by (simp add: ServeHTTP_def api_server_cfg [OF assms(1)])
  from create_ending [OF assms(1,2) this] that show ?thesis
    by (auto simp: CallCreateTask op_of_call_def)
next
  case (CallGetTask arg esc)
  with assms(3) have "ex' = handleGetTaskRequest (se_lib E) srv ctx arg esc r ex"
    by (simp add: ServeHTTP_def api_server_cfg [OF assms(1)])
  from get_ending [OF assms(1,2) this] that show ?thesis
    by (auto simp: CallGetTask op_of_call_def)
qed (use assms(4) in \<open>simp_all add: is_operation_def\<close>)

lemma serve_other:
  assumes "api_server E h = Inr srv" and "\<not> is_operation (serve_route (se_lib E) [] r)"
  shows "ex_app (ServeHTTP (se_lib E) srv ctx r ex) = ex_app ex"
  using assms by (auto simp: ServeHTTP_def api_server_cfg is_operation_def split: route_call.splits)

definition ending_status :: "lib \<Rightarrow> ending \<Rightarrow> nat" where
  "ending_status L e =
     (case e of Failed err \<Rightarrow> fst (classify_error L err) | Answered c _ \<Rightarrow> c | Broken c _ \<Rightarrow> c)"

lemma ended_status: "ended L op w ts e ex \<Longrightarrow> rw_status (ex_rw ex) = Some (ending_status L e)"
  by (auto simp: ended_def ending_status_def split: ending.splits prod.splits)

lemma create_endsE:
  assumes "create_ends L h ctx r s s' e"
  obtains (undecoded) req raw cl d where "decodeCreateTaskRequest L r = (req, raw, cl, Some d)"
      "e = Failed (DecodeRequestError ''createTask'' d)" "s' = s"
  | (failed) q raw cl err where "decodeCreateTaskRequest L r = (Some q, raw, cl, None)"
      "Handler_CreateTask L h ctx q s = (s', Inl err)" "e = Failed err"
  | (answered) q raw cl t where "decodeCreateTaskRequest L r = (Some q, raw, cl, None)"
      "Handler_CreateTask L h ctx q s = (s', Inr (CreateTaskResTask t))"
      "e = Answered 201 (Task_Encode t []) \<or> (\<exists>err. e = Broken 201 err)"
proof -
  obtain req raw cl de where dec: "decodeCreateTaskRequest L r = (req, raw, cl, de)"
    by (cases "decodeCreateTaskRequest L r")
  show ?thesis
  proof (cases de)
    case (Some d)
    with dec assms undecoded [of req raw cl d] show ?thesis by (simp add: create_ends_def)
  next
    case None
    with dec assms obtain q where q: "req = Some q" "s' = fst (Handler_CreateTask L h ctx q s)"
      "case snd (Handler_CreateTask L h ctx q s) of Inl err \<Rightarrow> e = Failed err
       | Inr res \<Rightarrow> (\<exists>t. res = CreateTaskResTask t \<and>
                  (e = Answered 201 (Task_Encode t []) \<or> (\<exists>err. e = Broken 201 err)))"
      by (auto simp: create_ends_def)
    show ?thesis
    proof (cases "snd (Handler_CreateTask L h ctx q s)")
      case (Inl err)
      with None dec q failed [of q raw cl err] show ?thesis by (simp add: prod_eq_iff)
    next
      case (Inr res)
      with q(3) obtain t where "res = CreateTaskResTask t"
        "e = Answered 201 (Task_Encode t []) \<or> (\<exists>err. e = Broken 201 err)" by auto
      with None dec q Inr answered [of q raw cl t] show ?thesis by (simp add: prod_eq_iff)
    qed
  qed
qed

lemma get_endsE:
  assumes "get_ends L h ctx arg esc s s' e"
  obtains (undecoded) d where "decodeGetTaskParams L arg esc = Inl d"
      "e = Failed (DecodeParamsError ''getTask'' d)" "s' = s"
  | (failed) params err where "decodeGetTaskParams L arg esc = Inr params"
      "Handler_GetTask h ctx params s = (s', Inl err)" "e = Failed err"
  | (found) params t where "decodeGetTaskParams L arg esc = Inr params"
      "Handler_GetTask h ctx params s = (s', Inr (GetTaskResTask t))"
      "e = Answered 200 (Task_Encode t []) \<or> (\<exists>err. e = Broken 200 err)"
  | (missing) params oe where "decodeGetTaskParams L arg esc = Inr params"
      "Handler_GetTask h ctx params s = (s', Inr (GetTaskNotFound oe))"
      "oe = \<lparr>oe_Code = ErrorCodeTaskNotFound, oe_Message = ''task ID not found''\<rparr>"
      "e = Answered 404 (GetTaskNotFound_Encode oe []) \<or> (\<exists>err. e = Broken 404 err)"
proof (cases "decodeGetTaskParams L arg esc")
  case (Inl d)
  with assms undecoded [of d] show ?thesis by (simp add: get_ends_def)
next
  case params: (Inr params)
  obtain s1 res where call: "Handler_GetTask h ctx params s = (s1, res)"
    by (cases "Handler_GetTask h ctx params s")
  with params assms have s': "s' = s1" by (simp add: get_ends_def)
  show ?thesis
  proof (cases res)
    case (Inl err)
    with params call s' assms failed [of params err] show ?thesis by (simp add: get_ends_def)
  next
    case (Inr response)
    with Handler_GetTask_res [of h ctx params s s1 response] call
    consider t where "response = GetTaskResTask t"
      | "response = GetTaskNotFound
          \<lparr>oe_Code = ErrorCodeTaskNotFound, oe_Message = ''task ID not found''\<rparr>"
      by auto
    then show ?thesis
      by cases (use params call s' assms Inr found missing in \<open>auto simp: get_ends_def\<close>)
  qed
qed

lemma create_ends_status: "create_ends L h ctx r s s' e \<Longrightarrow> ending_status L e \<in> {201, 400, 500}"
  using classify_error_code [of L]
  by (elim create_endsE) (auto simp: ending_status_def)

lemma get_ends_status:
  "get_ends L h ctx arg esc s s' e \<Longrightarrow> ending_status L e \<in> {200, 400, 404, 500}"
  using classify_error_code [of L]
  by (elim get_endsE) (auto simp: ending_status_def)

text \<open>
  C19. Every request is answered with exactly one status line, from the set its route allows:
  201, 400 or 500 for createTask, 200, 400, 404 or 500 for getTask, 405 (204 for OPTIONS) for
  another method on a known path, 404 elsewhere. This holds for every backend and whatever it
  answers.
\<close>

theorem every_request_answered:
  assumes "api_server E h = Inr srv" and "fresh_writer (ex_rw ex)"
  shows "\<exists>c. rw_status (ex_rw (ServeHTTP (se_lib E) srv ctx r ex)) = Some c
    \<and> (case serve_route (se_lib E) [] r of
         CallCreateTask _ \<Rightarrow> c \<in> {201, 400, 500}
       | CallGetTask _ _ \<Rightarrow> c \<in> {200, 400, 404, 500}
       | CallNotAllowed _ \<Rightarrow> c = (if rq_Method r = ''OPTIONS'' then 204 else 405)
       | CallNotFound \<Rightarrow> c = 404)"
proof (cases "is_operation (serve_route (se_lib E) [] r)")
  case True
  obtain e where e: "ended (se_lib E) (op_of_call (serve_route (se_lib E) [] r)) (ex_rw ex) (ex_tel ex) e
      (ServeHTTP (se_lib E) srv ctx r ex)"
    "case serve_route (se_lib E) [] r of
        CallCreateTask esc \<Rightarrow> create_ends (se_lib E) h ctx r (ex_app ex)
          (ex_app (ServeHTTP (se_lib E) srv ctx r ex)) e
      | CallGetTask arg esc \<Rightarrow> get_ends (se_lib E) h ctx arg esc (ex_app ex)
          (ex_app (ServeHTTP (se_lib E) srv ctx r ex)) e
      | _ \<Rightarrow> False"
    by (rule serve_operation [OF assms refl True])
  show ?thesis
    using ended_status [OF e(1)] e(2) create_ends_status get_ends_status
    by (fastforce split: route_call.splits)
next
  case False
  then show ?thesis
    using assms(2)
    by (auto simp: ServeHTTP_def api_server_cfg [OF assms(1)] is_operation_def notAllowed_def
        http_NotFound_def fresh_writer_def set_unless_empty_def Let_def
        split: route_call.splits option.splits)
qed

definition demo_server_env :: "jx_env \<Rightarrow> ('c, 's) server_env" where
  "demo_server_env J =
     \<lparr>se_lib = demo_lib J, se_chain = hd, se_globalTracer = 1, se_globalMeter = 2,
      se_requestsErr = None, se_errorsErr = None, se_durationErr = None\<rparr>"

text \<open>A backend that stores nothing: every submit is fresh, every read misses.\<close>

definition demo_backend :: "(unit, unit) api_handler" where
  "demo_backend =
     NewHandler (\<lambda>ctx c s. (s, Inr (tasks_Submit 7 (sc_Handler c) (sc_Payload c) zero_time)))
       (\<lambda>ctx i s. (s, Inl (WrapErrorf ''get task %s: %w'' [ArgUuid i] (Sentinel ErrNotFound))))"

definition demo_exchange :: "gerr option \<Rightarrow> unit exchange" where
  "demo_exchange werr = \<lparr>ex_app = (), ex_rw = demo_writer\<lparr>rw_werr := werr\<rparr>, ex_tel = []\<rparr>"

lemma demo_server:
  obtains srv where "api_server (demo_server_env J) h = Inr srv"
  by (simp add: api_server_def NewServer_def baseServer_def demo_server_env_def)

lemma demo_exchange_fresh [simp]:
  "fresh_writer (ex_rw (demo_exchange None))"
  "fresh_writer (ex_rw (demo_exchange (Some (Plain m))))"
  by (simp_all add: fresh_writer_def demo_exchange_def demo_writer_def)

lemma demo_server_lib [simp]: "se_lib (demo_server_env J) = demo_lib J"
  by (simp add: demo_server_env_def)

lemma demo_routes:
  "serve_route (demo_lib J) [] (demo_http ''POST'' ''/v1/tasks'') = CallCreateTask False"
  "serve_route (demo_lib J) [] (demo_http ''DELETE'' ''/v1/tasks/x'') =
     CallNotAllowed \<lparr>na_allowedMethods = ''GET'', na_allowedHeaders = None,
       na_acceptPost = [], na_acceptPatch = []\<rparr>"
  "serve_route (demo_lib J) [] (demo_http ''GET'' ''/v1/tasks/xx'') = CallGetTask ''xx'' False"
  by (simp_all add: serve_route_def serve_elem_def demo_http_def cutPrefix_def)

theorem every_request_answered_witness:
  "\<exists>srv. api_server (demo_server_env demo_jx) demo_backend = Inr srv
     \<and> rw_status (ex_rw (ServeHTTP (demo_lib demo_jx) srv ()
           (demo_http ''DELETE'' ''/v1/tasks/x'') (demo_exchange None))) = Some 405"
proof -
  obtain srv where srv: "api_server (demo_server_env demo_jx) demo_backend = Inr srv"
    by (rule demo_server)
  from every_request_answered [OF srv demo_exchange_fresh(1), of "()"
      "demo_http ''DELETE'' ''/v1/tasks/x''"]
  have "rw_status (ex_rw (ServeHTTP (demo_lib demo_jx) srv ()
           (demo_http ''DELETE'' ''/v1/tasks/x'') (demo_exchange None))) = Some 405"
    unfolding demo_server_lib demo_routes by (simp add: demo_http_def)
  with srv show ?thesis by blast
qed

text \<open>
  C20. Every answer of an operation is a JSON document of the contract, and nothing internal
  leaks: with a working connection a status below 400 carries an encoded task that passes
  validation, a status from 400 on an encoded \<open>Error\<close> that passes validation; a 500 always
  says exactly "internal server error", a 404 names the missing task, and a 400 carries one of the
  two symbols for bad requests.
\<close>

theorem answers_are_contract_documents:
  assumes "api_server E h = Inr srv" and "fresh_writer (ex_rw ex)" and "rw_werr (ex_rw ex) = None"
    and "is_operation (serve_route (se_lib E) [] r)"
    and "ex' = ServeHTTP (se_lib E) srv ctx r ex" and "rw_status (ex_rw ex') = Some c"
  shows "header_of (rw_sent (ex_rw ex')) ''Content-Type'' = ''application/json; charset=utf-8''
    \<and> (c < 400 \<longrightarrow> (\<exists>t. Task_MarshalJSON (lib_jx (se_lib E)) t = Inr (rw_body (ex_rw ex'))
         \<and> Task_Validate (Some t) = None))
    \<and> (400 \<le> c \<longrightarrow> (\<exists>e. Error_MarshalJSON (lib_jx (se_lib E)) e = Inr (rw_body (ex_rw ex'))
         \<and> Error_Validate (Some e) = None
         \<and> (c = 500 \<longrightarrow> e = \<lparr>oe_Code = ErrorCodeInternalError, oe_Message = ''internal server error''\<rparr>)
         \<and> (c = 404 \<longrightarrow> e = \<lparr>oe_Code = ErrorCodeTaskNotFound, oe_Message = ''task ID not found''\<rparr>)
         \<and> (c = 400 \<longrightarrow> oe_Code e \<in> {ErrorCodeInvalidRequestBody, ErrorCodeInvalidParameter})))"
proof -
  let ?L = "se_lib E"
  have valid: "Task_Validate (Some t) = None"
    if "toOASTask u = Inr t \<or> toOASTaskView v = Inr t" for t u v
    using that toOASStatus_valid
    by (auto simp: toOASTask_def toOASTaskView_def split: sum.splits)
  obtain e where e: "ended ?L (op_of_call (serve_route ?L [] r)) (ex_rw ex) (ex_tel ex) e ex'"
    "case serve_route ?L [] r of
        CallCreateTask esc \<Rightarrow> create_ends ?L h ctx r (ex_app ex) (ex_app ex') e
      | CallGetTask arg esc \<Rightarrow> get_ends ?L h ctx arg esc (ex_app ex) (ex_app ex') e
      | _ \<Rightarrow> False"
    by (rule serve_operation [OF assms(1,2,5,4)])
  have ct: "header_of (rw_sent (ex_rw ex')) ''Content-Type'' = ''application/json; charset=utf-8''"
    using e(1) by (simp add: ended_def header_of_Set)
  consider (failed) err where "e = Failed err"
    | (created) q s s' t where "Handler_CreateTask ?L h ctx q s = (s', Inr (CreateTaskResTask t))"
        "e = Answered 201 (Task_Encode t [])"
    | (found) p s s' t where "Handler_GetTask h ctx p s = (s', Inr (GetTaskResTask t))"
        "e = Answered 200 (Task_Encode t [])"
    | (missing) "e = Answered 404 (GetTaskNotFound_Encode
          \<lparr>oe_Code = ErrorCodeTaskNotFound, oe_Message = ''task ID not found''\<rparr> [])"
    using e(1,2) assms(3)
    by (auto simp: ended_def elim!: create_endsE get_endsE split: route_call.splits)
  then show ?thesis
  proof cases
    case failed
    then show ?thesis
      using e(1) assms(3,6) ct
      by (auto simp: ended_def classify_error_def Error_MarshalJSON_def marshal_def
          ErrorCode_AllValues_def split: option.splits)
  next
    case created
    have "Task_Validate (Some t) = None"
      using created(1) valid
      by (auto simp: Handler_CreateTask_def Let_def case_prod_beta split: sum.splits prod.splits)
    then show ?thesis
      using e(1) assms(6) ct created(2) by (auto simp: ended_def Task_MarshalJSON_def marshal_def)
  next
    case found
    have "Task_Validate (Some t) = None"
      using found(1) valid
      by (auto simp: Handler_GetTask_def split: sum.splits prod.splits if_splits)
    then show ?thesis
      using e(1) assms(6) ct found(2) by (auto simp: ended_def Task_MarshalJSON_def marshal_def)
  next
    case missing
    then show ?thesis
      using e(1) assms(6) ct
      by (auto simp: ended_def Error_MarshalJSON_def marshal_def GetTaskNotFound_Encode_def
          ErrorCode_AllValues_def)
  qed
qed

theorem answers_are_contract_documents_witness:
  "\<exists>srv e. api_server (demo_server_env demo_jx) demo_backend = Inr srv
     \<and> Error_MarshalJSON demo_jx e = Inr (rw_body (ex_rw (ServeHTTP (demo_lib demo_jx) srv ()
           (demo_http ''GET'' ''/v1/tasks/xx'') (demo_exchange None))))
     \<and> oe_Code e = ErrorCodeTaskNotFound"
proof -
  obtain srv where srv: "api_server (demo_server_env demo_jx) demo_backend = Inr srv"
    by (rule demo_server)
  let ?ex' = "ServeHTTP (demo_lib demo_jx) srv () (demo_http ''GET'' ''/v1/tasks/xx'')
      (demo_exchange None)"
  have dec: "decodeGetTaskParams (demo_lib demo_jx) ''xx'' False = Inr \<lparr>gp_ID = 2\<rparr>"
    by (simp add: decodeGetTaskParams_def demo_lib_def)
  have miss: "\<exists>oe. Handler_GetTask demo_backend () \<lparr>gp_ID = 2\<rparr> s = ((), Inr (GetTaskNotFound oe))" for s
    by (simp add: Handler_GetTask_def demo_backend_def NewHandler_def)
  have "is_operation (serve_route (se_lib (demo_server_env demo_jx)) []
      (demo_http ''GET'' ''/v1/tasks/xx''))"
    by (simp add: demo_routes is_operation_def)
  then obtain e where "ended (demo_lib demo_jx) GetTaskOperation (ex_rw (demo_exchange None)) [] e ?ex'"
    "get_ends (demo_lib demo_jx) demo_backend () ''xx'' False () () e"
    by (rule serve_operation [OF srv demo_exchange_fresh(1) refl, of _ "()"])
      (auto simp: demo_routes op_of_call_def demo_exchange_def)
  with dec miss have st: "rw_status (ex_rw ?ex') = Some 404"
    by (auto simp: ending_status_def dest!: ended_status elim!: get_endsE)
  have "lib_jx (demo_lib demo_jx) = demo_jx" by (simp add: demo_lib_def)
  with answers_are_contract_documents [OF srv demo_exchange_fresh(1), of
      "demo_http ''GET'' ''/v1/tasks/xx''" ?ex' "()" 404] st
  obtain e where "Error_MarshalJSON demo_jx e = Inr (rw_body (ex_rw ?ex'))"
    "e = \<lparr>oe_Code = ErrorCodeTaskNotFound, oe_Message = ''task ID not found''\<rparr>"
    unfolding demo_server_lib
    by (auto simp: demo_routes is_operation_def demo_exchange_def demo_writer_def)
  with srv show ?thesis by (intro exI [of _ srv] exI [of _ e]) simp
qed



text \<open>
  C23. A body that cannot be written: the task was created and the status line 201 went out, but
  the error handler then runs on the same response, the recorder notes its 500, and the request
  counter reports a 500 for a request that was answered with 201.
\<close>

theorem lost_body_counted_as_500:
  assumes "api_server E h = Inr srv" and "fresh_writer (ex_rw ex)"
    and "serve_route (se_lib E) [] r = CallCreateTask esc"
    and "decodeCreateTaskRequest (se_lib E) r = (Some q, raw, cl, None)"
    and "Handler_CreateTask (se_lib E) h ctx q (ex_app ex) = (s', Inr res)"
    and "rw_werr (ex_rw ex) = Some err"
    and "\<forall>x\<in>set (err_tree err). \<not> is_DecodeRequestError x \<and> \<not> is_DecodeParamsError x"
  shows "ex_app (ServeHTTP (se_lib E) srv ctx r ex) = s'
    \<and> rw_status (ex_rw (ServeHTTP (se_lib E) srv ctx r ex)) = Some 201
    \<and> TelRequestsAdd CreateTaskOperation 500 \<in> set (ex_tel (ServeHTTP (se_lib E) srv ctx r ex))"
proof -
  let ?L = "se_lib E" and ?ex' = "ServeHTTP (se_lib E) srv ctx r ex"
  obtain e where e: "ended ?L CreateTaskOperation (ex_rw ex) (ex_tel ex) e ?ex'"
    "create_ends ?L h ctx r (ex_app ex) (ex_app ?ex') e"
    by (rule serve_operation [OF assms(1,2) refl, of r ctx])
      (use assms(3) in \<open>auto simp: is_operation_def op_of_call_def\<close>)
  obtain t where "e = Answered 201 (Task_Encode t []) \<or> (\<exists>x. e = Broken 201 x)" "ex_app ?ex' = s'"
    using e(2) assms(4,5) by (auto elim!: create_endsE)
  with e(1) assms(6) have "e = Broken 201 err" by (auto simp: ended_def)
  moreover have "fst (classify_error ?L (Wrapf ''write'' err)) = 500"
    using assms(7) by (simp add: classify_error_def errors_As_simps errors_As_None_iff [THEN iffD2])
  ultimately show ?thesis
    using e(1) \<open>ex_app ?ex' = s'\<close> by (auto simp: ended_def Let_def)
qed

theorem lost_body_counted_as_500_witness:
  "\<exists>srv. api_server (demo_server_env demo_jx) demo_backend = Inr srv
     \<and> rw_status (ex_rw (ServeHTTP (demo_lib demo_jx) srv () (demo_http ''POST'' ''/v1/tasks'')
         (demo_exchange (Some (Plain ''reset''))))) = Some 201
     \<and> TelRequestsAdd CreateTaskOperation 500 \<in> set (ex_tel (ServeHTTP (demo_lib demo_jx) srv ()
         (demo_http ''POST'' ''/v1/tasks'') (demo_exchange (Some (Plain ''reset'')))))"
proof -
  obtain srv where srv: "api_server (demo_server_env demo_jx) demo_backend = Inr srv"
    by (rule demo_server)
  let ?res = "CreateTaskResTask \<lparr>ot_ID = 7, ot_Status = ''pending'', ot_CreatedAt = zero_time\<rparr>"
  have "Handler_CreateTask (demo_lib demo_jx) demo_backend () (read_request demo_jx demo_request) () =
      ((), Inr ?res)"
    by code_simp
  moreover have "ex_app (demo_exchange w) = ()" for w by simp
  ultimately show ?thesis
    using lost_body_counted_as_500 [OF srv demo_exchange_fresh(2), of
        "demo_http ''POST'' ''/v1/tasks''" False "read_request demo_jx demo_request" "''{}''" None
        "()" "''reset''" "()" ?res "Plain ''reset''"] srv
    unfolding demo_server_lib
    by (auto simp: demo_routes demo_decoded demo_exchange_def demo_writer_def)
qed

end
