(* ===== verification/Pg_Schema.thy ===== *)
theory Pg_Schema
  imports Domain_Tasks
begin

text \<open>
  The database side of the program: the schema the goose migrations build, and the meaning of
  the two statement forms the queries use (\<open>INSERT \<dots> RETURNING\<close> and
  \<open>SELECT \<dots> WHERE column = $1\<close>) on a table of that schema. What Postgres decides
  by itself is a parameter: which texts and JSON documents it accepts (\<open>pg_types\<close>), and,
  per statement, the transaction time and whether the connection fails (\<open>pg_env\<close>).
\<close>

section \<open>Columns and schemas\<close>

datatype colval = VNull | VUuid uuid | VText string | VJsonb bytes | VTime int

datatype coltype = T_UUID | T_TEXT | T_JSONB | T_TIMESTAMPTZ

datatype coldefault = NoDefault | DefaultValue colval | DefaultNow

record column =
  c_name :: string
  c_type :: coltype
  c_notnull :: bool
  c_default :: coldefault

record schema =
  columns :: "column list"
  unique_columns :: "string list"
    \<comment> \<open>columns under a unique index that ignores NULL: the primary key and partial indexes\<close>

type_synonym row = "(string \<times> colval) list"

definition row_get :: "row \<Rightarrow> string \<Rightarrow> colval" where
  "row_get r n = (case map_of r n of None \<Rightarrow> VNull | Some v \<Rightarrow> v)"

section \<open>Migrations (migrations/00001, 00002)\<close>

definition empty_schema :: schema where
  "empty_schema = \<lparr>columns = [], unique_columns = []\<rparr>"

definition migrate_up_00001 :: "schema \<Rightarrow> schema" where
  "migrate_up_00001 sc =
     \<lparr>columns =
        [\<lparr>c_name = ''id'', c_type = T_UUID, c_notnull = True, c_default = NoDefault\<rparr>,
         \<lparr>c_name = ''idempotency_key'', c_type = T_TEXT, c_notnull = False,
            c_default = NoDefault\<rparr>,
         \<lparr>c_name = ''payload'', c_type = T_JSONB, c_notnull = True,
            c_default = DefaultValue (VJsonb ''{}'')\<rparr>,
         \<lparr>c_name = ''status'', c_type = T_TEXT, c_notnull = True,
            c_default = DefaultValue (VText ''pending'')\<rparr>,
         \<lparr>c_name = ''created_at'', c_type = T_TIMESTAMPTZ, c_notnull = True,
            c_default = DefaultNow\<rparr>],
      unique_columns = [''id'', ''idempotency_key'']\<rparr>"

definition add_column :: "column \<Rightarrow> schema \<Rightarrow> schema" where
  "add_column c sc = sc\<lparr>columns := columns sc @ [c]\<rparr>"

definition drop_default :: "string \<Rightarrow> schema \<Rightarrow> schema" where
  "drop_default n sc =
     sc\<lparr>columns := map (\<lambda>c. if c_name c = n then c\<lparr>c_default := NoDefault\<rparr> else c) (columns sc)\<rparr>"

definition drop_column :: "string \<Rightarrow> schema \<Rightarrow> schema" where
  "drop_column n sc =
     sc\<lparr>columns := filter (\<lambda>c. c_name c \<noteq> n) (columns sc),
        unique_columns := filter (\<lambda>u. u \<noteq> n) (unique_columns sc)\<rparr>"

definition migrate_up_00002 :: "schema \<Rightarrow> schema" where
  "migrate_up_00002 sc =
     drop_default ''handler''
       (add_column \<lparr>c_name = ''handler'', c_type = T_TEXT, c_notnull = True,
                     c_default = DefaultValue (VText [])\<rparr> sc)"

text \<open>The rows that exist when a column is added take its default.\<close>

definition migrate_rows_00002 :: "row list \<Rightarrow> row list" where
  "migrate_rows_00002 rs = map (\<lambda>r. r @ [(''handler'', VText [])]) rs"

definition migrate_down_00002 :: "schema \<Rightarrow> schema" where
  "migrate_down_00002 sc = drop_column ''handler'' sc"

definition tasks_schema :: schema where
  "tasks_schema = migrate_up_00002 (migrate_up_00001 empty_schema)"

section \<open>Statements\<close>

text \<open>
  A statement's arguments as the driver sends them: a \<open>uuid.UUID\<close>, a \<open>string\<close> or
  \<open>*string\<close> (nil is NULL), a \<open>[]byte\<close> (nil is NULL).
\<close>

datatype sql_arg = ArgUUID uuid | ArgText "string option" | ArgBytes "bytes option"

datatype sql =
    SqlInsert "string list" "string list"   \<comment> \<open>columns of the VALUES list; RETURNING list\<close>
  | SqlSelect "string list" string          \<comment> \<open>selected columns; the column compared with $1\<close>

text \<open>What the server accepts as a value of a type, with its canonical form for JSONB.\<close>

record pg_types =
  text_in :: "string \<Rightarrow> bool"
  jsonb_in :: "bytes \<Rightarrow> bytes option"

fun bind_arg :: "pg_types \<Rightarrow> coltype \<Rightarrow> sql_arg \<Rightarrow> gerr + colval" where
  "bind_arg T T_UUID (ArgUUID u) = Inr (VUuid u)"
| "bind_arg T T_TEXT (ArgText None) = Inr VNull"
| "bind_arg T T_TEXT (ArgText (Some s)) =
     (if text_in T s then Inr (VText s) else Inl (PgError ''22021''))"
| "bind_arg T T_JSONB (ArgBytes None) = Inr VNull"
| "bind_arg T T_JSONB (ArgBytes (Some b)) =
     (case jsonb_in T b of None \<Rightarrow> Inl (PgError ''22P02'') | Some b' \<Rightarrow> Inr (VJsonb b'))"
| "bind_arg T _ _ = Inl (PgError ''42804'')"

text \<open>The value a column of a new row gets: its argument, or its default.\<close>

definition column_value ::
  "pg_types \<Rightarrow> int \<Rightarrow> (string \<times> sql_arg) list \<Rightarrow> column \<Rightarrow> gerr + colval" where
  "column_value T now given c =
     (case map_of given (c_name c) of
        Some a \<Rightarrow> bind_arg T (c_type c) a
      | None \<Rightarrow>
          (case c_default c of
             NoDefault \<Rightarrow> Inr VNull
           | DefaultValue v \<Rightarrow> Inr v
           | DefaultNow \<Rightarrow> Inr (VTime now)))"

fun build_row ::
  "pg_types \<Rightarrow> int \<Rightarrow> (string \<times> sql_arg) list \<Rightarrow> column list \<Rightarrow> gerr + row" where
  "build_row T now given [] = Inr []"
| "build_row T now given (c # cs) =
     (case column_value T now given c of
        Inl e \<Rightarrow> Inl e
      | Inr v \<Rightarrow>
          (case build_row T now given cs of
             Inl e \<Rightarrow> Inl e
           | Inr r \<Rightarrow> Inr ((c_name c, v) # r)))"

definition not_null_ok :: "column list \<Rightarrow> row \<Rightarrow> bool" where
  "not_null_ok cs r = list_all (\<lambda>c. c_notnull c \<longrightarrow> row_get r (c_name c) \<noteq> VNull) cs"

definition unique_ok :: "string list \<Rightarrow> row list \<Rightarrow> row \<Rightarrow> bool" where
  "unique_ok us rs r =
     list_all (\<lambda>u. row_get r u = VNull \<or> list_all (\<lambda>r'. row_get r' u \<noteq> row_get r u) rs) us"

definition eval_insert ::
  "pg_types \<Rightarrow> schema \<Rightarrow> int \<Rightarrow> string list \<Rightarrow> string list \<Rightarrow> sql_arg list \<Rightarrow> row list
     \<Rightarrow> row list \<times> (gerr + colval list)" where
  "eval_insert T sc now cols ret args rs =
     (case build_row T now (zip cols args) (columns sc) of
        Inl e \<Rightarrow> (rs, Inl e)
      | Inr r \<Rightarrow>
          if \<not> not_null_ok (columns sc) r then (rs, Inl (PgError ''23502''))
          else if \<not> unique_ok (unique_columns sc) rs r then (rs, Inl (PgError ''23505''))
          else (rs @ [r], Inr (map (row_get r) ret)))"

text \<open>
  \<open>column = NULL\<close> is never true, so a NULL argument selects nothing; no row is
  \<open>pgx.ErrNoRows\<close> at \<open>Scan\<close>.
\<close>

definition eval_select ::
  "pg_types \<Rightarrow> schema \<Rightarrow> string list \<Rightarrow> string \<Rightarrow> sql_arg list \<Rightarrow> row list
     \<Rightarrow> gerr + colval list" where
  "eval_select T sc sel col args rs =
     (case (List.find (\<lambda>c. c_name c = col) (columns sc), args) of
        (Some c, [a]) \<Rightarrow>
          (case bind_arg T (c_type c) a of
             Inl e \<Rightarrow> Inl e
           | Inr v \<Rightarrow>
               if v = VNull then Inl (Sentinel ErrNoRows)
               else (case List.find (\<lambda>r. row_get r col = v) rs of
                       None \<Rightarrow> Inl (Sentinel ErrNoRows)
                     | Some r \<Rightarrow> Inr (map (row_get r) sel)))
      | _ \<Rightarrow> Inl (PgError ''42703''))"

fun eval_sql ::
  "pg_types \<Rightarrow> schema \<Rightarrow> int \<Rightarrow> sql \<Rightarrow> sql_arg list \<Rightarrow> row list
     \<Rightarrow> row list \<times> (gerr + colval list)" where
  "eval_sql T sc now (SqlInsert cols ret) args rs = eval_insert T sc now cols ret args rs"
| "eval_sql T sc now (SqlSelect sel col) args rs = (rs, eval_select T sc sel col args rs)"

section \<open>The server as seen through a connection\<close>

text \<open>
  The environment decides, for the n-th statement, the time \<open>now()\<close> returns and what
  happens to the connection: nothing, a failure before the statement runs, or a failure after
  it has committed and before the answer arrives. \<open>pg_exec\<close> works on any extension of the
  record, so the process state can hold the database among other things.
\<close>

datatype fault = NoFault | FailBefore string | FailAfter string

record pg_db =
  tbl :: "row list"
  pg_env :: "nat \<Rightarrow> int \<times> fault"
  pg_count :: nat

definition pg_exec ::
  "pg_types \<Rightarrow> sql \<Rightarrow> sql_arg list \<Rightarrow> ('x pg_db_scheme, colval list) op_res" where
  "pg_exec T st args db =
     (let (now, f) = pg_env db (pg_count db);
          db1 = db\<lparr>pg_count := Suc (pg_count db)\<rparr>;
          (rs, res) = eval_sql T tasks_schema now st args (tbl db1)
      in case f of
           NoFault \<Rightarrow> (db1\<lparr>tbl := rs\<rparr>, res)
         | FailBefore m \<Rightarrow> (db1, Inl (Plain m))
         | FailAfter m \<Rightarrow> (db1\<lparr>tbl := rs\<rparr>, Inl (Plain m)))"

section \<open>Rows of the tasks table\<close>

text \<open>A row of \<open>tasks_schema\<close>, by its typed columns.\<close>

definition mk_row ::
  "uuid \<Rightarrow> string option \<Rightarrow> bytes \<Rightarrow> string \<Rightarrow> int \<Rightarrow> string \<Rightarrow> row" where
  "mk_row i k p st ts h =
     [(''id'', VUuid i),
      (''idempotency_key'', case k of None \<Rightarrow> VNull | Some s \<Rightarrow> VText s),
      (''payload'', VJsonb p), (''status'', VText st), (''created_at'', VTime ts),
      (''handler'', VText h)]"

definition wf_row :: "row \<Rightarrow> bool" where
  "wf_row r = (\<exists>i k p st ts h. r = mk_row i k p st ts h)"

definition wf_tbl :: "row list \<Rightarrow> bool" where
  "wf_tbl rs \<longleftrightarrow> (\<forall>r\<in>set rs. wf_row r)
     \<and> distinct (map (\<lambda>r. row_get r ''id'') rs)
     \<and> distinct (map (\<lambda>r. row_get r ''idempotency_key'')
          (filter (\<lambda>r. row_get r ''idempotency_key'' \<noteq> VNull) rs))"

lemma mk_row_get [simp]:
  "row_get (mk_row i k p st ts h) ''id'' = VUuid i"
  "row_get (mk_row i k p st ts h) ''idempotency_key'' =
     (case k of None \<Rightarrow> VNull | Some s \<Rightarrow> VText s)"
  "row_get (mk_row i k p st ts h) ''payload'' = VJsonb p"
  "row_get (mk_row i k p st ts h) ''status'' = VText st"
  "row_get (mk_row i k p st ts h) ''created_at'' = VTime ts"
  "row_get (mk_row i k p st ts h) ''handler'' = VText h"
  by (simp_all add: row_get_def mk_row_def)

lemma wf_row_mk_row [simp, intro]: "wf_row (mk_row i k p st ts h)"
  unfolding wf_row_def by blast

lemma tasks_schema_columns:
  "map c_name (columns tasks_schema) =
     [''id'', ''idempotency_key'', ''payload'', ''status'', ''created_at'', ''handler'']"
  by (simp add: tasks_schema_def migrate_up_00002_def migrate_up_00001_def add_column_def
      drop_default_def)

lemma tasks_schema_unfold:
  "tasks_schema =
     \<lparr>columns =
        [\<lparr>c_name = ''id'', c_type = T_UUID, c_notnull = True, c_default = NoDefault\<rparr>,
         \<lparr>c_name = ''idempotency_key'', c_type = T_TEXT, c_notnull = False,
            c_default = NoDefault\<rparr>,
         \<lparr>c_name = ''payload'', c_type = T_JSONB, c_notnull = True,
            c_default = DefaultValue (VJsonb ''{}'')\<rparr>,
         \<lparr>c_name = ''status'', c_type = T_TEXT, c_notnull = True,
            c_default = DefaultValue (VText ''pending'')\<rparr>,
         \<lparr>c_name = ''created_at'', c_type = T_TIMESTAMPTZ, c_notnull = True,
            c_default = DefaultNow\<rparr>,
         \<lparr>c_name = ''handler'', c_type = T_TEXT, c_notnull = True, c_default = NoDefault\<rparr>],
      unique_columns = [''id'', ''idempotency_key'']\<rparr>"
  by (simp add: tasks_schema_def migrate_up_00002_def migrate_up_00001_def add_column_def
      drop_default_def)

lemma wf_tbl_append:
  assumes "wf_tbl rs" and "wf_row r"
    and "\<forall>r'\<in>set rs. row_get r' ''id'' \<noteq> row_get r ''id''"
    and "row_get r ''idempotency_key'' = VNull
       \<or> (\<forall>r'\<in>set rs. row_get r' ''idempotency_key'' \<noteq> row_get r ''idempotency_key'')"
  shows "wf_tbl (rs @ [r])"
  using assms by (auto simp: wf_tbl_def)

end
