(* ===== verification/Sqlc_Queries.thy ===== *)
theory Sqlc_Queries
  imports Pg_Schema
begin

text \<open>
  Package internal/storage/queries: the row struct, the statement texts and the three query
  methods over a \<open>DBTX\<close>. A \<open>DBTX\<close> is modelled by what the methods use of it,
  \<open>QueryRow\<close> followed by reading the columns of the row.
\<close>

section \<open>models.go, db.go\<close>

record q_task =
  q_ID :: uuid
  q_IdempotencyKey :: "string option"
  q_Payload :: "bytes option"
  q_Status :: string
  q_CreatedAt :: gotime
  q_Handler :: string

type_synonym 'db dbtx = "sql \<Rightarrow> sql_arg list \<Rightarrow> ('db, colval list) op_res"

record 'db queries = q_db :: "'db dbtx"

definition queries_New :: "'db dbtx \<Rightarrow> 'db queries" where
  "queries_New db = \<lparr>q_db = db\<rparr>"

text \<open>The receiver is only copied: the methods of the result run on the transaction alone.\<close>

definition queries_WithTx :: "'db queries \<Rightarrow> 'db dbtx \<Rightarrow> 'db queries" where
  "queries_WithTx q tx = \<lparr>q_db = tx\<rparr>"

lemma queries_WithTx_New: "queries_WithTx q tx = queries_New tx"
  by (simp add: queries_WithTx_def queries_New_def)

section \<open>Scan\<close>

text \<open>\<open>Scan\<close> of one column into a destination of each Go type.\<close>

fun scan_uuid :: "colval \<Rightarrow> gerr + uuid" where
  "scan_uuid (VUuid u) = Inr u"
| "scan_uuid _ = Inl (Plain ''cannot scan into uuid.UUID'')"

fun scan_string :: "colval \<Rightarrow> gerr + string" where
  "scan_string (VText s) = Inr s"
| "scan_string _ = Inl (Plain ''cannot scan into string'')"

fun scan_string_ptr :: "colval \<Rightarrow> gerr + string option" where
  "scan_string_ptr VNull = Inr None"
| "scan_string_ptr (VText s) = Inr (Some s)"
| "scan_string_ptr _ = Inl (Plain ''cannot scan into string pointer'')"

fun scan_bytes :: "colval \<Rightarrow> gerr + bytes option" where
  "scan_bytes VNull = Inr None"
| "scan_bytes (VJsonb b) = Inr (Some b)"
| "scan_bytes _ = Inl (Plain ''cannot scan into []byte'')"

text \<open>A \<open>timestamptz\<close> has microseconds and is read in the local zone.\<close>

definition time_of_pg :: "int \<Rightarrow> gotime" where
  "time_of_pg us = \<lparr>wall = us * 1000, mono = None, zone = ''Local''\<rparr>"

fun scan_time :: "colval \<Rightarrow> gerr + gotime" where
  "scan_time (VTime us) = Inr (time_of_pg us)"
| "scan_time _ = Inl (Plain ''cannot scan into time.Time'')"

text \<open>
  The destinations in the order of every method's \<open>row.Scan\<close>:
  \<open>&i.ID, &i.IdempotencyKey, &i.Payload, &i.Status, &i.CreatedAt, &i.Handler\<close>.
\<close>

fun scan_task :: "colval list \<Rightarrow> gerr + q_task" where
  "scan_task [v1, v2, v3, v4, v5, v6] =
     (case scan_uuid v1 of Inl e \<Rightarrow> Inl e | Inr i \<Rightarrow>
      (case scan_string_ptr v2 of Inl e \<Rightarrow> Inl e | Inr k \<Rightarrow>
       (case scan_bytes v3 of Inl e \<Rightarrow> Inl e | Inr p \<Rightarrow>
        (case scan_string v4 of Inl e \<Rightarrow> Inl e | Inr st \<Rightarrow>
         (case scan_time v5 of Inl e \<Rightarrow> Inl e | Inr ts \<Rightarrow>
          (case scan_string v6 of Inl e \<Rightarrow> Inl e | Inr h \<Rightarrow>
             Inr \<lparr>q_ID = i, q_IdempotencyKey = k, q_Payload = p, q_Status = st,
                  q_CreatedAt = ts, q_Handler = h\<rparr>))))))"
| "scan_task _ = Inl (Plain ''number of field descriptions must equal number of destinations'')"

definition query_task ::
  "'db queries \<Rightarrow> sql \<Rightarrow> sql_arg list \<Rightarrow> ('db, q_task) op_res" where
  "query_task q st args s =
     (case q_db q st args s of
        (s', Inl e) \<Rightarrow> (s', Inl e)
      | (s', Inr cols) \<Rightarrow> (s', scan_task cols))"

section \<open>tasks.sql.go\<close>

definition createTask :: sql where
  "createTask =
     SqlInsert [''id'', ''idempotency_key'', ''payload'', ''handler'']
       [''id'', ''idempotency_key'', ''payload'', ''status'', ''created_at'', ''handler'']"

definition getTaskByID :: sql where
  "getTaskByID =
     SqlSelect [''id'', ''idempotency_key'', ''payload'', ''status'', ''created_at'', ''handler'']
       ''id''"

definition getTaskByIdempotencyKey :: sql where
  "getTaskByIdempotencyKey =
     SqlSelect [''id'', ''idempotency_key'', ''payload'', ''status'', ''created_at'', ''handler'']
       ''idempotency_key''"

record create_task_params =
  cp_ID :: uuid
  cp_IdempotencyKey :: "string option"
  cp_Payload :: "bytes option"
  cp_Handler :: string

definition CreateTask :: "'db queries \<Rightarrow> create_task_params \<Rightarrow> ('db, q_task) op_res" where
  "CreateTask q arg =
     query_task q createTask
       [ArgUUID (cp_ID arg), ArgText (cp_IdempotencyKey arg), ArgBytes (cp_Payload arg),
        ArgText (Some (cp_Handler arg))]"

definition GetTaskByID :: "'db queries \<Rightarrow> uuid \<Rightarrow> ('db, q_task) op_res" where
  "GetTaskByID q i = query_task q getTaskByID [ArgUUID i]"

definition GetTaskByIdempotencyKey ::
  "'db queries \<Rightarrow> string option \<Rightarrow> ('db, q_task) op_res" where
  "GetTaskByIdempotencyKey q idempotencyKey =
     query_task q getTaskByIdempotencyKey [ArgText idempotencyKey]"

lemmas sqlc_defs = CreateTask_def GetTaskByID_def GetTaskByIdempotencyKey_def query_task_def
  createTask_def getTaskByID_def getTaskByIdempotencyKey_def queries_New_def

section \<open>The statements on the tasks table\<close>

text \<open>
  What \<open>createTask\<close> does, with the schema's columns, defaults and indexes already
  applied: the proofs above this layer use this closed form.
\<close>

definition key_clash :: "string option \<Rightarrow> row list \<Rightarrow> bool" where
  "key_clash k rs =
     (case k of None \<Rightarrow> False
      | Some s \<Rightarrow> list_ex (\<lambda>r. row_get r ''idempotency_key'' = VText s) rs)"

definition id_clash :: "uuid \<Rightarrow> row list \<Rightarrow> bool" where
  "id_clash i rs = list_ex (\<lambda>r. row_get r ''id'' = VUuid i) rs"

definition insert_task ::
  "pg_types \<Rightarrow> int \<Rightarrow> uuid \<Rightarrow> string option \<Rightarrow> bytes option \<Rightarrow> string \<Rightarrow> row list
     \<Rightarrow> row list \<times> (gerr + colval list)" where
  "insert_task T now i k p h rs =
     (if (case k of None \<Rightarrow> False | Some s \<Rightarrow> \<not> text_in T s) then (rs, Inl (PgError ''22021''))
      else if (case p of None \<Rightarrow> False | Some b \<Rightarrow> jsonb_in T b = None)
        then (rs, Inl (PgError ''22P02''))
      else if \<not> text_in T h then (rs, Inl (PgError ''22021''))
      else case Option.bind p (jsonb_in T) of
             None \<Rightarrow> (rs, Inl (PgError ''23502''))
           | Some b \<Rightarrow>
               if id_clash i rs \<or> key_clash k rs then (rs, Inl (PgError ''23505''))
               else (rs @ [mk_row i k b StatusPending now h],
                     Inr (map snd (mk_row i k b StatusPending now h))))"

lemma insert_task_error_keeps: "insert_task T now i k p h rs = (rs', Inl e) \<Longrightarrow> rs' = rs"
  by (auto simp: insert_task_def split: if_splits option.splits)

lemma eval_createTask:
  "eval_sql T tasks_schema now createTask
     [ArgUUID i, ArgText k, ArgBytes p, ArgText (Some h)] rs = insert_task T now i k p h rs"
proof -
  have id: "id_clash i rs = (\<not> list_all (\<lambda>r'. row_get r' ''id'' \<noteq> VUuid i) rs)"
    by (induction rs) (simp_all add: id_clash_def)
  have key: "key_clash (Some s) rs =
      (\<not> list_all (\<lambda>r'. row_get r' ''idempotency_key'' \<noteq> VText s) rs)" for s
    by (induction rs) (simp_all add: key_clash_def)
  have nokey: "key_clash None rs = False"
    by (simp add: key_clash_def)
  show ?thesis
    by (cases k; cases p)
      (auto simp: createTask_def insert_task_def eval_insert_def tasks_schema_unfold
        column_value_def not_null_ok_def unique_ok_def id key nokey row_get_def mk_row_def
        StatusPending_def
        split: option.splits)
qed

lemma eval_getTaskByID:
  "eval_sql T tasks_schema now getTaskByID [ArgUUID i] rs =
     (rs, case List.find (\<lambda>r. row_get r ''id'' = VUuid i) rs of
            None \<Rightarrow> Inl (Sentinel ErrNoRows)
          | Some r \<Rightarrow> Inr (map (row_get r)
              [''id'', ''idempotency_key'', ''payload'', ''status'', ''created_at'', ''handler'']))"
  by (simp add: getTaskByID_def eval_select_def tasks_schema_unfold)

lemma eval_getTaskByIdempotencyKey:
  "eval_sql T tasks_schema now getTaskByIdempotencyKey [ArgText (Some s)] rs =
     (rs, if \<not> text_in T s then Inl (PgError ''22021'')
          else case List.find (\<lambda>r. row_get r ''idempotency_key'' = VText s) rs of
            None \<Rightarrow> Inl (Sentinel ErrNoRows)
          | Some r \<Rightarrow> Inr (map (row_get r)
              [''id'', ''idempotency_key'', ''payload'', ''status'', ''created_at'', ''handler'']))"
  by (simp add: getTaskByIdempotencyKey_def eval_select_def tasks_schema_unfold)

lemma scan_mk_row [simp]:
  "scan_task (map snd (mk_row i k b st ts h)) =
     Inr \<lparr>q_ID = i, q_IdempotencyKey = k, q_Payload = Some b, q_Status = st,
          q_CreatedAt = time_of_pg ts, q_Handler = h\<rparr>"
  by (cases k) (simp_all add: mk_row_def)

lemma select_mk_row:
  "map (row_get (mk_row i k b st ts h))
     [''id'', ''idempotency_key'', ''payload'', ''status'', ''created_at'', ''handler''] =
   map snd (mk_row i k b st ts h)"
  by (simp add: mk_row_def row_get_def)

text \<open>The table stays well formed: typed columns, distinct ids, distinct keys.\<close>

lemma insert_task_wf:
  assumes "wf_tbl rs" and "insert_task T now i k p h rs = (rs', res)"
  shows "wf_tbl rs'"
proof -
  have app: "wf_tbl (rs @ [mk_row i k b StatusPending now h])"
    if "\<not> id_clash i rs" and "\<not> key_clash k rs" for b
    using that assms(1)
    by (intro wf_tbl_append)
      (auto simp: id_clash_def key_clash_def list_ex_iff split: option.splits)
  show ?thesis
    using assms app
    by (auto simp: insert_task_def split: if_splits option.splits bind_splits)
qed

end
