(* ===== verification/Repo_Tasks.thy ===== *)
theory Repo_Tasks
  imports Sqlc_Queries Task_Ports
begin

text \<open>
  internal/repository and internal/repository/tasks: the Resolver seam, the mapping between rows
  and aggregates, the translation of driver errors into the domain's sentinels, and the three
  repository methods. The theory ends with the proof that the repository on the tasks table
  keeps the laws of \<open>task_store\<close>.
\<close>

section \<open>dbtx.go\<close>

type_synonym ('c, 's) resolver = "'c \<Rightarrow> 's dbtx"

section \<open>mapper.go\<close>

definition toDomain :: "q_task \<Rightarrow> task" where
  "toDomain row =
     FromPersistence (q_ID row) (q_Status row) (q_Handler row) (q_Payload row) (q_CreatedAt row)"

definition toRow :: "task \<Rightarrow> string option \<Rightarrow> create_task_params" where
  "toRow t idempotencyKey =
     \<lparr>cp_ID = t_id t, cp_IdempotencyKey = idempotencyKey, cp_Payload = t_payload t,
      cp_Handler = t_handler t\<rparr>"

section \<open>postgres.go\<close>

definition uniqueViolation :: string where "uniqueViolation = ''23505''"

definition translate :: "gerr \<Rightarrow> gerr" where
  "translate err = (if errors_Is err ErrNoRows then Sentinel ErrNotFound else err)"

definition isUniqueViolation :: "gerr \<Rightarrow> bool" where
  "isUniqueViolation err =
     (case errors_As is_PgError err of
        Some (PgError code) \<Rightarrow> code = uniqueViolation
      | _ \<Rightarrow> False)"

record ('c, 's) repo = rp_resolver :: "('c, 's) resolver"

definition repo_New :: "('c, 's) resolver \<Rightarrow> ('c, 's) repo" where
  "repo_New r = \<lparr>rp_resolver = r\<rparr>"

definition Repo_Insert :: "('c, 's) repo \<Rightarrow> 'c \<Rightarrow> task \<Rightarrow> string option \<Rightarrow> 's op_err" where
  "Repo_Insert r ctx t idempotencyKey s =
     (let q = queries_New (rp_resolver r ctx)
      in case CreateTask q (toRow t idempotencyKey) s of
           (s', Inl err) \<Rightarrow>
             if isUniqueViolation err
             then (s', Some (WrapErrorf ''insert task %s: %w'' [ArgUuid (t_id t)] (Sentinel ErrConflict)))
             else (s', Some (WrapErrorf ''insert task %s: %w'' [ArgUuid (t_id t)] err))
         | (s', Inr _) \<Rightarrow> (s', None))"

definition Repo_Get :: "('c, 's) repo \<Rightarrow> 'c \<Rightarrow> uuid \<Rightarrow> ('s, task) op_res" where
  "Repo_Get r ctx i s =
     (let q = queries_New (rp_resolver r ctx)
      in case GetTaskByID q i s of
           (s', Inl err) \<Rightarrow> (s', Inl (WrapErrorf ''get task %s: %w'' [ArgUuid i] (translate err)))
         | (s', Inr row) \<Rightarrow> (s', Inr (toDomain row)))"

definition Repo_GetByIdempotencyKey ::
  "('c, 's) repo \<Rightarrow> 'c \<Rightarrow> string \<Rightarrow> ('s, task) op_res" where
  "Repo_GetByIdempotencyKey r ctx key s =
     (let q = queries_New (rp_resolver r ctx)
      in case GetTaskByIdempotencyKey q (Some key) s of
           (s', Inl err) \<Rightarrow> (s', Inl (Wrapf ''get task by idempotency key'' (translate err)))
         | (s', Inr row) \<Rightarrow> (s', Inr (toDomain row)))"

text \<open>The repository as an implementation of the port, which the Go test asserts at compile time.\<close>

definition as_tasks_repo :: "('c, 's) repo \<Rightarrow> ('c, 's) tasks_repo" where
  "as_tasks_repo r =
     \<lparr>repo_Insert = Repo_Insert r, repo_Get = Repo_Get r,
      repo_GetByIdempotencyKey = Repo_GetByIdempotencyKey r\<rparr>"

lemma as_tasks_repo_sel [simp]:
  "repo_Insert (as_tasks_repo r) = Repo_Insert r"
  "repo_Get (as_tasks_repo r) = Repo_Get r"
  "repo_GetByIdempotencyKey (as_tasks_repo r) = Repo_GetByIdempotencyKey r"
  by (simp_all add: as_tasks_repo_def)

section \<open>Errors that leave the repository\<close>

lemma isUniqueViolation_simps [simp, err_simps]:
  "isUniqueViolation (PgError c) = (c = ''23505'')"
  "isUniqueViolation (Plain m) = False"
  "isUniqueViolation (Sentinel x) = False"
  "isUniqueViolation (Wrapf p e) = isUniqueViolation e"
  by (simp_all add: isUniqueViolation_def err_simps uniqueViolation_def)

lemma translate_simps [simp, err_simps]:
  "translate (Plain m) = Plain m"
  "translate (PgError c) = PgError c"
  "translate (Sentinel ErrNoRows) = Sentinel ErrNotFound"
  by (simp_all add: translate_def)

lemma translate_not_found: "errors_Is (translate e) ErrNotFound \<longleftrightarrow>
    errors_Is e ErrNoRows \<or> errors_Is e ErrNotFound"
  by (simp add: translate_def)

section \<open>The rows of the table as stored tasks\<close>

definition zero_q_task :: q_task where
  "zero_q_task = \<lparr>q_ID = 0, q_IdempotencyKey = None, q_Payload = None, q_Status = [],
     q_CreatedAt = \<lparr>wall = 0, mono = None, zone = ''UTC''\<rparr>, q_Handler = []\<rparr>"

definition row_q_task :: "row \<Rightarrow> q_task" where
  "row_q_task r = (case scan_task (map snd r) of Inl _ \<Rightarrow> zero_q_task | Inr q \<Rightarrow> q)"

definition row_stored :: "row \<Rightarrow> stored" where
  "row_stored r = (q_IdempotencyKey (row_q_task r), toDomain (row_q_task r))"

definition db_rows :: "'x pg_db_scheme \<Rightarrow> stored list" where
  "db_rows s = map row_stored (tbl s)"

definition db_ok :: "'x pg_db_scheme \<Rightarrow> bool" where
  "db_ok s = wf_tbl (tbl s)"

lemma row_stored_mk_row [simp]:
  "row_stored (mk_row i k b st ts h) = (k, FromPersistence i st h (Some b) (time_of_pg ts))"
  by (simp add: row_stored_def row_q_task_def toDomain_def)

lemma wf_row_key: "wf_row r \<Longrightarrow>
    row_get r ''idempotency_key'' = (case fst (row_stored r) of None \<Rightarrow> VNull | Some s \<Rightarrow> VText s)"
  by (auto simp: wf_row_def)

lemma wf_row_id: "wf_row r \<Longrightarrow> row_get r ''id'' = VUuid (t_id (snd (row_stored r)))"
  by (auto simp: wf_row_def)

lemma wf_row_scan:
  assumes "wf_row r"
  shows "map (row_get r)
       [''id'', ''idempotency_key'', ''payload'', ''status'', ''created_at'', ''handler''] = map snd r"
    and "scan_task (map snd r) = Inr (row_q_task r)"
  using assms by (auto simp: wf_row_def select_mk_row row_q_task_def simp del: list.map)

lemma wf_tbl_uniq_ids:
  "\<forall>r\<in>set rs. wf_row r \<Longrightarrow> distinct (map (\<lambda>r. row_get r ''id'') rs) \<Longrightarrow>
     distinct (map (\<lambda>r. t_id (snd (row_stored r))) rs)"
  by (induction rs) (auto simp: wf_row_id)

lemma wf_tbl_uniq_keys:
  "\<forall>r\<in>set rs. wf_row r \<Longrightarrow>
     distinct (map (\<lambda>r. row_get r ''idempotency_key'')
       (filter (\<lambda>r. row_get r ''idempotency_key'' \<noteq> VNull) rs)) \<Longrightarrow>
     distinct (filter (\<lambda>k. k \<noteq> None) (map (\<lambda>r. fst (row_stored r)) rs))"
proof (induction rs)
  case Nil
  then show ?case by simp
next
  case (Cons r rs)
  have "Some x \<notin> (\<lambda>r. fst (row_stored r)) ` set rs" if "fst (row_stored r) = Some x" for x
  proof
    assume "Some x \<in> (\<lambda>r. fst (row_stored r)) ` set rs"
    then obtain r' where r': "r' \<in> set rs" "fst (row_stored r') = Some x" by force
    then have "row_get r' ''idempotency_key'' = row_get r ''idempotency_key''"
      using that Cons.prems(1) by (simp add: wf_row_key)
    with r' that Cons.prems show False by (force simp: wf_row_key)
  qed
  with Cons show ?case
    by (cases "fst (row_stored r)") (auto simp: wf_row_key)
qed

lemma db_ok_uniq: "db_ok s \<Longrightarrow> uniq_rows (db_rows s)"
  using wf_tbl_uniq_ids [of "tbl s"] wf_tbl_uniq_keys [of "tbl s"]
  by (simp add: db_ok_def db_rows_def uniq_rows_def wf_tbl_def comp_def)

section \<open>The repository on the tasks table\<close>

text \<open>The repository whose resolver hands back a connection to the database.\<close>

definition pg_repo :: "pg_types \<Rightarrow> ('c, 'x pg_db_scheme) repo" where
  "pg_repo T = repo_New (\<lambda>ctx. pg_exec T)"

text \<open>
  Closed forms of the three methods: the environment's fault first, then the statement on the
  table.
\<close>

definition insert_error :: "uuid \<Rightarrow> gerr + colval list \<Rightarrow> gerr option" where
  "insert_error i res =
     (case res of
        Inl e \<Rightarrow> Some (WrapErrorf ''insert task %s: %w'' [ArgUuid i]
                   (if isUniqueViolation e then Sentinel ErrConflict else e))
      | Inr _ \<Rightarrow> None)"

lemma Repo_Insert_pg:
  "Repo_Insert (pg_repo T) ctx t k s =
     (let (now, f) = pg_env s (pg_count s);
          s1 = s\<lparr>pg_count := Suc (pg_count s)\<rparr>;
          (rs, res) = insert_task T now (t_id t) k (t_payload t) (t_handler t) (tbl s)
      in case f of
           NoFault \<Rightarrow> (s1\<lparr>tbl := rs\<rparr>, insert_error (t_id t) res)
         | FailBefore m \<Rightarrow> (s1, Some (WrapErrorf ''insert task %s: %w'' [ArgUuid (t_id t)] (Plain m)))
         | FailAfter m \<Rightarrow> (s1\<lparr>tbl := rs\<rparr>, Some (WrapErrorf ''insert task %s: %w'' [ArgUuid (t_id t)] (Plain m))))"
proof -
  have scan: "scan_task cols = Inl e \<Longrightarrow> False"
    if "insert_task T now (t_id t) k (t_payload t) (t_handler t) (tbl s) = (rs, Inr cols)"
    for now rs cols e
    using that by (auto simp: insert_task_def split: if_splits option.splits bind_splits)
  show ?thesis
    by (auto simp: Repo_Insert_def pg_repo_def repo_New_def CreateTask_def query_task_def
        queries_New_def pg_exec_def toRow_def eval_createTask insert_error_def Let_def
        dest: scan split: prod.splits fault.splits sum.splits)
qed

lemma Repo_Get_pg:
  assumes "db_ok s"
  shows "Repo_Get (pg_repo T) ctx i s =
     (s\<lparr>pg_count := Suc (pg_count s)\<rparr>,
      case snd (pg_env s (pg_count s)) of
        FailBefore m \<Rightarrow> Inl (WrapErrorf ''get task %s: %w'' [ArgUuid i] (Plain m))
      | FailAfter m \<Rightarrow> Inl (WrapErrorf ''get task %s: %w'' [ArgUuid i] (Plain m))
      | NoFault \<Rightarrow>
          (case List.find (\<lambda>x. t_id (snd x) = i) (db_rows s) of
             None \<Rightarrow> Inl (WrapErrorf ''get task %s: %w'' [ArgUuid i] (Sentinel ErrNotFound))
           | Some x \<Rightarrow> Inr (snd x)))"
proof -
  have wf: "\<forall>r\<in>set (tbl s). wf_row r"
    using assms by (simp add: db_ok_def wf_tbl_def)
  have find: "List.find (\<lambda>x. t_id (snd x) = i) (db_rows s) =
      map_option row_stored (List.find (\<lambda>r. row_get r ''id'' = VUuid i) (tbl s))"
    using wf unfolding db_rows_def find_map
    by (auto intro!: arg_cong [where f = "map_option row_stored"] find_cong simp: wf_row_id)
  show ?thesis
    using wf
    by (auto simp: Repo_Get_def pg_repo_def repo_New_def GetTaskByID_def query_task_def
        queries_New_def pg_exec_def eval_getTaskByID find wf_row_scan row_stored_def Let_def
        simp del: list.map
        dest!: find_SomeD split: prod.splits fault.splits option.splits)
qed

lemma Repo_GetByIdempotencyKey_pg:
  assumes "db_ok s"
  shows "Repo_GetByIdempotencyKey (pg_repo T) ctx k s =
     (s\<lparr>pg_count := Suc (pg_count s)\<rparr>,
      case snd (pg_env s (pg_count s)) of
        FailBefore m \<Rightarrow> Inl (Wrapf ''get task by idempotency key'' (Plain m))
      | FailAfter m \<Rightarrow> Inl (Wrapf ''get task by idempotency key'' (Plain m))
      | NoFault \<Rightarrow>
          if \<not> text_in T k then Inl (Wrapf ''get task by idempotency key'' (PgError ''22021''))
          else (case List.find (\<lambda>x. fst x = Some k) (db_rows s) of
             None \<Rightarrow> Inl (Wrapf ''get task by idempotency key'' (Sentinel ErrNotFound))
           | Some x \<Rightarrow> Inr (snd x)))"
proof -
  have wf: "\<forall>r\<in>set (tbl s). wf_row r"
    using assms by (simp add: db_ok_def wf_tbl_def)
  have find: "List.find (\<lambda>x. fst x = Some k) (db_rows s) =
      map_option row_stored (List.find (\<lambda>r. row_get r ''idempotency_key'' = VText k) (tbl s))"
    using wf unfolding db_rows_def find_map
    by (auto intro!: arg_cong [where f = "map_option row_stored"] find_cong
        simp: wf_row_key split: option.splits)
  show ?thesis
    using wf
    by (auto simp: Repo_GetByIdempotencyKey_def pg_repo_def repo_New_def
        GetTaskByIdempotencyKey_def query_task_def queries_New_def pg_exec_def
        eval_getTaskByIdempotencyKey find wf_row_scan row_stored_def Let_def
        simp del: list.map
        dest!: find_SomeD split: prod.splits fault.splits option.splits)
qed

text \<open>An insert on the table, seen through the stored tasks.\<close>

lemma insert_task_stored:
  assumes ok: "db_ok s"
    and run: "insert_task T now (t_id t) k (t_payload t) (t_handler t) (tbl s) = (rs, res)"
  shows "db_ok (s'\<lparr>tbl := rs\<rparr>)"
    and "res = Inr cols \<Longrightarrow> \<exists>d. map row_stored rs = db_rows s @ [(k, d)] \<and> stored_from t d"
    and "res = Inl e \<Longrightarrow> rs = tbl s"
    and "res = Inl e \<Longrightarrow> errors_Is (the (insert_error (t_id t) res)) ErrConflict \<Longrightarrow> taken t k (db_rows s)"
proof -
  show "db_ok (s'\<lparr>tbl := rs\<rparr>)"
    using insert_task_wf [OF ok [unfolded db_ok_def] run] by (simp add: db_ok_def)
  show "\<exists>d. map row_stored rs = db_rows s @ [(k, d)] \<and> stored_from t d" if "res = Inr cols"
    using run that
    by (auto simp: insert_task_def db_rows_def stored_from_def
        split: if_splits option.splits bind_splits)
  show "rs = tbl s" if "res = Inl e"
    using run that by (auto dest: insert_task_error_keeps)
  have wf: "\<forall>r\<in>set (tbl s). wf_row r"
    using ok by (simp add: db_ok_def wf_tbl_def)
  have clash: "id_clash (t_id t) (tbl s) \<or> key_clash k (tbl s) \<Longrightarrow> taken t k (db_rows s)"
    using wf
    by (force simp: id_clash_def key_clash_def taken_def db_rows_def list_ex_iff wf_row_id wf_row_key
        image_iff split: option.splits)
  show "taken t k (db_rows s)" if "res = Inl e" "errors_Is (the (insert_error (t_id t) res)) ErrConflict"
    using run that clash
    by (auto simp: insert_task_def insert_error_def split: if_splits option.splits bind_splits)
qed

text \<open>One insert through the repository, under any fault.\<close>

lemma Repo_Insert_effect:
  assumes ok: "db_ok s" and run: "Repo_Insert (pg_repo T) ctx t k s = (s', r)"
  shows "db_ok s'"
    and "r = None \<Longrightarrow> \<exists>d. db_rows s' = db_rows s @ [(k, d)] \<and> stored_from t d"
    and "r = Some e \<Longrightarrow>
      db_rows s' = db_rows s \<or> (\<exists>d. db_rows s' = db_rows s @ [(k, d)] \<and> stored_from t d)"
    and "r = Some e \<Longrightarrow> errors_Is e ErrConflict \<Longrightarrow>
      db_rows s' = db_rows s \<and> taken t k (db_rows s)"
proof -
  obtain now f where env: "pg_env s (pg_count s) = (now, f)" by force
  obtain rs res where
    ins: "insert_task T now (t_id t) k (t_payload t) (t_handler t) (tbl s) = (rs, res)"
    by force
  note eff = insert_task_stored [OF ok ins]
  have rows: "db_rows (x\<lparr>tbl := rs\<rparr>) = map row_stored rs" for x :: "'a pg_db_scheme"
    by (simp add: db_rows_def)
  have same: "db_rows (x\<lparr>pg_count := n\<rparr>) = db_rows x" "db_ok (x\<lparr>pg_count := n\<rparr>) = db_ok x"
    for x :: "'a pg_db_scheme" and n
    by (simp_all add: db_rows_def db_ok_def)
  note runs = run [unfolded Repo_Insert_pg env ins Let_def prod.case]
  show "db_ok s'"
    using runs ok eff(1) same by (auto split: fault.splits)
  show "\<exists>d. db_rows s' = db_rows s @ [(k, d)] \<and> stored_from t d" if "r = None"
    using runs that eff(2) rows by (auto simp: insert_error_def split: fault.splits sum.splits)
  show "db_rows s' = db_rows s \<or> (\<exists>d. db_rows s' = db_rows s @ [(k, d)] \<and> stored_from t d)"
    if "r = Some e"
    using runs eff(2,3) rows same
    by (cases res) (auto simp: db_rows_def split: fault.splits)
  show "db_rows s' = db_rows s \<and> taken t k (db_rows s)"
    if "r = Some e" "errors_Is e ErrConflict"
    using runs that eff(3,4) rows
    by (auto simp: insert_error_def db_rows_def split: fault.splits sum.splits)
qed

lemma Repo_Get_effect:
  assumes "db_ok s"
  shows "db_ok (fst (Repo_Get (pg_repo T) ctx i s))"
    and "db_rows (fst (Repo_Get (pg_repo T) ctx i s)) = db_rows s"
    and "db_ok (fst (Repo_GetByIdempotencyKey (pg_repo T) ctx k s))"
    and "db_rows (fst (Repo_GetByIdempotencyKey (pg_repo T) ctx k s)) = db_rows s"
  using assms
  by (simp_all add: Repo_Get_pg Repo_GetByIdempotencyKey_pg db_ok_def db_rows_def)

interpretation pg: task_store "as_tasks_repo (pg_repo T)" db_rows db_ok for T
proof unfold_locales
  fix s t c k s' e
  assume ok: "db_ok s"
  show "uniq_rows (db_rows s)" using ok by (rule db_ok_uniq)
  show "db_ok (fst (repo_Insert (as_tasks_repo (pg_repo T)) c t k s))"
    by (cases "Repo_Insert (pg_repo T) c t k s") (simp add: Repo_Insert_effect(1) [OF ok])
  show "\<exists>d. db_rows s' = db_rows s @ [(k, d)] \<and> stored_from t d"
    if "repo_Insert (as_tasks_repo (pg_repo T)) c t k s = (s', None)"
    using that Repo_Insert_effect(2) [OF ok _ refl, of T c t k s'] by simp
  show "db_rows s' = db_rows s \<or> (\<exists>d. db_rows s' = db_rows s @ [(k, d)] \<and> stored_from t d)"
    if "repo_Insert (as_tasks_repo (pg_repo T)) c t k s = (s', Some e)"
    using that Repo_Insert_effect(3) [OF ok _ refl, of T c t k s' e] by simp
  show "db_rows s' = db_rows s \<and> taken t k (db_rows s)"
    if "repo_Insert (as_tasks_repo (pg_repo T)) c t k s = (s', Some e)" "errors_Is e ErrConflict"
    using that Repo_Insert_effect(4) [OF ok _ refl, of T c t k s' e] by simp
next
  fix s c i s' t
  assume "db_ok s" and "repo_Get (as_tasks_repo (pg_repo T)) c i s = (s', Inr t)"
  then show "t \<in> snd ` set (db_rows s) \<and> t_id t = i"
    by (auto simp: Repo_Get_pg dest!: find_SomeD split: fault.splits option.splits)
next
  fix s c i s' e x
  assume "db_ok s" and "repo_Get (as_tasks_repo (pg_repo T)) c i s = (s', Inl e)"
    and "errors_Is e ErrNotFound" and "x \<in> set (db_rows s)"
  then show "t_id (snd x) \<noteq> i"
    by (auto simp: Repo_Get_pg dest: find_NoneD split: fault.splits option.splits)
next
  fix s c k s' t
  assume "db_ok s" and "repo_GetByIdempotencyKey (as_tasks_repo (pg_repo T)) c k s = (s', Inr t)"
  then show "(Some k, t) \<in> set (db_rows s)"
    by (auto simp: Repo_GetByIdempotencyKey_pg dest!: find_SomeD
        split: fault.splits option.splits if_splits)
next
  fix s c k s' e
  assume "db_ok s" and "repo_GetByIdempotencyKey (as_tasks_repo (pg_repo T)) c k s = (s', Inl e)"
    and "errors_Is e ErrNotFound"
  then show "Some k \<notin> fst ` set (db_rows s)"
    by (auto simp: Repo_GetByIdempotencyKey_pg dest: find_NoneD
        split: fault.splits option.splits if_splits)
qed (simp_all add: Repo_Get_effect)

section \<open>Properties\<close>

text \<open>
  Translation of driver errors, for any connection: an insert that fails answers
  \<open>ErrConflict\<close> exactly when the driver reported SQLSTATE 23505, and then no SQLSTATE is
  left in the error; reads answer \<open>ErrNotFound\<close> exactly when the driver reported no rows.
\<close>

lemma repo_error_translation:
  assumes "CreateTask (queries_New (rp_resolver r ctx)) (toRow t k) s = (s1, Inl e1)"
    and "GetTaskByID (queries_New (rp_resolver r ctx)) i s = (s2, Inl e2)"
    and "GetTaskByIdempotencyKey (queries_New (rp_resolver r ctx)) (Some k') s = (s3, Inl e3)"
    and "\<not> errors_Is e1 ErrConflict" and "\<not> errors_Is e2 ErrNotFound" and "\<not> errors_Is e3 ErrNotFound"
  shows "\<exists>x y z. snd (Repo_Insert r ctx t k s) = Some x
      \<and> snd (Repo_Get r ctx i s) = Inl y
      \<and> snd (Repo_GetByIdempotencyKey r ctx k' s) = Inl z
      \<and> (errors_Is x ErrConflict \<longleftrightarrow> errors_As is_PgError e1 = Some (PgError ''23505''))
      \<and> (errors_Is x ErrConflict \<longrightarrow> errors_As is_PgError x = None)
      \<and> (errors_Is y ErrNotFound \<longleftrightarrow> errors_Is e2 ErrNoRows)
      \<and> (errors_Is z ErrNotFound \<longleftrightarrow> errors_Is e3 ErrNoRows)"
proof -
  have pg: "isUniqueViolation e1 \<longleftrightarrow> errors_As is_PgError e1 = Some (PgError ''23505'')"
    by (auto simp: isUniqueViolation_def uniqueViolation_def errors_As_def dest!: find_SomeD
        split: option.splits gerr.splits)
  show ?thesis
    using assms
    by (auto simp: Repo_Insert_def Repo_Get_def Repo_GetByIdempotencyKey_def Let_def pg
        translate_not_found errors_As_simps)
qed

definition refusing_repo :: "(unit, unit) repo" where
  "refusing_repo = repo_New (\<lambda>ctx st args s. (s, Inl (Wrapf ''query'' (PgError ''23505''))))"

lemma repo_error_translation_example:
  "errors_Is (the (snd (Repo_Insert refusing_repo ()
      (tasks_Submit 1 ''echo'' None \<lparr>wall = 0, mono = None, zone = ''UTC''\<rparr>) None ()))) ErrConflict"
proof -
  let ?t = "tasks_Submit 1 ''echo'' None \<lparr>wall = 0, mono = None, zone = ''UTC''\<rparr>"
  let ?e = "Wrapf ''query'' (PgError ''23505'')"
  have db: "rp_resolver refusing_repo () st args () = ((), Inl ?e)" for st args
    by (simp add: refusing_repo_def repo_New_def)
  have "CreateTask (queries_New (rp_resolver refusing_repo ())) (toRow ?t None) () = ((), Inl ?e)"
    "GetTaskByID (queries_New (rp_resolver refusing_repo ())) 1 () = ((), Inl ?e)"
    "GetTaskByIdempotencyKey (queries_New (rp_resolver refusing_repo ())) (Some ''k'') ()
       = ((), Inl ?e)"
    by (simp_all add: sqlc_defs db)
  from repo_error_translation [OF this] show ?thesis
    by (auto simp: err_simps)
qed

end
