(* ===== verification/Tx_Outbox.thy ===== *)
theory Tx_Outbox
  imports Repo_Tasks
begin

text \<open>
  internal/storage/txmgr and internal/repository/outbox: the transaction manager, which in this
  phase opens no transaction, and the outbox repository, which discards its events. Both are
  shown to keep the laws of their ports.
\<close>

section \<open>txmgr/manager.go\<close>

record 's manager = mg_pool :: "'s dbtx"

definition txmgr_New :: "'s dbtx \<Rightarrow> 's manager" where
  "txmgr_New pool = \<lparr>mg_pool = pool\<rparr>"

definition Manager_Resolve :: "'s manager \<Rightarrow> ('c, 's) resolver" where
  "Manager_Resolve m = (\<lambda>ctx. mg_pool m)"

definition Manager_WithinTx :: "'s manager \<Rightarrow> ('c, 's) within_tx" where
  "Manager_WithinTx m ctx fn = fn ctx"

section \<open>outbox/outbox.go\<close>

definition Outbox_Append :: "('c, 's) outbox_append" where
  "Outbox_Append ctx events s = (s, None)"

section \<open>The ports' laws\<close>

interpretation stub_tx: tx_runner "Manager_WithinTx m" for m
  by unfold_locales (auto simp: Manager_WithinTx_def)

interpretation noop_outbox: outbox_port Outbox_Append rows ok for rows ok
  by unfold_locales (auto simp: Outbox_Append_def)

text \<open>The repository over the manager is the repository on the pool.\<close>

lemma repo_over_manager:
  "repo_New (Manager_Resolve (txmgr_New (pg_exec T))) = pg_repo T"
  by (simp add: pg_repo_def Manager_Resolve_def txmgr_New_def)

end
