(* ===== verification/App_Wiring.thy ===== *)
theory App_Wiring
  imports Tx_Outbox Task_Service
begin

text \<open>
  The object graph \<open>internal/cli/server.go\<close> builds: pool, transaction manager, repository,
  outbox, Commander and Querier, over one process state. The Commander's laws are instantiated
  here, and its behaviour on the tasks table is computed in closed form.
\<close>

section \<open>The process state\<close>

text \<open>
  The database, the readings of the process clock and the results of the UUIDv7 generator (which
  may fail), with how many of each have been used.
\<close>

record process = pg_db +
  p_clock :: "nat \<Rightarrow> gotime"
  p_uuids :: "nat \<Rightarrow> gerr + uuid"
  p_ticks :: nat
  p_ids :: nat

definition time_Now :: "(process, gotime) op" where
  "time_Now s = (s\<lparr>p_ticks := Suc (p_ticks s)\<rparr>, p_clock s (p_ticks s))"

definition uuid_NewV7 :: "(process, uuid) op_res" where
  "uuid_NewV7 s = (s\<lparr>p_ids := Suc (p_ids s)\<rparr>, p_uuids s (p_ids s))"

section \<open>Wiring (cli/server.go)\<close>

definition server_repo :: "pg_types \<Rightarrow> ('c, process) tasks_repo" where
  "server_repo T = as_tasks_repo (repo_New (Manager_Resolve (txmgr_New (pg_exec T))))"

definition server_commander :: "pg_types \<Rightarrow> ('c, process) commander" where
  "server_commander T =
     (let txm = txmgr_New (pg_exec T)
      in NewCommander time_Now uuid_NewV7 (server_repo T) Outbox_Append (Manager_WithinTx txm))"

lemma server_repo_pg: "server_repo T = as_tasks_repo (pg_repo T)"
  by (simp add: server_repo_def repo_over_manager)

lemma server_commander_sel [simp]:
  "cm_tasks (server_commander T) = as_tasks_repo (pg_repo T)"
  "cm_outbox (server_commander T) = Outbox_Append"
  "cm_tx (server_commander T) = Manager_WithinTx (txmgr_New (pg_exec T))"
  "cm_now (server_commander T) = time_Now"
  "cm_newID (server_commander T) = uuid_NewV7"
  by (simp_all add: server_commander_def NewCommander_def Let_def server_repo_pg)

interpretation app: submit_service "server_commander T" db_rows db_ok for T
proof (intro submit_service.intro submit_service_axioms.intro)
  show "task_store (cm_tasks (server_commander T)) db_rows db_ok"
    by (simp add: pg.task_store_axioms)
  show "tx_runner (cm_tx (server_commander T))"
    by (simp add: stub_tx.tx_runner_axioms)
  show "outbox_port (cm_outbox (server_commander T)) db_rows db_ok"
    by (simp add: noop_outbox.outbox_port_axioms)
qed (simp_all add: time_Now_def uuid_NewV7_def db_ok_def db_rows_def)

section \<open>Submit on the tasks table\<close>

text \<open>With the ports resolved, \<open>Submit\<close> is one insert and, on a conflict, one read.\<close>

lemma Submit_server:
  "Submit (server_commander T) ctx cmd s =
     (case p_uuids s (p_ids s) of
        Inl e \<Rightarrow> (s\<lparr>p_ids := Suc (p_ids s)\<rparr>, Inl (Wrapf ''new id'' e))
      | Inr i \<Rightarrow>
          (let t = tasks_Submit i (sc_Handler cmd) (sc_Payload cmd)
                     (time_UTC (p_clock s (p_ticks s)));
               s2 = s\<lparr>p_ids := Suc (p_ids s), p_ticks := Suc (p_ticks s)\<rparr>
           in case Repo_Insert (pg_repo T) ctx t (key_of_command cmd) s2 of
                (s3, err) \<Rightarrow> submit_result (server_commander T) ctx cmd t err s3))"
proof -
  have tx: "submit_tx (server_commander T) t k n ctx x = Repo_Insert (pg_repo T) ctx t k x"
    for t k n x
    by (cases "Repo_Insert (pg_repo T) ctx t k x")
      (simp add: submit_tx_def Outbox_Append_def split: option.splits)
  show ?thesis
    by (simp add: Submit_def uuid_NewV7_def time_Now_def Manager_WithinTx_def tx Let_def
        split: sum.splits)
qed

text \<open>The values of a command that the database accepts.\<close>

definition accepts :: "pg_types \<Rightarrow> submit_command \<Rightarrow> bool" where
  "accepts T cmd \<longleftrightarrow> text_in T (sc_Handler cmd)
     \<and> (sc_IdempotencyKey cmd = [] \<or> text_in T (sc_IdempotencyKey cmd))
     \<and> Option.bind (sc_Payload cmd) (jsonb_in T) \<noteq> None"

text \<open>The stored form of a command's task: its payload in canonical form, the row's own time.\<close>

definition stored_task :: "pg_types \<Rightarrow> uuid \<Rightarrow> submit_command \<Rightarrow> int \<Rightarrow> task" where
  "stored_task T i cmd us =
     FromPersistence i StatusPending (sc_Handler cmd) (Option.bind (sc_Payload cmd) (jsonb_in T))
       (time_of_pg us)"

lemma insert_task_accepted:
  assumes ok: "db_ok s" and acc: "accepts T cmd" and i: "t_id t = i"
    and t: "t_handler t = sc_Handler cmd" "t_payload t = sc_Payload cmd"
    and k: "k = key_of_command cmd"
  obtains b where "Option.bind (sc_Payload cmd) (jsonb_in T) = Some b"
    and "insert_task T us (t_id t) k (t_payload t) (t_handler t) (tbl s) =
      (if taken t k (db_rows s) then (tbl s, Inl (PgError ''23505''))
       else (tbl s @ [mk_row i k b StatusPending us (sc_Handler cmd)],
             Inr (map snd (mk_row i k b StatusPending us (sc_Handler cmd)))))"
proof -
  obtain p b where p: "sc_Payload cmd = Some p" and b: "jsonb_in T p = Some b"
    using acc by (cases "sc_Payload cmd") (auto simp: accepts_def)
  have texts: "(case k of None \<Rightarrow> False | Some s \<Rightarrow> \<not> text_in T s) = False"
    "text_in T (sc_Handler cmd)"
    using acc k by (auto simp: accepts_def key_of_command_def)
  have wf: "\<forall>r\<in>set (tbl s). wf_row r"
    using ok by (simp add: db_ok_def wf_tbl_def)
  have clash: "id_clash i (tbl s) \<or> key_clash k (tbl s) \<longleftrightarrow> taken t k (db_rows s)"
    using wf i
    by (force simp: id_clash_def key_clash_def taken_def db_rows_def list_ex_iff wf_row_id
        wf_row_key image_iff split: option.splits)
  show ?thesis
    by (rule that [of b]) (simp_all add: insert_task_def texts p b clash i t)
qed

text \<open>An accepted insert: with an answer, without one, and on a taken id or key.\<close>

lemma insert_accepted:
  assumes ok: "db_ok s" and acc: "accepts T cmd" and i: "t_id t = i"
    and t: "t_handler t = sc_Handler cmd" "t_payload t = sc_Payload cmd"
    and k: "k = key_of_command cmd"
    and env: "pg_env s (pg_count s) = (us, f)"
  shows "f = NoFault \<or> f = FailAfter m \<Longrightarrow> \<not> taken t k (db_rows s) \<Longrightarrow>
      \<exists>s'. Repo_Insert (pg_repo T) ctx t k s =
          (s', if f = NoFault then None else Some (WrapErrorf ''insert task %s: %w'' [ArgUuid (t_id t)] (Plain m)))
         \<and> s' = s\<lparr>pg_count := Suc (pg_count s), tbl := tbl s'\<rparr>
         \<and> db_rows s' = db_rows s @ [(k, stored_task T i cmd us)]"
    and "f = NoFault \<Longrightarrow> taken t k (db_rows s) \<Longrightarrow>
      Repo_Insert (pg_repo T) ctx t k s =
        (s\<lparr>pg_count := Suc (pg_count s)\<rparr>, Some (WrapErrorf ''insert task %s: %w'' [ArgUuid (t_id t)] (Sentinel ErrConflict)))"
proof -
  obtain b where b: "Option.bind (sc_Payload cmd) (jsonb_in T) = Some b"
    and ins: "insert_task T us (t_id t) k (t_payload t) (t_handler t) (tbl s) =
      (if taken t k (db_rows s) then (tbl s, Inl (PgError ''23505''))
       else (tbl s @ [mk_row i k b StatusPending us (sc_Handler cmd)],
             Inr (map snd (mk_row i k b StatusPending us (sc_Handler cmd)))))"
    by (rule insert_task_accepted [OF ok acc i t k])
  show "\<exists>s'. Repo_Insert (pg_repo T) ctx t k s =
          (s', if f = NoFault then None else Some (WrapErrorf ''insert task %s: %w'' [ArgUuid (t_id t)] (Plain m)))
         \<and> s' = s\<lparr>pg_count := Suc (pg_count s), tbl := tbl s'\<rparr>
         \<and> db_rows s' = db_rows s @ [(k, stored_task T i cmd us)]"
    if "f = NoFault \<or> f = FailAfter m" "\<not> taken t k (db_rows s)"
    using that b env
    by (auto simp: Repo_Insert_pg ins insert_error_def stored_task_def) (simp_all add: db_rows_def)
  show "Repo_Insert (pg_repo T) ctx t k s =
        (s\<lparr>pg_count := Suc (pg_count s)\<rparr>, Some (WrapErrorf ''insert task %s: %w'' [ArgUuid (t_id t)] (Sentinel ErrConflict)))"
    if "f = NoFault" "taken t k (db_rows s)"
    using that env by (simp add: Repo_Insert_pg ins insert_error_def)
qed

text \<open>What an insert does, under any fault and for any values.\<close>

lemma insert_task_refused:
  assumes "\<not> accepts T cmd" and "t_handler t = sc_Handler cmd" and "t_payload t = sc_Payload cmd"
  shows "\<exists>c. c \<noteq> ''23505'' \<and>
    insert_task T us (t_id t) (key_of_command cmd) (t_payload t) (t_handler t) rs = (rs, Inl (PgError c))"
proof -
  let ?k = "key_of_command cmd" and ?p = "sc_Payload cmd" and ?h = "sc_Handler cmd"
  consider "case ?k of None \<Rightarrow> False | Some s \<Rightarrow> \<not> text_in T s"
    | "\<not> (case ?k of None \<Rightarrow> False | Some s \<Rightarrow> \<not> text_in T s)" "Option.bind ?p (jsonb_in T) = None"
    | "\<not> (case ?k of None \<Rightarrow> False | Some s \<Rightarrow> \<not> text_in T s)" "Option.bind ?p (jsonb_in T) \<noteq> None" "\<not> text_in T ?h"
    using assms(1) by (auto simp: accepts_def key_of_command_def split: if_splits)
  then show ?thesis
    by cases (auto simp: insert_task_def assms(2,3) simp del: not_None_eq split: option.splits)
qed

lemma insert_effect [consumes 4, case_names kept conflict stored]:
  assumes ok: "db_ok s" and t: "t_handler t = sc_Handler cmd" "t_payload t = sc_Payload cmd"
    and run: "Repo_Insert (pg_repo T) ctx t (key_of_command cmd) s = (s', err)"
  obtains (kept) e where "s' = s\<lparr>pg_count := Suc (pg_count s), tbl := tbl s'\<rparr>" "tbl s' = tbl s"
      "err = Some e" "\<not> errors_Is e ErrConflict"
      "\<not> (accepts T cmd \<and> snd (pg_env s (pg_count s)) = NoFault)"
    | (conflict) "s' = s\<lparr>pg_count := Suc (pg_count s), tbl := tbl s'\<rparr>" "tbl s' = tbl s"
      "err = Some (WrapErrorf ''insert task %s: %w'' [ArgUuid (t_id t)] (Sentinel ErrConflict))" "accepts T cmd"
      "taken t (key_of_command cmd) (db_rows s)"
    | (stored) "s' = s\<lparr>pg_count := Suc (pg_count s), tbl := tbl s'\<rparr>"
      "length (tbl s') = Suc (length (tbl s))" "\<not> taken t (key_of_command cmd) (db_rows s)"
      "db_rows s' = db_rows s @
         [(key_of_command cmd, stored_task T (t_id t) cmd (fst (pg_env s (pg_count s))))]"
      "err = None \<or> (\<exists>m. snd (pg_env s (pg_count s)) = FailAfter m)
         \<and> (\<exists>e. err = Some e \<and> \<not> errors_Is e ErrConflict)" "accepts T cmd"
proof -
  obtain us f where env: "pg_env s (pg_count s) = (us, f)" by force
  note runs = run [unfolded Repo_Insert_pg env Let_def prod.case]
  have s': "s' = s\<lparr>pg_count := Suc (pg_count s), tbl := tbl s'\<rparr>"
    using runs by (auto split: prod.splits fault.splits)
  show ?thesis
  proof (cases "accepts T cmd")
    case False
    then obtain c where "c \<noteq> ''23505''"
      "insert_task T us (t_id t) (key_of_command cmd) (t_payload t) (t_handler t) (tbl s) = (tbl s, Inl (PgError c))"
      using insert_task_refused [OF _ t] by metis
    with runs obtain e where "tbl s' = tbl s" "err = Some e" "\<not> errors_Is e ErrConflict"
      by (auto simp: insert_error_def split: fault.splits)
    with False s' show ?thesis by (intro kept) simp_all
  next
    case True
    obtain b where b: "Option.bind (sc_Payload cmd) (jsonb_in T) = Some b"
      and ins: "insert_task T us (t_id t) (key_of_command cmd) (t_payload t) (t_handler t) (tbl s) =
        (if taken t (key_of_command cmd) (db_rows s) then (tbl s, Inl (PgError ''23505''))
         else (tbl s @ [mk_row (t_id t) (key_of_command cmd) b StatusPending us (sc_Handler cmd)],
               Inr (map snd (mk_row (t_id t) (key_of_command cmd) b StatusPending us (sc_Handler cmd)))))"
      by (rule insert_task_accepted [OF ok True refl t refl])
    note runs' = runs [unfolded ins]
    consider "taken t (key_of_command cmd) (db_rows s)" "f = NoFault"
      | "taken t (key_of_command cmd) (db_rows s) \<or> (\<exists>m. f = FailBefore m)" "f \<noteq> NoFault"
      | "\<not> taken t (key_of_command cmd) (db_rows s)" "\<nexists>m. f = FailBefore m"
      by blast
    then show ?thesis
    proof cases
      case 1
      with runs' have "tbl s' = tbl s" "err = Some (WrapErrorf ''insert task %s: %w'' [ArgUuid (t_id t)] (Sentinel ErrConflict))"
        by (auto simp: insert_error_def)
      with 1 True s' show ?thesis by (intro conflict)
    next
      case 2
      with runs' obtain e where "tbl s' = tbl s" "err = Some e" "\<not> errors_Is e ErrConflict"
        by (auto simp: insert_error_def split: fault.splits)
      with 2 env s' show ?thesis by (intro kept) simp_all
    next
      case 3
      with runs' have "tbl s' = tbl s @ [mk_row (t_id t) (key_of_command cmd) b StatusPending us (sc_Handler cmd)]"
        "err = None \<or> (\<exists>m. f = FailAfter m) \<and> (\<exists>e. err = Some e \<and> \<not> errors_Is e ErrConflict)"
        by (auto simp: insert_error_def split: fault.splits)
      with 3 True s' env show ?thesis
        by (intro stored) (simp_all add: db_rows_def stored_task_def b)
    qed
  qed
qed

text \<open>
  One submit under any fault, for any values and any table: no id was made; the insert failed; it
  found its id or key taken, and the answer is the read's; or it stored the row, whose answer may
  be lost.
\<close>

lemma Submit_effect [consumes 2, case_names no_id kept conflict stored]:
  assumes ok: "db_ok s" and run: "Submit (server_commander T) ctx cmd s = (s', r)"
  obtains (no_id) e where "p_uuids s (p_ids s) = Inl e" "db_rows s' = db_rows s" "r = Inl (Wrapf ''new id'' e)"
    | (kept) e where "db_rows s' = db_rows s" "r = Inl (Wrapf ''submit task'' e)"
      "\<not> (accepts T cmd \<and> snd (pg_env s (pg_count s)) = NoFault)"
    | (conflict) i t where "p_uuids s (p_ids s) = Inr i" "t_id t = i" "accepts T cmd"
      "taken t (key_of_command cmd) (db_rows s)" "db_rows s' = db_rows s"
      "r = (if sc_IdempotencyKey cmd = []
            then Inl (Wrapf ''idempotency conflict without a key''
                   (WrapErrorf ''insert task %s: %w'' [ArgUuid i] (Sentinel ErrConflict)))
            else map_sum (\<lambda>e. Wrapf ''replay idempotent task'' (Wrapf ''get task by idempotency key'' e)) id
              (case snd (pg_env s (Suc (pg_count s))) of
                 NoFault \<Rightarrow>
                   (case List.find (\<lambda>x. fst x = key_of_command cmd) (db_rows s) of
                      None \<Rightarrow> Inl (Sentinel ErrNotFound) | Some x \<Rightarrow> Inr (snd x))
               | FailBefore m \<Rightarrow> Inl (Plain m) | FailAfter m \<Rightarrow> Inl (Plain m)))"
    | (stored) i t where "p_uuids s (p_ids s) = Inr i" "t_id t = i"
      "\<not> taken t (key_of_command cmd) (db_rows s)"
      "db_rows s' = db_rows s @ [(key_of_command cmd, stored_task T i cmd (fst (pg_env s (pg_count s))))]"
      "r = Inr t \<or> (\<exists>m. snd (pg_env s (pg_count s)) = FailAfter m) \<and> isl r" "accepts T cmd"
proof (cases "p_uuids s (p_ids s)")
  case (Inl e)
  with run show ?thesis by (intro no_id) (auto simp: Submit_server db_rows_def)
next
  case (Inr i)
  let ?t = "tasks_Submit i (sc_Handler cmd) (sc_Payload cmd) (time_UTC (p_clock s (p_ticks s)))"
  let ?s2 = "s\<lparr>p_ids := Suc (p_ids s), p_ticks := Suc (p_ticks s)\<rparr>"
  obtain s3 err where ins: "Repo_Insert (pg_repo T) ctx ?t (key_of_command cmd) ?s2 = (s3, err)"
    by (cases "Repo_Insert (pg_repo T) ctx ?t (key_of_command cmd) ?s2")
  have s2: "db_ok ?s2" "db_rows ?s2 = db_rows s" "t_handler ?t = sc_Handler cmd" "t_payload ?t = sc_Payload cmd"
    "pg_env ?s2 (pg_count ?s2) = pg_env s (pg_count s)"
    using ok by (simp_all add: db_ok_def db_rows_def)
  have fin: "submit_result (server_commander T) ctx cmd ?t err s3 = (s', r)"
    using run Inr ins by (simp add: Submit_server Let_def)
  have s3: "db_ok s3" by (rule Repo_Insert_effect(1) [OF s2(1) ins])
  from s2(1,3,4) ins show ?thesis
  proof (cases rule: insert_effect)
    case (kept e)
    then have "db_rows s3 = db_rows s" by (simp add: db_rows_def)
    with kept fin show ?thesis
      by (intro that(2) [of e]) (auto simp: submit_result_def)
  next
    case conflict
    then have rows: "db_rows s3 = db_rows s" by (simp add: db_rows_def)
    have env: "pg_env s3 (pg_count s3) = pg_env s (Suc (pg_count s))"
      by (subst (1 2) conflict(1)) simp
    show ?thesis
      using conflict(3-5) fin rows
      by (intro that(3) [OF Inr, of ?t])
        (auto simp: submit_result_def Repo_GetByIdempotencyKey_pg [OF s3] env accepts_def db_rows_def
          key_of_command_def split: option.splits fault.splits if_splits)
  next
    case stored
    with fin s2 show ?thesis
      by (intro that(4) [OF Inr, of ?t]) (auto simp: submit_result_def)
  qed
qed

section \<open>Abstract specification of idempotent submission\<close>

text \<open>
  The abstract store is the list of stored tasks and the positions in the environment's
  streams. A submit under a key that is stored answers the stored task; otherwise it stores a
  fresh pending task, unless the generated id is taken.
\<close>

record spec_state =
  ss_rows :: "stored list"
  ss_stmt :: nat
  ss_id :: nat
  ss_tick :: nat

definition spec_submit ::
  "pg_types \<Rightarrow> (nat \<Rightarrow> int) \<Rightarrow> (nat \<Rightarrow> gotime) \<Rightarrow> (nat \<Rightarrow> uuid) \<Rightarrow> submit_command
     \<Rightarrow> (spec_state, task) op_res" where
  "spec_submit T dbnow clock ids cmd a =
     (let i = ids (ss_id a);
          k = key_of_command cmd;
          rs = ss_rows a;
          us = dbnow (ss_stmt a);
          t = tasks_Submit i (sc_Handler cmd) (sc_Payload cmd) (time_UTC (clock (ss_tick a)));
          a1 = a\<lparr>ss_stmt := Suc (ss_stmt a), ss_id := Suc (ss_id a), ss_tick := Suc (ss_tick a)\<rparr>;
          a2 = a1\<lparr>ss_stmt := Suc (Suc (ss_stmt a))\<rparr>
      in case (if k = None then None else List.find (\<lambda>x. fst x = k) rs) of
           Some x \<Rightarrow> (a2, Inr (snd x))
         | None \<Rightarrow>
             if \<not> list_ex (\<lambda>x. t_id (snd x) = i) rs
             then (a1\<lparr>ss_rows := rs @ [(k, stored_task T i cmd us)]\<rparr>, Inr t)
             else if k = None
             then (a1, Inl (Wrapf ''idempotency conflict without a key''
                         (WrapErrorf ''insert task %s: %w'' [ArgUuid i] (Sentinel ErrConflict))))
             else (a2, Inl (Wrapf ''replay idempotent task''
                         (Wrapf ''get task by idempotency key'' (Sentinel ErrNotFound)))))"

definition abs_process :: "process \<Rightarrow> spec_state" where
  "abs_process s =
     \<lparr>ss_rows = db_rows s, ss_stmt = pg_count s, ss_id = p_ids s, ss_tick = p_ticks s\<rparr>"

text \<open>From here on nothing fails, and the streams are the given ones.\<close>

definition calm :: "(nat \<Rightarrow> int) \<Rightarrow> (nat \<Rightarrow> gotime) \<Rightarrow> (nat \<Rightarrow> uuid) \<Rightarrow> process \<Rightarrow> bool" where
  "calm dbnow clock ids s \<longleftrightarrow>
     (\<forall>n\<ge>pg_count s. pg_env s n = (dbnow n, NoFault)) \<and> p_clock s = clock
     \<and> (\<forall>n\<ge>p_ids s. p_uuids s n = Inr (ids n))"

lemma Submit_calm:
  "calm dbnow clock ids s \<Longrightarrow>
   Submit (server_commander T) ctx cmd s =
     (let t = tasks_Submit (ids (p_ids s)) (sc_Handler cmd) (sc_Payload cmd)
                (time_UTC (clock (p_ticks s)))
      in case Repo_Insert (pg_repo T) ctx t (key_of_command cmd)
                (s\<lparr>p_ids := Suc (p_ids s), p_ticks := Suc (p_ticks s)\<rparr>) of
           (s3, err) \<Rightarrow> submit_result (server_commander T) ctx cmd t err s3)"
  by (simp add: Submit_server calm_def Let_def)

lemma taken_iff_spec:
  "taken t k rs \<longleftrightarrow>
     (if k = None then None else List.find (\<lambda>x. fst x = k) rs) \<noteq> None
       \<or> list_ex (\<lambda>x. t_id (snd x) = t_id t) rs"
proof -
  have "list_ex (\<lambda>x. t_id (snd x) = t_id t) rs \<longleftrightarrow> t_id t \<in> (\<lambda>x. t_id (snd x)) ` set rs"
    by (metis (mono_tags, lifting) image_iff list_ex_iff)
  moreover have "List.find (\<lambda>x. fst x = k) rs = None \<longleftrightarrow> k \<notin> fst ` set rs"
    by (metis (mono_tags, lifting) find_None_iff image_iff)
  ultimately show ?thesis by (auto simp: taken_def)
qed

lemma submit_spec:
  assumes ok: "db_ok s" and acc: "accepts T cmd" and calm: "calm dbnow clock ids s"
    and run: "Submit (server_commander T) ctx cmd s = (s', r)"
  shows "spec_submit T dbnow clock ids cmd (abs_process s) = (abs_process s', r)
    \<and> calm dbnow clock ids s'"
proof -
  let ?t = "tasks_Submit (ids (p_ids s)) (sc_Handler cmd) (sc_Payload cmd)
              (time_UTC (clock (p_ticks s)))"
  let ?k = "key_of_command cmd"
  let ?s2 = "s\<lparr>p_ids := Suc (p_ids s), p_ticks := Suc (p_ticks s)\<rparr>"
  have s2: "db_ok ?s2" "db_rows ?s2 = db_rows s"
    using ok by (simp_all add: db_ok_def db_rows_def)
  have env: "pg_env ?s2 (pg_count ?s2) = (dbnow (pg_count s), NoFault)"
    using calm by (simp add: calm_def)
  note ins = insert_accepted [where t = ?t and ctx = ctx, OF s2(1) acc refl _ _ refl env,
      unfolded s2(2)]
  note sub = run [unfolded Submit_calm [OF calm] Let_def]
  show ?thesis
  proof (cases "taken ?t ?k (db_rows s)")
    case False
    then obtain s3 where "Repo_Insert (pg_repo T) ctx ?t ?k ?s2 = (s3, None)"
      and s3: "s3 = ?s2\<lparr>pg_count := Suc (pg_count s), tbl := tbl s3\<rparr>"
      "db_rows s3 = db_rows s @ [(?k, stored_task T (ids (p_ids s)) cmd (dbnow (pg_count s)))]"
      using ins(1) by auto
    with sub have "s' = s3" "r = Inr ?t" by (simp_all add: submit_result_def)
    moreover have "pg_count s3 = Suc (pg_count s) \<and> p_ids s3 = Suc (p_ids s)
        \<and> p_ticks s3 = Suc (p_ticks s) \<and> calm dbnow clock ids s3"
      using calm by (subst (1 2 3 4) s3(1)) (simp add: calm_def)
    moreover have "(if ?k = None then None else List.find (\<lambda>x. fst x = ?k) (db_rows s)) = None"
      "\<not> list_ex (\<lambda>x. t_id (snd x) = ids (p_ids s)) (db_rows s)"
      using False unfolding taken_iff_spec tasks_Submit_sel by blast+
    ultimately show ?thesis
      using s3(2) by (simp add: spec_submit_def abs_process_def Let_def)
  next
    case True
    let ?s3 = "?s2\<lparr>pg_count := Suc (pg_count s)\<rparr>"
    have "Repo_Insert (pg_repo T) ctx ?t ?k ?s2 =
        (?s3, Some (WrapErrorf ''insert task %s: %w'' [ArgUuid (t_id ?t)] (Sentinel ErrConflict)))"
      using ins(2) True by simp
    moreover have "db_ok ?s3" "db_rows ?s3 = db_rows s" "calm dbnow clock ids ?s3"
      using ok calm by (simp_all add: db_ok_def db_rows_def calm_def)
    ultimately show ?thesis
      using sub acc True calm
      by (auto simp: submit_result_def Repo_GetByIdempotencyKey_pg spec_submit_def taken_iff_spec
          abs_process_def Let_def key_of_command_def calm_def db_rows_def accepts_def
          split: option.splits if_splits)
  qed
qed

end
