(* ===== verification/Submit_Props.thy ===== *)
theory Submit_Props
  imports App_Wiring
begin

text \<open>
  The properties of \<open>POST /v1/tasks\<close> below the transport: \<open>Submit\<close> and
  \<open>Get\<close> as the server wires them, on the tasks table, under the environment's faults.
\<close>

section \<open>A concrete process for the witnesses\<close>

definition demo_types :: pg_types where
  "demo_types = \<lparr>text_in = (\<lambda>_. True), jsonb_in = Some\<rparr>"

definition demo_process :: "(nat \<Rightarrow> fault) \<Rightarrow> process" where
  "demo_process f =
     \<lparr>tbl = [], pg_env = (\<lambda>n. (1000 + int n, f n)), pg_count = 0,
      p_clock = (\<lambda>n. \<lparr>wall = 5000 + int n, mono = Some 7, zone = ''Local''\<rparr>),
      p_uuids = (\<lambda>n. Inr (of_nat (Suc n))), p_ticks = 0, p_ids = 0\<rparr>"

definition demo_command :: "string \<Rightarrow> submit_command" where
  "demo_command k =
     \<lparr>sc_Handler = ''echo'', sc_Payload = Some ''{}'', sc_IdempotencyKey = k\<rparr>"

lemma demo_db_ok [simp]: "db_ok (demo_process f)"
  by (simp add: demo_process_def db_ok_def wf_tbl_def)

lemma demo_db_rows [simp]: "db_rows (demo_process f) = []"
  by (simp add: demo_process_def db_rows_def)

lemma demo_accepts [simp]: "accepts demo_types (demo_command k)"
  by (simp add: accepts_def demo_types_def demo_command_def)

lemma demo_calm [simp]:
  "calm (\<lambda>n. 1000 + int n) (\<lambda>n. \<lparr>wall = 5000 + int n, mono = Some 7, zone = ''Local''\<rparr>)
     (\<lambda>n. of_nat (Suc n)) (demo_process (\<lambda>_. NoFault))"
  by (simp add: calm_def demo_process_def)

section \<open>Idempotency under faults\<close>

text \<open>
  C1. Exactly once. Whatever submits clients send and whatever the environment does (connections
  that fail before or after a statement commits, a failing id generator, repeated ids, values
  Postgres refuses), the rows a history adds are pending tasks, at most one per request and in the
  requests' order, each with the idempotency key and the handler of its request. Every request
  that is answered a task has its row: for a key, that row is the only one with the key and it
  holds the answered id; without a key, the id is one that no row and no earlier answer had.
\<close>

theorem submit_exactly_once:
  assumes "db_ok s" and "submit_all (server_commander T) cmds s = (s', as)"
  shows "(\<exists>new. db_rows s' = db_rows s @ new
      \<and> list_all (\<lambda>x. t_status (snd x) = ''pending'') new
      \<and> subseq (map (\<lambda>x. (fst x, t_handler (snd x))) new)
          (map (\<lambda>x. (if sc_IdempotencyKey (snd x) = [] then None
                      else Some (sc_IdempotencyKey (snd x)), sc_Handler (snd x))) cmds))
    \<and> (\<forall>j<length cmds. \<forall>u. as ! j = Inr u \<longrightarrow>
         (let k = sc_IdempotencyKey (snd (cmds ! j)) in
          if k \<noteq> [] then \<exists>d. key_rows k (db_rows s') = [(Some k, d)] \<and> t_id d = t_id u
          else (\<exists>d. (None, d) \<in> set (db_rows s') \<and> t_id d = t_id u)
            \<and> t_id u \<notin> (\<lambda>x. t_id (snd x)) ` set (db_rows s)
            \<and> (\<forall>i<j. \<forall>t. as ! i = Inr t \<longrightarrow> t_id u \<noteq> t_id t)))"
proof (intro conjI allI impI)
  have "key_of_command cmd = (if sc_IdempotencyKey cmd = [] then None else Some (sc_IdempotencyKey cmd))"
    for cmd by (simp add: key_of_command_def)
  with app.submit_all_adds [OF assms]
  show "\<exists>new. db_rows s' = db_rows s @ new \<and> list_all (\<lambda>x. t_status (snd x) = ''pending'') new
      \<and> subseq (map (\<lambda>x. (fst x, t_handler (snd x))) new)
          (map (\<lambda>x. (if sc_IdempotencyKey (snd x) = [] then None
                      else Some (sc_IdempotencyKey (snd x)), sc_Handler (snd x))) cmds)"
    by (simp only: StatusPending_def)
next
  fix j u assume j: "j < length cmds" "as ! j = Inr u"
  obtain d where d: "(key_of_command (snd (cmds ! j)), d) \<in> set (db_rows s')" "t_id d = t_id u"
    using app.submit_all_has_row [OF assms j] by blast
  have ok: "db_ok s'" using app.submit_all_ok [OF assms(1), of T cmds] assms(2) by simp
  note new = app.keyless_new_id [OF assms(1) j(1)] app.keyless_other_id [OF assms(1) _ j(1)]
  show "let k = sc_IdempotencyKey (snd (cmds ! j)) in
          if k \<noteq> [] then \<exists>d. key_rows k (db_rows s') = [(Some k, d)] \<and> t_id d = t_id u
          else (\<exists>d. (None, d) \<in> set (db_rows s') \<and> t_id d = t_id u)
            \<and> t_id u \<notin> (\<lambda>x. t_id (snd x)) ` set (db_rows s)
            \<and> (\<forall>i<j. \<forall>t. as ! i = Inr t \<longrightarrow> t_id u \<noteq> t_id t)"
  proof (cases "sc_IdempotencyKey (snd (cmds ! j)) = []")
    case True
    with d j new [where T = T] assms(2) show ?thesis by (auto simp: key_of_command_def)
  next
    case False
    with d uniq_key_rows [OF db_ok_uniq [OF ok]] show ?thesis by (auto simp: key_of_command_def)
  qed
qed

theorem submit_exactly_once_witness:
  "\<exists>s' as. submit_all (server_commander demo_types)
       [((), demo_command ''k''), ((), demo_command ''k'')]
       (demo_process (\<lambda>n. if n = 0 then FailAfter ''reset'' else NoFault)) = (s', as)
     \<and> length (db_rows s') \<le> 2
     \<and> (\<forall>u. as ! 1 = Inr u \<longrightarrow> (\<exists>d. key_rows ''k'' (db_rows s') = [(Some ''k'', d)] \<and> t_id d = t_id u))"
proof -
  let ?cmds = "[((), demo_command ''k''), ((), demo_command ''k'')]"
  let ?s = "demo_process (\<lambda>n. if n = 0 then FailAfter ''reset'' else NoFault)"
  obtain s' as where run: "submit_all (server_commander demo_types) ?cmds ?s = (s', as)" by force
  note once = submit_exactly_once [OF demo_db_ok run]
  have "length (db_rows s') \<le> 2"
    using conjunct1 [OF once] by (auto dest!: list_emb_length)
  moreover have "\<exists>d. key_rows ''k'' (db_rows s') = [(Some ''k'', d)] \<and> t_id d = t_id u"
    if "as ! 1 = Inr u" for u
    using conjunct2 [OF once, rule_format, of 1 u] that by (simp add: demo_command_def Let_def)
  ultimately show ?thesis using run by blast
qed

text \<open>
  C2. Two submits of one history that carry the same idempotency key and both succeed answer
  the same task id, under any faults and with any submits in between.
\<close>

theorem submit_same_key_same_task:
  assumes "db_ok s" and "i < j" and "j < length cmds"
    and "sc_IdempotencyKey (snd (cmds ! i)) = k" and "sc_IdempotencyKey (snd (cmds ! j)) = k"
    and "k \<noteq> []"
    and "snd (submit_all (server_commander T) cmds s) ! i = Inr t"
    and "snd (submit_all (server_commander T) cmds s) ! j = Inr u"
  shows "t_id t = t_id u"
  using assms by (rule app.same_key_same_id)

definition demo_first :: task where
  "demo_first =
     \<lparr>t_id = 1, t_status = ''pending'', t_handler = ''echo'', t_payload = Some ''{}'',
      t_createdAt = \<lparr>wall = 5000, mono = None, zone = ''UTC''\<rparr>\<rparr>"

definition demo_replay :: task where
  "demo_replay =
     \<lparr>t_id = 1, t_status = ''pending'', t_handler = ''echo'', t_payload = Some ''{}'',
      t_createdAt = \<lparr>wall = 1000000, mono = None, zone = ''Local''\<rparr>\<rparr>"

lemma demo_twice:
  "snd (submit_all (server_commander demo_types)
     [((), demo_command ''k''), ((), demo_command ''k'')] (demo_process (\<lambda>_. NoFault))) =
   [Inr demo_first, Inr demo_replay]"
  by code_simp

theorem submit_same_key_same_task_witness:
  "\<exists>t u. snd (submit_all (server_commander demo_types)
       [((), demo_command ''k''), ((), demo_command ''k'')] (demo_process (\<lambda>_. NoFault))) =
       [Inr t, Inr u] \<and> t_id t = t_id u"
proof -
  have "t_id demo_first = t_id demo_replay"
    by (rule submit_same_key_same_task [where i = 0 and j = 1 and k = "''k''"
          and cmds = "[((), demo_command ''k''), ((), demo_command ''k'')]"
          and s = "demo_process (\<lambda>_. NoFault)" and T = demo_types])
      (simp_all only: demo_twice demo_db_ok, simp_all add: demo_command_def)
  with demo_twice show ?thesis by blast
qed

section \<open>Refinement of the abstract specification\<close>

fun spec_submit_all ::
  "pg_types \<Rightarrow> (nat \<Rightarrow> int) \<Rightarrow> (nat \<Rightarrow> gotime) \<Rightarrow> (nat \<Rightarrow> uuid) \<Rightarrow> submit_command list
     \<Rightarrow> spec_state \<Rightarrow> spec_state \<times> (gerr + task) list" where
  "spec_submit_all T dbnow clock ids [] a = (a, [])"
| "spec_submit_all T dbnow clock ids (cmd # cmds) a =
     (case spec_submit T dbnow clock ids cmd a of
        (a1, r) \<Rightarrow> (case spec_submit_all T dbnow clock ids cmds a1 of (a2, rs) \<Rightarrow> (a2, r # rs)))"

text \<open>
  C3. While nothing fails, a history of submits through the Commander, the repository, the SQL
  statements and the schema answers exactly what the abstract idempotent store answers, and
  leaves the store the abstract store describes.
\<close>

theorem submit_all_refines:
  assumes "db_ok s" and "calm dbnow clock ids s" and "list_all (\<lambda>x. accepts T (snd x)) cmds"
  shows "spec_submit_all T dbnow clock ids (map snd cmds) (abs_process s) =
    (abs_process (fst (submit_all (server_commander T) cmds s)),
     snd (submit_all (server_commander T) cmds s))"
  using assms
proof (induction cmds arbitrary: s)
  case Nil
  then show ?case by simp
next
  case (Cons x cmds)
  obtain ctx cmd where x: "x = (ctx, cmd)" by (cases x)
  obtain s1 r where sub: "Submit (server_commander T) ctx cmd s = (s1, r)"
    by (cases "Submit (server_commander T) ctx cmd s")
  have acc: "accepts T cmd" using Cons.prems(3) x by simp
  note step = submit_spec [OF Cons.prems(1) acc Cons.prems(2) sub]
  have "db_ok s1" by (rule app.submit_ok [OF Cons.prems(1) sub])
  with Cons.IH [OF _ conjunct2 [OF step]] Cons.prems(3) step x sub show ?case
    by (simp add: case_prod_beta)
qed

theorem submit_all_refines_witness:
  "spec_submit_all demo_types (\<lambda>n. 1000 + int n)
     (\<lambda>n. \<lparr>wall = 5000 + int n, mono = Some 7, zone = ''Local''\<rparr>) (\<lambda>n. of_nat (Suc n))
     [demo_command ''k'', demo_command ''k''] (abs_process (demo_process (\<lambda>_. NoFault))) =
   (abs_process (fst (submit_all (server_commander demo_types)
      [((), demo_command ''k''), ((), demo_command ''k'')] (demo_process (\<lambda>_. NoFault)))),
    [Inr demo_first, Inr demo_replay])"
  using submit_all_refines [where cmds = "[((), demo_command ''k''), ((), demo_command ''k'')]"
      and s = "demo_process (\<lambda>_. NoFault)" and T = demo_types, OF demo_db_ok demo_calm]
  unfolding demo_twice by simp

section \<open>One submit, branch by branch\<close>

text \<open>A process whose table holds one task under the key \<open>k\<close>.\<close>

definition demo_seeded :: process where
  "demo_seeded = (demo_process (\<lambda>_. NoFault))
     \<lparr>tbl := [mk_row 1 (Some ''k'') ''{}'' ''pending'' 1000 ''echo''], pg_count := 1\<rparr>"

lemma demo_seeded_rows: "db_rows demo_seeded = [(Some ''k'', demo_replay)]"
  by (simp add: demo_seeded_def db_rows_def demo_replay_def FromPersistence_def time_of_pg_def)

lemma demo_seeded_ok: "db_ok demo_seeded"
  by (simp add: demo_seeded_def db_ok_def wf_tbl_def)

lemma demo_seeded_calm:
  "calm (\<lambda>n. 1000 + int n) (\<lambda>n. \<lparr>wall = 5000 + int n, mono = Some 7, zone = ''Local''\<rparr>)
     (\<lambda>n. of_nat (Suc n)) demo_seeded"
  by (simp add: calm_def demo_seeded_def demo_process_def)

lemma demo_seeded_quiet [simp]:
  "snd (pg_env demo_seeded n) = NoFault" "\<not> isl (p_uuids demo_seeded n)"
  by (simp_all add: demo_seeded_def demo_process_def)

lemma spec_lookup_None:
  "k = None \<or> k \<notin> fst ` set rs \<Longrightarrow>
     (if k = None then None else List.find (\<lambda>x. fst x = k) rs) = None"
  by (force simp: find_None_iff)

lemma submit_replay_step:
  assumes "db_ok s" and "calm dbnow clock ids s" and "accepts T cmd"
    and "sc_IdempotencyKey cmd = k" and "k \<noteq> []" and "(Some k, d) \<in> set (db_rows s)"
  shows "snd (Submit (server_commander T) ctx cmd s) = Inr d
    \<and> db_rows (fst (Submit (server_commander T) ctx cmd s)) = db_rows s"
proof -
  obtain s' r where sub: "Submit (server_commander T) ctx cmd s = (s', r)"
    by (cases "Submit (server_commander T) ctx cmd s")
  have key: "key_of_command cmd = Some k"
    using assms(4,5) by (simp add: key_of_command_def)
  have "List.find (\<lambda>x. fst x = Some k) (db_rows s) = Some (Some k, d)"
    by (rule uniq_find_key [OF db_ok_uniq [OF assms(1)] assms(6)])
  with submit_spec [OF assms(1,3,2) sub] key sub show ?thesis
    by (auto simp: spec_submit_def abs_process_def Let_def)
qed

lemma submit_fresh_step:
  assumes "db_ok s" and "calm dbnow clock ids s" and "accepts T cmd"
    and "ids (p_ids s) \<notin> (\<lambda>x. t_id (snd x)) ` set (db_rows s)"
    and "key_of_command cmd = None \<or> key_of_command cmd \<notin> fst ` set (db_rows s)"
  shows "snd (Submit (server_commander T) ctx cmd s) =
      Inr (tasks_Submit (ids (p_ids s)) (sc_Handler cmd) (sc_Payload cmd)
             (time_UTC (clock (p_ticks s))))
    \<and> db_rows (fst (Submit (server_commander T) ctx cmd s)) =
        db_rows s @ [(key_of_command cmd,
          stored_task T (ids (p_ids s)) cmd (dbnow (pg_count s)))]
    \<and> calm dbnow clock ids (fst (Submit (server_commander T) ctx cmd s))"
proof -
  obtain s' r where sub: "Submit (server_commander T) ctx cmd s = (s', r)"
    by (cases "Submit (server_commander T) ctx cmd s")
  have "(if key_of_command cmd = None then None
         else List.find (\<lambda>x. fst x = key_of_command cmd) (db_rows s)) = None"
    using assms(5) by (rule spec_lookup_None)
  moreover have "\<not> list_ex (\<lambda>x. t_id (snd x) = ids (p_ids s)) (db_rows s)"
    using assms(4) by (force simp: list_ex_iff)
  ultimately show ?thesis
    using submit_spec [OF assms(1,3,2) sub] sub
    by (simp add: spec_submit_def abs_process_def Let_def)
qed

text \<open>
  C7. A submit under a key that is stored is a replay, whatever fails and whatever the request's
  handler and payload are: the table stays as it was, and a success answers the task stored under
  the key, never the one the request describes. It fails only when no id could be made, when
  Postgres refuses one of the request's values (the insert comes before the read), or when the
  insert or the read fails.
\<close>

theorem submit_replay:
  assumes "db_ok s" and "sc_IdempotencyKey cmd = k" and "k \<noteq> []" and "(Some k, d) \<in> set (db_rows s)"
    and "Submit (server_commander T) ctx cmd s = (s', r)"
  shows "db_rows s' = db_rows s
    \<and> (case r of
         Inr u \<Rightarrow> u = d
       | Inl e \<Rightarrow> isl (p_uuids s (p_ids s)) \<or> \<not> accepts T cmd
           \<or> snd (pg_env s (pg_count s)) \<noteq> NoFault \<or> snd (pg_env s (Suc (pg_count s))) \<noteq> NoFault)"
proof -
  have key: "key_of_command cmd = Some k"
    using assms(2,3) by (simp add: key_of_command_def)
  have find: "List.find (\<lambda>x. fst x = Some k) (db_rows s) = Some (Some k, d)"
    by (rule uniq_find_key [OF db_ok_uniq [OF assms(1)] assms(4)])
  have taken: "taken t (Some k) (db_rows s)" for t
    using assms(4) by (force simp: taken_def)
  from assms(1,5) show ?thesis
    by (cases rule: Submit_effect) (use assms(2,3) key find taken in \<open>auto split: fault.splits\<close>)
qed

theorem submit_replay_witness:
  "snd (Submit (server_commander demo_types) () (demo_command ''k'') demo_seeded) = Inr demo_replay
   \<and> db_rows (fst (Submit (server_commander demo_types) () (demo_command ''k'') demo_seeded))
     = db_rows demo_seeded"
proof -
  obtain s' r where run: "Submit (server_commander demo_types) () (demo_command ''k'') demo_seeded = (s', r)"
    by force
  have "db_rows s' = db_rows demo_seeded \<and> (case r of Inr u \<Rightarrow> u = demo_replay | Inl e \<Rightarrow> False)"
    using submit_replay [OF demo_seeded_ok _ _ _ run, of "''k''" demo_replay]
    by (auto simp: demo_command_def [of "''k''", THEN arg_cong [where f = sc_IdempotencyKey]]
        demo_seeded_rows split: sum.splits)
  with run show ?thesis by (auto split: sum.splits)
qed

text \<open>
  A submit under a new key (or none) with a fresh id stores one row, a pending task with the
  request's handler and canonical payload, and answers the task it built.
\<close>

theorem submit_fresh:
  assumes "db_ok s" and "calm dbnow clock ids s" and "accepts T cmd"
    and "ids (p_ids s) \<notin> (\<lambda>x. t_id (snd x)) ` set (db_rows s)"
    and "key_of_command cmd = None \<or> key_of_command cmd \<notin> fst ` set (db_rows s)"
  shows "snd (Submit (server_commander T) ctx cmd s) =
      Inr (tasks_Submit (ids (p_ids s)) (sc_Handler cmd) (sc_Payload cmd)
             (time_UTC (clock (p_ticks s))))
    \<and> db_rows (fst (Submit (server_commander T) ctx cmd s)) =
        db_rows s @ [(key_of_command cmd,
          stored_task T (ids (p_ids s)) cmd (dbnow (pg_count s)))]"
  using submit_fresh_step [OF assms, of ctx] by blast

theorem submit_fresh_witness:
  "snd (Submit (server_commander demo_types) () (demo_command ''k'')
     (demo_process (\<lambda>_. NoFault))) = Inr demo_first"
proof -
  have "tasks_Submit (of_nat (Suc (p_ids (demo_process (\<lambda>_. NoFault)))))
      (sc_Handler (demo_command ''k'')) (sc_Payload (demo_command ''k''))
      (time_UTC \<lparr>wall = 5000 + int (p_ticks (demo_process (\<lambda>_. NoFault))), mono = Some 7,
                 zone = ''Local''\<rparr>) = demo_first"
    by (simp add: demo_process_def demo_first_def demo_command_def tasks_Submit_def
        StatusPending_def time_UTC_def)
  moreover note submit_fresh [THEN conjunct1, OF demo_db_ok demo_calm demo_accepts [of "''k''"],
      of "()"]
  ultimately show ?thesis by simp
qed

text \<open>
  C8. The id generator repeating an id that is stored. Whatever fails, nothing is stored and the
  minted task is never answered: a success is the replay of a key that is stored. Otherwise, while
  the two statements work and the values are accepted, the submit without a key fails with the
  conflict; with a key that is not stored the conflict is taken for a replay, and the submit
  fails because no task has that key.
\<close>

theorem submit_id_collision:
  assumes "db_ok s" and "p_uuids s (p_ids s) = Inr i" and "i \<in> (\<lambda>x. t_id (snd x)) ` set (db_rows s)"
    and "Submit (server_commander T) ctx cmd s = (s', r)"
  shows "db_rows s' = db_rows s
    \<and> (case r of
         Inr u \<Rightarrow> key_of_command cmd \<noteq> None \<and> (key_of_command cmd, u) \<in> set (db_rows s)
       | Inl e \<Rightarrow>
           accepts T cmd \<and> snd (pg_env s (pg_count s)) = NoFault \<and> snd (pg_env s (Suc (pg_count s))) = NoFault
           \<longrightarrow> (if key_of_command cmd = None then errors_Is e ErrConflict
               else key_of_command cmd \<notin> fst ` set (db_rows s) \<and> errors_Is e ErrNotFound))"
proof -
  have taken: "taken t k (db_rows s)" if "t_id t = i" for t k
    using assms(3) that by (simp add: taken_def)
  have none: "List.find (\<lambda>x. fst x = k) rs = None \<longleftrightarrow> k \<notin> fst ` set rs" for k and rs :: "stored list"
    by (force simp: find_None_iff)
  have some: "List.find (\<lambda>x. fst x = k) rs = Some (l, d) \<Longrightarrow> (k, d) \<in> set rs"
    for k l d and rs :: "stored list"
    by (auto dest!: find_SomeD)
  from assms(1,4) show ?thesis
  proof (cases rule: Submit_effect)
    case (conflict j t)
    then show ?thesis
      by (auto simp: key_of_command_def none dest: some split: fault.splits option.splits)
  qed (use assms(2) taken in auto)
qed

theorem submit_id_collision_witness:
  "\<exists>e. snd (Submit (server_commander demo_types) () (demo_command []) demo_seeded) = Inl e
      \<and> errors_Is e ErrConflict"
proof -
  have id: "1 \<in> (\<lambda>x. t_id (snd x)) ` set (db_rows demo_seeded)"
    by (simp add: demo_seeded_rows demo_replay_def)
  have uuid: "p_uuids demo_seeded (p_ids demo_seeded) = Inr 1"
    by (simp add: demo_seeded_def demo_process_def)
  obtain s' r where run: "Submit (server_commander demo_types) () (demo_command []) demo_seeded = (s', r)"
    by force
  have "key_of_command (demo_command []) = None" by (simp add: demo_command_def key_of_command_def)
  with submit_id_collision [OF demo_seeded_ok uuid id run]
  have "case r of Inr u \<Rightarrow> False | Inl e \<Rightarrow> errors_Is e ErrConflict"
    by (auto split: sum.splits)
  with run show ?thesis by (auto split: sum.splits)
qed

text \<open>
  C9. An answer that is lost after the row was committed: the first submit fails, and the retry
  with the same key answers the task the first one stored. One row exists.
\<close>

theorem submit_retry_after_lost_answer:
  assumes "db_ok s" and "accepts T cmd" and "sc_IdempotencyKey cmd = k" and "k \<noteq> []"
    and "Some k \<notin> fst ` set (db_rows s)" and "i \<notin> (\<lambda>x. t_id (snd x)) ` set (db_rows s)"
    and "p_uuids s (p_ids s) = Inr i" and "pg_env s (pg_count s) = (us, FailAfter m)"
    and "\<forall>n>pg_count s. pg_env s n = (dbnow n, NoFault)" and "\<forall>n>p_ids s. p_uuids s n = Inr (ids n)"
  shows "\<exists>e. snd (submit_all (server_commander T) [(c1, cmd), (c2, cmd)] s) =
        [Inl e, Inr (stored_task T i cmd us)]
      \<and> db_rows (fst (submit_all (server_commander T) [(c1, cmd), (c2, cmd)] s)) =
        db_rows s @ [(Some k, stored_task T i cmd us)]"
proof -
  let ?t = "tasks_Submit i (sc_Handler cmd) (sc_Payload cmd) (time_UTC (p_clock s (p_ticks s)))"
  let ?s2 = "s\<lparr>p_ids := Suc (p_ids s), p_ticks := Suc (p_ticks s)\<rparr>"
  have s2: "db_ok ?s2" "db_rows ?s2 = db_rows s"
    using assms(1) by (simp_all add: db_ok_def db_rows_def)
  have key: "key_of_command cmd = Some k" using assms(3,4) by (simp add: key_of_command_def)
  have env: "pg_env ?s2 (pg_count ?s2) = (us, FailAfter m)" using assms(8) by simp
  have free: "\<not> taken ?t (Some k) (db_rows s)" using assms(5,6) by (simp add: taken_def)
  obtain s3 where ins: "Repo_Insert (pg_repo T) c1 ?t (Some k) ?s2 =
        (s3, Some (WrapErrorf ''insert task %s: %w'' [ArgUuid i] (Plain m)))"
    and s3: "s3 = ?s2\<lparr>pg_count := Suc (pg_count s), tbl := tbl s3\<rparr>"
    and rows: "db_rows s3 = db_rows s @ [(Some k, stored_task T i cmd us)]"
    using insert_accepted(1) [where t = ?t and ctx = c1 and i = i,
        OF s2(1) assms(2) _ _ _ key [symmetric] env] free s2(2) by auto
  have first: "Submit (server_commander T) c1 cmd s =
      (s3, Inl (Wrapf ''submit task'' (WrapErrorf ''insert task %s: %w'' [ArgUuid i] (Plain m))))"
    using assms(7) ins key by (simp add: Submit_server Let_def submit_result_def)
  have "calm dbnow (p_clock s) ids s3"
    using assms(9,10) by (subst s3) (simp add: calm_def)
  moreover have "db_ok s3" by (rule app.submit_ok [OF assms(1) first])
  moreover have "(Some k, stored_task T i cmd us) \<in> set (db_rows s3)" using rows by simp
  ultimately have "snd (Submit (server_commander T) c2 cmd s3) = Inr (stored_task T i cmd us)
      \<and> db_rows (fst (Submit (server_commander T) c2 cmd s3)) = db_rows s3"
    using assms(2-4) by (intro submit_replay_step)
  with first rows show ?thesis by (auto simp: case_prod_beta)
qed

theorem submit_retry_after_lost_answer_witness:
  "\<exists>e d. snd (submit_all (server_commander demo_types)
        [((), demo_command ''k''), ((), demo_command ''k'')]
        (demo_process (\<lambda>n. if n = 0 then FailAfter ''reset'' else NoFault))) = [Inl e, Inr d]
      \<and> t_id d = 1"
proof -
  let ?s = "demo_process (\<lambda>n. if n = 0 then FailAfter ''reset'' else NoFault)"
  have "\<exists>e. snd (submit_all (server_commander demo_types)
        [((), demo_command ''k''), ((), demo_command ''k'')] ?s) =
        [Inl e, Inr (stored_task demo_types 1 (demo_command ''k'') 1000)]
      \<and> db_rows (fst (submit_all (server_commander demo_types)
        [((), demo_command ''k''), ((), demo_command ''k'')] ?s)) =
        db_rows ?s @ [(Some ''k'', stored_task demo_types 1 (demo_command ''k'') 1000)]"
    by (rule submit_retry_after_lost_answer [where m = "''reset''" and ids = "\<lambda>n. of_nat (Suc n)"
          and dbnow = "\<lambda>n. 1000 + int n"])
      (simp_all, simp_all add: demo_command_def demo_process_def)
  then show ?thesis by (auto simp: stored_task_def)
qed

text \<open>
  C10. A submit that answers an error has stored nothing, unless its connection broke after the
  insert had been committed; then it stored exactly the request's row: a pending task of the
  minted id with the request's key, handler and payload, where no row had that id or that key.
\<close>

theorem submit_error_effect:
  assumes "db_ok s" and "Submit (server_commander T) ctx cmd s = (s', Inl e)"
  shows "db_rows s' = db_rows s
    \<or> (\<exists>m i. snd (pg_env s (pg_count s)) = FailAfter m \<and> p_uuids s (p_ids s) = Inr i
        \<and> accepts T cmd \<and> \<not> (\<exists>x\<in>set (db_rows s). t_id (snd x) = i)
        \<and> (key_of_command cmd = None \<or> key_of_command cmd \<notin> fst ` set (db_rows s))
        \<and> db_rows s' = db_rows s
            @ [(key_of_command cmd, stored_task T i cmd (fst (pg_env s (pg_count s))))])"
  using assms by (cases rule: Submit_effect) (force simp: taken_def)+

theorem submit_error_effect_witness:
  "\<exists>s' e. Submit (server_commander demo_types) () (demo_command ''k'')
       (demo_process (\<lambda>_. FailBefore ''down'')) = (s', Inl e) \<and> db_rows s' = []"
proof -
  let ?s = "demo_process (\<lambda>_. FailBefore ''down'')"
  obtain s' r where sub: "Submit (server_commander demo_types) () (demo_command ''k'') ?s = (s', r)"
    by (cases "Submit (server_commander demo_types) () (demo_command ''k'') ?s")
  moreover have "isl (snd (Submit (server_commander demo_types) () (demo_command ''k'') ?s))"
    by code_simp
  ultimately obtain e where r: "r = Inl e" by (cases r) auto
  have "db_rows s' = db_rows ?s"
    using submit_error_effect [OF demo_db_ok sub [unfolded r]] by (auto simp: demo_process_def)
  with sub r show ?thesis by simp
qed

text \<open>
  Read your writes: once a submit has answered a task, a read of its id that does not fail
  finds a task with that id; a task the submit created is found pending with the request's
  handler.
\<close>

lemma submit_then_get:
  assumes "db_ok s" and "Submit (server_commander T) ctx cmd s = (s', Inr t)"
    and "snd (pg_env s' (pg_count s')) = NoFault"
  shows "\<exists>v. snd (Querier_Get (server_repo T) ctx' (t_id t) s') = Inr v \<and> tv_ID v = t_id t
    \<and> (length (db_rows s') = length (db_rows s)
       \<or> (tv_Status v = StatusPending \<and> tv_Handler v = sc_Handler cmd))"
proof -
  have ok: "db_ok s'" by (rule app.submit_ok [OF assms(1,2)])
  have out: "submit_outcome cmd (db_rows s) (db_rows s') (Inr t)"
    using app.submit_effect [OF assms(1,2)] by blast
  have "\<exists>k d. (k, d) \<in> set (db_rows s') \<and> t_id d = t_id t
    \<and> (length (db_rows s') = length (db_rows s)
       \<or> (t_status d = StatusPending \<and> t_handler d = sc_Handler cmd))"
  proof (cases "added cmd (db_rows s) (db_rows s') t \<and> fresh_task cmd t")
    case True
    then obtain d where "db_rows s' = db_rows s @ [(key_of_command cmd, d)]" "stored_from t d"
      "fresh_task cmd t"
      by (auto simp: added_def)
    then show ?thesis
      by (intro exI [of _ "key_of_command cmd"] exI [of _ d])
        (simp add: stored_from_def fresh_task_def)
  next
    case False
    with out have "db_rows s' = db_rows s" "(Some (sc_IdempotencyKey cmd), t) \<in> set (db_rows s)"
      unfolding submit_outcome_def by blast+
    then show ?thesis by auto
  qed
  then obtain k d where d: "(k, d) \<in> set (db_rows s')" "t_id d = t_id t"
    "length (db_rows s') = length (db_rows s)
      \<or> (t_status d = StatusPending \<and> t_handler d = sc_Handler cmd)"
    by blast
  have "List.find (\<lambda>x. t_id (snd x) = t_id t) (db_rows s') = Some (k, d)"
    using uniq_find_id [OF db_ok_uniq [OF ok] d(1)] d(2) by simp
  with assms(3) d(2,3) show ?thesis
    by (simp add: Querier_Get_def server_repo_pg Repo_Get_pg [OF ok])
qed

lemma submit_then_get_example:
  "\<exists>s' t v. Submit (server_commander demo_types) () (demo_command ''k'')
       (demo_process (\<lambda>_. NoFault)) = (s', Inr t)
     \<and> snd (Querier_Get (server_repo demo_types) () (t_id t) s') = Inr v \<and> tv_ID v = t_id t"
proof -
  let ?s = "demo_process (\<lambda>_. NoFault)"
  obtain s' r where sub: "Submit (server_commander demo_types) () (demo_command ''k'') ?s = (s', r)"
    by (cases "Submit (server_commander demo_types) () (demo_command ''k'') ?s")
  moreover have "snd (Submit (server_commander demo_types) () (demo_command ''k'') ?s) =
      Inr demo_first"
    by code_simp
  ultimately have r: "r = Inr demo_first" by simp
  have "calm (\<lambda>n. 1000 + int n) (\<lambda>n. \<lparr>wall = 5000 + int n, mono = Some 7, zone = ''Local''\<rparr>)
      (\<lambda>n. of_nat (Suc n)) s'"
    using submit_spec [OF demo_db_ok demo_accepts demo_calm sub] by blast
  then have "snd (pg_env s' (pg_count s')) = NoFault" by (simp add: calm_def)
  from submit_then_get [OF demo_db_ok sub [unfolded r] this, of "()"] sub r
  show ?thesis by blast
qed

text \<open>
  C11. What a replay does not reproduce: the first answer carries the process clock's time, the
  replayed one the time the database gave the row. The two answers agree on id, status and
  handler, and on the creation time only when the two clocks agree.
\<close>

theorem submit_replay_created_at:
  assumes "db_ok s" and "calm dbnow clock ids s" and "accepts T cmd"
    and "sc_IdempotencyKey cmd = k" and "k \<noteq> []" and "Some k \<notin> fst ` set (db_rows s)"
    and "ids (p_ids s) \<notin> (\<lambda>x. t_id (snd x)) ` set (db_rows s)"
  shows "\<exists>t d. snd (submit_all (server_commander T) [(c1, cmd), (c2, cmd)] s) = [Inr t, Inr d]
    \<and> t_id d = t_id t \<and> t_status d = t_status t \<and> t_handler d = t_handler t
    \<and> (time_Equal (t_createdAt t) (t_createdAt d) \<longleftrightarrow>
         wall (clock (p_ticks s)) = dbnow (pg_count s) * 1000)"
proof -
  let ?t = "tasks_Submit (ids (p_ids s)) (sc_Handler cmd) (sc_Payload cmd)
      (time_UTC (clock (p_ticks s)))"
  let ?d = "stored_task T (ids (p_ids s)) cmd (dbnow (pg_count s))"
  have key: "key_of_command cmd = Some k" using assms(4,5) by (simp add: key_of_command_def)
  obtain s1 r where sub: "Submit (server_commander T) c1 cmd s = (s1, r)"
    by (cases "Submit (server_commander T) c1 cmd s")
  have one: "r = Inr ?t" "db_rows s1 = db_rows s @ [(Some k, ?d)]" "calm dbnow clock ids s1"
    using submit_fresh_step [OF assms(1-3,7), of c1] assms(6) key sub by simp_all
  have "snd (Submit (server_commander T) c2 cmd s1) = Inr ?d"
    using submit_replay_step [OF app.submit_ok [OF assms(1) sub] one(3) assms(3-5), of ?d c2] one(2)
    by simp
  with sub one(1) show ?thesis
    by (auto simp: case_prod_beta stored_task_def time_Equal_def time_of_pg_def)
qed

theorem submit_replay_created_at_witness:
  "\<exists>t d. snd (submit_all (server_commander demo_types)
       [((), demo_command ''k''), ((), demo_command ''k'')] (demo_process (\<lambda>_. NoFault))) =
       [Inr t, Inr d]
     \<and> t_id d = t_id t \<and> \<not> time_Equal (t_createdAt t) (t_createdAt d)"
proof -
  have "sc_IdempotencyKey (demo_command ''k'') = ''k''" by (simp add: demo_command_def)
  then have "\<exists>t d. snd (submit_all (server_commander demo_types)
       [((), demo_command ''k''), ((), demo_command ''k'')] (demo_process (\<lambda>_. NoFault))) =
       [Inr t, Inr d] \<and> t_id d = t_id t \<and> t_status d = t_status t \<and> t_handler d = t_handler t
     \<and> (time_Equal (t_createdAt t) (t_createdAt d) \<longleftrightarrow>
         wall \<lparr>wall = 5000 + int (p_ticks (demo_process (\<lambda>_. NoFault))), mono = Some (7::int),
              zone = ''Local''\<rparr> = (1000 + int (pg_count (demo_process (\<lambda>_. NoFault)))) * 1000)"
    by (rule submit_replay_created_at [OF demo_db_ok demo_calm demo_accepts]) simp_all
  then show ?thesis
    by (elim ex_forward) (simp add: demo_process_def del: submit_all.simps)
qed

text \<open>
  A submit without a key is never a replay: whenever it succeeds it has stored one more row,
  for the fresh task it answers.
\<close>

lemma submit_keyless_never_replays:
  assumes "db_ok s" and "sc_IdempotencyKey cmd = []"
    and "Submit (server_commander T) ctx cmd s = (s', Inr t)"
  shows "\<exists>d. db_rows s' = db_rows s @ [(None, d)] \<and> t_id d = t_id t \<and> fresh_task cmd t"
  using app.submit_effect [OF assms(1,3)] assms(2)
  by (auto simp: submit_outcome_def added_def stored_from_def key_of_command_def)

lemma submit_keyless_never_replays_example:
  "\<exists>s' t. Submit (server_commander demo_types) () (demo_command [])
       (demo_process (\<lambda>_. NoFault)) = (s', Inr t) \<and> length (db_rows s') = 1"
proof -
  let ?s = "demo_process (\<lambda>_. NoFault)"
  obtain s' r where sub: "Submit (server_commander demo_types) () (demo_command []) ?s = (s', r)"
    by (cases "Submit (server_commander demo_types) () (demo_command []) ?s")
  moreover have "snd (Submit (server_commander demo_types) () (demo_command []) ?s) = Inr demo_first"
    by code_simp
  ultimately have r: "r = Inr demo_first" by simp
  have "sc_IdempotencyKey (demo_command []) = []" by (simp add: demo_command_def)
  from submit_keyless_never_replays [OF demo_db_ok this sub [unfolded r]] sub r
  show ?thesis by auto
qed

end
