(* ===== verification/Api_Wiring.thy ===== *)
theory Api_Wiring
  imports Api_Props Submit_Props
begin

text \<open>
  The HTTP server over the process state: \<open>internal/cli/server.go\<close> hands the handler its
  Commander and Querier, \<open>server.Run\<close> wraps it in the generated server. Requests arrive one
  after the other, each with its own response writer.
\<close>

section \<open>Sequences of requests\<close>

fun serve_all ::
  "lib \<Rightarrow> ('c, 's) server \<Rightarrow> ('c \<times> http_request \<times> resp_writer) list \<Rightarrow> 's \<Rightarrow> 's \<times> resp_writer list" where
  "serve_all L srv [] s = (s, [])"
| "serve_all L srv ((ctx, r, w) # rs) s =
     (let ex' = ServeHTTP L srv ctx r \<lparr>ex_app = s, ex_rw = w, ex_tel = []\<rparr>
      in case serve_all L srv rs (ex_app ex') of (s2, ws) \<Rightarrow> (s2, ex_rw ex' # ws))"

lemma length_serve_all [simp]: "length (snd (serve_all L srv rs s)) = length rs"
  by (induction rs arbitrary: s) (auto simp: case_prod_beta Let_def)

text \<open>A request that reaches createTask with the idempotency key \<open>k\<close>.\<close>

definition posts_key :: "lib \<Rightarrow> string \<Rightarrow> http_request \<Rightarrow> bool" where
  "posts_key L k r \<longleftrightarrow>
     (case serve_route L [] r of CallCreateTask _ \<Rightarrow> True | _ \<Rightarrow> False) \<and>
     (case decodeCreateTaskRequest L r of
        (req, _, _, rerr) \<Rightarrow> rerr = None \<and>
          (case req of None \<Rightarrow> False | Some q \<Rightarrow> OptString_Get (cr_IdempotencyKey q) = (k, True)))"

text \<open>The writer holds a 201 with the encoded task \<open>t\<close>.\<close>

definition created :: "lib \<Rightarrow> resp_writer \<Rightarrow> oas_task \<Rightarrow> bool" where
  "created L w t \<longleftrightarrow> rw_status w = Some 201 \<and> Task_MarshalJSON (lib_jx L) t = Inr (rw_body w)"

lemma classify_error_not_201: "fst (classify_error L err) \<noteq> 201"
  using classify_error_code [of L err] by auto

context api_backend
begin

lemma serve_ok:
  assumes "api_server E (NewHandler cmd qry) = Inr srv" and "fresh_writer w" and "ok s"
    and "ex' = ServeHTTP (se_lib E) srv ctx r \<lparr>ex_app = s, ex_rw = w, ex_tel = []\<rparr>"
  shows "ok (ex_app ex') \<and> set (rows s) \<subseteq> set (rows (ex_app ex'))"
proof (cases "is_operation (serve_route (se_lib E) [] r)")
  case False
  with serve_other [OF assms(1)] assms(3,4) show ?thesis by simp
next
  case True
  let ?ex = "\<lparr>ex_app = s, ex_rw = w, ex_tel = []\<rparr>"
  have fresh: "fresh_writer (ex_rw ?ex)" using assms(2) by simp
  obtain e where "case serve_route (se_lib E) [] r of
        CallCreateTask esc \<Rightarrow> create_ends (se_lib E) (NewHandler cmd qry) ctx r (ex_app ?ex) (ex_app ex') e
      | CallGetTask arg esc \<Rightarrow>
          get_ends (se_lib E) (NewHandler cmd qry) ctx arg esc (ex_app ?ex) (ex_app ex') e
      | _ \<Rightarrow> False"
    by (rule serve_operation [OF assms(1) fresh assms(4) True])
  then consider (create) "create_ends (se_lib E) (NewHandler cmd qry) ctx r s (ex_app ex') e"
    | (get) arg esc where "get_ends (se_lib E) (NewHandler cmd qry) ctx arg esc s (ex_app ex') e"
    by (auto split: route_call.splits)
  then show ?thesis
  proof cases
    case create
    then show ?thesis
      by (rule create_endsE)
        (use assms(3) create_task_effect(1) [OF assms(3)] create_task_mono [OF assms(3)] in blast)+
  next
    case get
    then show ?thesis
      by (rule get_endsE) (use assms(3) get_task_effect(1,2) [OF assms(3)] in \<open>metis subset_refl\<close>)+
  qed
qed

lemma serve_created:
  assumes "api_server E (NewHandler cmd qry) = Inr srv" and "fresh_writer w" and "ok s"
    and "ex' = ServeHTTP (se_lib E) srv ctx r \<lparr>ex_app = s, ex_rw = w, ex_tel = []\<rparr>"
    and "posts_key (se_lib E) k r" and "k \<noteq> []"
    and "rw_werr w = None" and "rw_status (ex_rw ex') = Some 201"
  shows "\<exists>t d. created (se_lib E) (ex_rw ex') t \<and> (Some k, d) \<in> set (rows (ex_app ex'))
    \<and> t_id d = ot_ID t"
proof -
  let ?ex = "\<lparr>ex_app = s, ex_rw = w, ex_tel = []\<rparr>" and ?h = "NewHandler cmd qry"
  have fresh: "fresh_writer (ex_rw ?ex)" using assms(2) by simp
  obtain esc where route: "serve_route (se_lib E) [] r = CallCreateTask esc"
    using assms(5) by (auto simp: posts_key_def split: route_call.splits)
  obtain q raw cl where q: "decodeCreateTaskRequest (se_lib E) r = (Some q, raw, cl, None)"
    "OptString_Get (cr_IdempotencyKey q) = (k, True)"
    using assms(5) by (auto simp: posts_key_def split: prod.splits option.splits)
  obtain e where e: "ended (se_lib E) CreateTaskOperation w [] e ex'"
    "create_ends (se_lib E) ?h ctx r s (ex_app ex') e"
    by (rule serve_operation [OF assms(1) fresh assms(4)])
      (simp_all add: route is_operation_def op_of_call_def)
  have st: "ending_status (se_lib E) e = 201"
    using ended_status [OF e(1)] assms(8) by simp
  from e(2) show ?thesis
  proof (cases rule: create_endsE)
    case (answered q' raw' cl' t)
    with q have q': "q' = q" by simp
    have e': "e = Answered 201 (Task_Encode t [])"
      using answered(3) e(1) assms(7) by (auto simp: ended_def)
    have "created (se_lib E) (ex_rw ex') t"
      using e(1) by (simp add: e' ended_def created_def Task_MarshalJSON_def marshal_def)
    with create_task_key_row [OF assms(3) answered(2)[unfolded q'] q(2) assms(6)] show ?thesis
      by blast
  qed (use st classify_error_not_201 in \<open>auto simp: ending_status_def\<close>)
qed

lemma later_created_same_id:
  assumes "api_server E (NewHandler cmd qry) = Inr srv" and "ok s" and "(Some k, d) \<in> set (rows s)"
    and "list_all (\<lambda>x. fresh_writer (snd (snd x))) rs" and "j < length rs"
    and "rs ! j = (ctx, r, w)" and "posts_key (se_lib E) k r" and "k \<noteq> []" and "rw_werr w = None"
    and "rw_status (snd (serve_all (se_lib E) srv rs s) ! j) = Some 201"
  shows "\<exists>t. created (se_lib E) (snd (serve_all (se_lib E) srv rs s) ! j) t \<and> ot_ID t = t_id d"
  using assms(2-6,10)
proof (induction rs arbitrary: s j)
  case Nil
  then show ?case by simp
next
  case (Cons x rs)
  obtain c0 r0 w0 where x: "x = (c0, r0, w0)" by (cases x)
  let ?ex' = "ServeHTTP (se_lib E) srv c0 r0 \<lparr>ex_app = s, ex_rw = w0, ex_tel = []\<rparr>"
  have fresh: "fresh_writer w0" using Cons.prems(3) x by simp
  note ok1 = serve_ok [OF assms(1) fresh Cons.prems(1) refl, of c0 r0]
  have d1: "(Some k, d) \<in> set (rows (ex_app ?ex'))" using ok1 Cons.prems(2) by blast
  show ?case
  proof (cases j)
    case 0
    with Cons.prems x have "c0 = ctx" "r0 = r" "w0 = w" by simp_all
    with serve_created [OF assms(1) fresh Cons.prems(1) refl _ assms(8), of r0 c0] Cons.prems(6)
      assms(7,9) 0 x
    obtain t d' where t: "created (se_lib E) (ex_rw ?ex') t"
      "(Some k, d') \<in> set (rows (ex_app ?ex'))" "t_id d' = ot_ID t"
      by (auto simp: Let_def case_prod_beta)
    with uniq_rows_key [OF rows_uniq [OF conjunct1 [OF ok1]] d1 t(2)] 0 x show ?thesis
      by (auto simp: Let_def case_prod_beta)
  next
    case (Suc j')
    with Cons.prems x show ?thesis
      using Cons.IH [OF conjunct1 [OF ok1] d1, of j'] by (simp add: Let_def case_prod_beta)
  qed
qed

lemma http_same_key_same_id:
  assumes "api_server E (NewHandler cmd qry) = Inr srv" and "ok s"
    and "list_all (\<lambda>x. fresh_writer (snd (snd x))) rs" and "i < j" and "j < length rs"
    and "rs ! i = (ctx, r, w)" and "posts_key (se_lib E) k r" and "rw_werr w = None"
    and "rs ! j = (ctx', r', w')" and "posts_key (se_lib E) k r'" and "rw_werr w' = None"
    and "k \<noteq> []"
    and "rw_status (snd (serve_all (se_lib E) srv rs s) ! i) = Some 201"
    and "rw_status (snd (serve_all (se_lib E) srv rs s) ! j) = Some 201"
  shows "\<exists>t u. created (se_lib E) (snd (serve_all (se_lib E) srv rs s) ! i) t
    \<and> created (se_lib E) (snd (serve_all (se_lib E) srv rs s) ! j) u \<and> ot_ID t = ot_ID u"
  using assms(2-6,9,13,14)
proof (induction rs arbitrary: s i j)
  case Nil
  then show ?case by simp
next
  case (Cons x rs)
  obtain c0 r0 w0 where x: "x = (c0, r0, w0)" by (cases x)
  let ?ex' = "ServeHTTP (se_lib E) srv c0 r0 \<lparr>ex_app = s, ex_rw = w0, ex_tel = []\<rparr>"
  have fresh: "fresh_writer w0" using Cons.prems(2) x by simp
  note ok1 = serve_ok [OF assms(1) fresh Cons.prems(1) refl, of c0 r0]
  obtain j' where j: "j = Suc j'" using Cons.prems(3) by (cases j) auto
  show ?case
  proof (cases i)
    case 0
    with Cons.prems x have "c0 = ctx" "r0 = r" "w0 = w" by simp_all
    with serve_created [OF assms(1) fresh Cons.prems(1) refl _ assms(12), of r0 c0] Cons.prems(7)
      assms(7,8) 0 x
    obtain t d where t: "created (se_lib E) (ex_rw ?ex') t"
      "(Some k, d) \<in> set (rows (ex_app ?ex'))" "t_id d = ot_ID t"
      by (auto simp: Let_def case_prod_beta)
    have "\<exists>u. created (se_lib E) (snd (serve_all (se_lib E) srv rs (ex_app ?ex')) ! j') u
        \<and> ot_ID u = t_id d" (is "\<exists>u. ?P u")
      by (rule later_created_same_id [OF assms(1) conjunct1 [OF ok1] t(2) _ _ _ assms(10,12,11)])
        (use Cons.prems x j in \<open>simp_all add: Let_def case_prod_beta\<close>)
    then obtain u where "?P u" by blast
    with t 0 j x show ?thesis
      by (intro exI [of _ t] exI [of _ u]) (simp add: Let_def case_prod_beta)
  next
    case (Suc i')
    with Cons.prems x j show ?thesis
      using Cons.IH [OF conjunct1 [OF ok1], of i' j'] by (simp add: Let_def case_prod_beta)
  qed
qed

end

section \<open>The server command's handler\<close>

definition server_handler :: "pg_types \<Rightarrow> ('c, process) api_handler" where
  "server_handler T =
     NewHandler (Submit (server_commander T)) (Querier_Get (NewQuerier (server_repo T)))"

lemma server_handler_eq:
  "server_handler T = NewHandler (Submit (server_commander T)) (Querier_Get (server_repo T))"
  by (simp add: server_handler_def NewQuerier_def)

interpretation api: api_backend "Submit (server_commander T)" "Querier_Get (server_repo T)"
  db_rows db_ok for T
proof unfold_locales
  fix s :: process
  assume ok: "db_ok s"
  show "uniq_rows (db_rows s)" by (rule db_ok_uniq [OF ok])
  show "db_ok s' \<and> submit_outcome c (db_rows s) (db_rows s') r"
    if "Submit (server_commander T) ctx c s = (s', r)" for ctx c s' r
    by (rule app.submit_effect [OF ok that])
  show "db_ok s' \<and> db_rows s' = db_rows s"
    if "Querier_Get (server_repo T) ctx i s = (s', rv)" for ctx i s' rv
    using that pg.get_ok [OF ok, of T ctx i] pg.get_rows [OF ok, of T ctx i]
      Querier_Get_state [of "server_repo T" ctx i s]
    by (simp add: server_repo_pg)
  show "\<exists>t\<in>snd ` set (db_rows s). tv_ID v = i \<and> t_id t = i \<and> tv_Status v = t_status t
        \<and> tv_CreatedAt v = t_createdAt t"
    if "Querier_Get (server_repo T) ctx i s = (s', Inr v)" for ctx i s' v
    using Querier_Get_ok [OF that] pg.get_found [OF ok, of T ctx i s']
    by (force simp: server_repo_pg)
  show "t_id (snd x) \<noteq> i"
    if "Querier_Get (server_repo T) ctx i s = (s', Inl e)" "errors_Is e ErrNotFound"
      "x \<in> set (db_rows s)" for ctx i s' e x
    using Querier_Get_err [OF that(1)] pg.get_missing [OF ok _ that(2,3), of T ctx i s']
    by (simp add: server_repo_pg)
qed

text \<open>A server and requests for the witnesses.\<close>

definition demo_srv :: "('c, 's) api_handler \<Rightarrow> ('c, 's) server" where
  "demo_srv h =
     \<lparr>sv_h = as_oas_handler (demo_lib demo_jx) h,
      sv_cfg = newServerConfig (demo_server_env demo_jx)
        [WithErrorHandler (Some (ErrorHandler (demo_lib demo_jx)))]\<rparr>"

lemma demo_srv: "api_server (demo_server_env demo_jx) h = Inr (demo_srv h)"
  by (simp add: api_server_def NewServer_def baseServer_def demo_srv_def)
    (simp add: demo_server_env_def)

lemma demo_posts_key: "posts_key (demo_lib demo_jx) ''k'' (demo_http ''POST'' ''/v1/tasks'')"
  by code_simp

definition demo_posts :: "(unit \<times> http_request \<times> resp_writer) list" where
  "demo_posts =
     [((), demo_http ''POST'' ''/v1/tasks'', demo_writer),
      ((), demo_http ''POST'' ''/v1/tasks'', demo_writer)]"

lemma demo_posts_answers:
  "map rw_status (snd (serve_all (demo_lib demo_jx) (demo_srv (server_handler demo_types)) demo_posts
     (demo_process (\<lambda>_. NoFault)))) = [Some 201, Some 201]"
  by code_simp

text \<open>
  Idempotency on the wire: of all the requests a server gets, in any order and under any
  database faults, two that create a task under the same idempotency key and are both answered
  with 201 carry the same task id in their bodies.
\<close>

lemma http_same_key_same_task:
  assumes "api_server E (server_handler T) = Inr srv" and "db_ok s"
    and "list_all (\<lambda>x. fresh_writer (snd (snd x))) rs" and "i < j" and "j < length rs"
    and "rs ! i = (ctx, r, w)" and "posts_key (se_lib E) k r" and "rw_werr w = None"
    and "rs ! j = (ctx', r', w')" and "posts_key (se_lib E) k r'" and "rw_werr w' = None"
    and "k \<noteq> []"
    and "rw_status (snd (serve_all (se_lib E) srv rs s) ! i) = Some 201"
    and "rw_status (snd (serve_all (se_lib E) srv rs s) ! j) = Some 201"
  shows "\<exists>t u. created (se_lib E) (snd (serve_all (se_lib E) srv rs s) ! i) t
    \<and> created (se_lib E) (snd (serve_all (se_lib E) srv rs s) ! j) u \<and> ot_ID t = ot_ID u"
  using assms unfolding server_handler_eq by (rule api.http_same_key_same_id)


lemma demo_writer_fresh [simp]: "fresh_writer demo_writer" "rw_werr demo_writer = None"
  by (simp_all add: fresh_writer_def demo_writer_def)

lemma http_same_key_same_task_example:
  "\<exists>t u. created (demo_lib demo_jx) (snd (serve_all (demo_lib demo_jx)
       (demo_srv (server_handler demo_types)) demo_posts (demo_process (\<lambda>_. NoFault))) ! 0) t
    \<and> created (demo_lib demo_jx) (snd (serve_all (demo_lib demo_jx)
       (demo_srv (server_handler demo_types)) demo_posts (demo_process (\<lambda>_. NoFault))) ! 1) u
    \<and> ot_ID t = ot_ID u"
proof -
  let ?ws = "snd (serve_all (demo_lib demo_jx) (demo_srv (server_handler demo_types)) demo_posts
      (demo_process (\<lambda>_. NoFault)))"
  have len: "length ?ws = 2" unfolding length_serve_all by (simp add: demo_posts_def)
  have "map rw_status ?ws ! 0 = Some 201" "map rw_status ?ws ! 1 = Some 201"
    unfolding demo_posts_answers by simp_all
  with len have st: "rw_status (?ws ! 0) = Some 201" "rw_status (?ws ! 1) = Some 201"
    by simp_all
  have len': "1 < length demo_posts" by (simp add: demo_posts_def)
  have "demo_posts ! 0 = ((), demo_http ''POST'' ''/v1/tasks'', demo_writer)"
    "demo_posts ! 1 = ((), demo_http ''POST'' ''/v1/tasks'', demo_writer)"
    "list_all (\<lambda>x. fresh_writer (snd (snd x))) demo_posts"
    by (simp_all add: demo_posts_def)
  from http_same_key_same_task [OF demo_srv demo_db_ok this(3) zero_less_one len' this(1) _ _ this(2),
      of "''k''", unfolded demo_server_lib, OF demo_posts_key demo_writer_fresh(2) demo_posts_key
      demo_writer_fresh(2) _ st]
  show ?thesis by simp
qed

text \<open>
  C26. Read your writes on the wire: when a request to create a task is answered with 201, its
  body is a task with a stored id, and a request for that id that reaches the database is answered
  with 200 and a task of the same id and status.
\<close>

theorem http_post_then_get:
  assumes "api_server E (server_handler T) = Inr srv" and "db_ok s"
    and "fresh_writer w" and "rw_werr w = None" and "fresh_writer w'" and "rw_werr w' = None"
    and "serve_route (se_lib E) [] r = CallCreateTask esc"
    and "ex' = ServeHTTP (se_lib E) srv ctx r \<lparr>ex_app = s, ex_rw = w, ex_tel = []\<rparr>"
    and "rw_status (ex_rw ex') = Some 201"
    and "serve_route (se_lib E) [] r' = CallGetTask arg esc'"
    and "ex'' = ServeHTTP (se_lib E) srv ctx' r' \<lparr>ex_app = ex_app ex', ex_rw = w', ex_tel = []\<rparr>"
    and "snd (pg_env (ex_app ex') (pg_count (ex_app ex'))) = NoFault"
  shows "\<exists>t. created (se_lib E) (ex_rw ex') t
    \<and> ot_ID t \<in> (\<lambda>x. t_id (snd x)) ` set (db_rows (ex_app ex'))
    \<and> (decodeGetTaskParams (se_lib E) arg esc' = Inr \<lparr>gp_ID = ot_ID t\<rparr> \<longrightarrow>
         rw_status (ex_rw ex'') = Some 200
         \<and> (\<exists>u. Task_MarshalJSON (lib_jx (se_lib E)) u = Inr (rw_body (ex_rw ex''))
                \<and> ot_ID u = ot_ID t \<and> ot_Status u = ot_Status t))"
proof -
  let ?L = "se_lib E" and ?h = "server_handler T" and ?s1 = "ex_app ex'"
  let ?ex = "\<lparr>ex_app = s, ex_rw = w, ex_tel = []\<rparr>"
  let ?ex1 = "\<lparr>ex_app = ?s1, ex_rw = w', ex_tel = []\<rparr>"
  have fresh: "fresh_writer (ex_rw ?ex)" "fresh_writer (ex_rw ?ex1)" using assms(3,5) by simp_all
  obtain e where e: "ended ?L CreateTaskOperation w [] e ex'" "create_ends ?L ?h ctx r s ?s1 e"
    by (rule serve_operation [OF assms(1) fresh(1) assms(8)])
      (simp_all add: assms(7) is_operation_def op_of_call_def)
  have st: "ending_status ?L e = 201" using ended_status [OF e(1)] assms(9) by simp
  from e(2) obtain q t where q: "Handler_CreateTask ?L ?h ctx q s = (?s1, Inr (CreateTaskResTask t))"
    "e = Answered 201 (Task_Encode t [])"
  proof (cases rule: create_endsE)
    case (answered q raw cl t)
    then show ?thesis using that e(1) assms(4) by (auto simp: ended_def)
  qed (use st classify_error_not_201 in \<open>auto simp: ending_status_def\<close>)
  have t: "created ?L (ex_rw ex') t"
    using e(1) by (simp add: q(2) ended_def created_def Task_MarshalJSON_def marshal_def)
  note eff = api.create_task_effect [OF assms(2) q(1) [unfolded server_handler_eq]]
  obtain k d where d: "(k, d) \<in> set (db_rows ?s1)" "t_id d = ot_ID t"
    "toOASStatus (t_status d) = Inr (ot_Status t)"
    using eff(3) [OF refl] by auto
  have "List.find (\<lambda>x. t_id (snd x) = ot_ID t) (db_rows ?s1) = Some (k, d)"
    using uniq_find_id [OF db_ok_uniq [OF eff(1)] d(1)] d(2) by simp
  with assms(12) have "snd (Handler_GetTask ?h ctx' \<lparr>gp_ID = ot_ID t\<rparr> ?s1) =
      Inr (GetTaskResTask \<lparr>ot_ID = ot_ID t, ot_Status = ot_Status t, ot_CreatedAt = t_createdAt d\<rparr>)"
    by (simp add: Handler_GetTask_def server_handler_eq NewHandler_def Querier_Get_def server_repo_pg
        Repo_Get_pg [OF eff(1)] toOASTaskView_def d(2,3))
  moreover obtain e' where e': "ended ?L GetTaskOperation w' [] e' ex''"
    "get_ends ?L ?h ctx' arg esc' ?s1 (ex_app ex'') e'"
    by (rule serve_operation [OF assms(1) fresh(2) assms(11)])
      (simp_all add: assms(10) is_operation_def op_of_call_def)
  ultimately have "e' = Answered 200 (Task_Encode
      \<lparr>ot_ID = ot_ID t, ot_Status = ot_Status t, ot_CreatedAt = t_createdAt d\<rparr> [])"
    if "decodeGetTaskParams ?L arg esc' = Inr \<lparr>gp_ID = ot_ID t\<rparr>"
    using assms(6) that by (auto simp: get_ends_def ended_def)
  with e'(1) have "rw_status (ex_rw ex'') = Some 200 \<and>
      Task_MarshalJSON (lib_jx ?L)
        \<lparr>ot_ID = ot_ID t, ot_Status = ot_Status t, ot_CreatedAt = t_createdAt d\<rparr> =
      Inr (rw_body (ex_rw ex''))"
    if "decodeGetTaskParams ?L arg esc' = Inr \<lparr>gp_ID = ot_ID t\<rparr>"
    using that by (simp add: ended_def Task_MarshalJSON_def marshal_def)
  moreover have "ot_ID t \<in> (\<lambda>x. t_id (snd x)) ` set (db_rows ?s1)" using d(1,2) by force
  ultimately show ?thesis
    using t by (intro exI [of _ t]) (metis oas_task.select_convs(1,2))
qed

theorem http_post_then_get_witness:
  "rw_status (snd (serve_all (demo_lib demo_jx) (demo_srv (server_handler demo_types))
     [((), demo_http ''POST'' ''/v1/tasks'', demo_writer),
      ((), demo_http ''GET'' ''/v1/tasks/x'', demo_writer)] (demo_process (\<lambda>_. NoFault))) ! 1) =
   Some 200"
proof -
  let ?L = "demo_lib demo_jx" and ?srv = "demo_srv (server_handler demo_types)"
  let ?s = "demo_process (\<lambda>_. NoFault)"
  let ?ex' = "ServeHTTP ?L ?srv () (demo_http ''POST'' ''/v1/tasks'')
      \<lparr>ex_app = ?s, ex_rw = demo_writer, ex_tel = []\<rparr>"
  let ?ex'' = "ServeHTTP ?L ?srv () (demo_http ''GET'' ''/v1/tasks/x'')
      \<lparr>ex_app = ex_app ?ex', ex_rw = demo_writer, ex_tel = []\<rparr>"
  have route: "serve_route ?L [] (demo_http ''GET'' ''/v1/tasks/x'') = CallGetTask ''x'' False"
    by (simp add: serve_route_def serve_elem_def demo_http_def cutPrefix_def)
  have st: "rw_status (ex_rw ?ex') = Some 201" by code_simp
  have "map (\<lambda>x. t_id (snd x)) (db_rows (ex_app ?ex')) = [1]" by code_simp
  then have "set (map (\<lambda>x. t_id (snd x)) (db_rows (ex_app ?ex'))) = set [1]" by (rule arg_cong)
  then have ids: "(\<lambda>x. t_id (snd x)) ` set (db_rows (ex_app ?ex')) = {1}"
    by (simp only: set_map list.set)
  have nf: "snd (pg_env (ex_app ?ex') (pg_count (ex_app ?ex'))) = NoFault" by code_simp
  have dec: "decodeGetTaskParams ?L ''x'' False = Inr \<lparr>gp_ID = 1\<rparr>"
    by (simp add: decodeGetTaskParams_def demo_lib_def)
  from http_post_then_get [OF demo_srv demo_db_ok demo_writer_fresh demo_writer_fresh _ refl,
      unfolded demo_server_lib, OF demo_routes(1) st route refl nf]
  have "rw_status (ex_rw ?ex'') = Some 200" using ids dec by auto
  then show ?thesis by (simp add: Let_def case_prod_beta)
qed

end
