(* ===== verification/Client_Props.thy ===== *)
theory Client_Props
  imports Oas_Client Api_Wiring
begin

text \<open>
  The generated client against the server: a transport that carries a request to
  \<open>ServeHTTP\<close> and its answer back, and what a caller of the client then gets. The first
  section holds what the response decoders make of the bodies the server writes.
\<close>

section \<open>A transport in one process\<close>

definition new_writer :: resp_writer where
  "new_writer =
     \<lparr>rw_header = [], rw_status = None, rw_sent = [], rw_body = [], rw_werr = None,
      rw_recorder = None\<rparr>"

definition request_of :: "client_request \<Rightarrow> http_request" where
  "request_of q =
     \<lparr>rq_Method = cq_Method q, rq_Path = u_Path (cq_URL q), rq_RawPath = u_RawPath (cq_URL q),
      rq_Header = (\<lambda>h. if h = ''Content-Type'' then cq_ContentType q else []),
      rq_ContentLength = int (length (cq_Body q)), rq_Body = cq_Body q, rq_BodyErr = None\<rparr>"

definition response_of :: "resp_writer \<Rightarrow> http_response" where
  "response_of w =
     \<lparr>rs_StatusCode = (case rw_status w of None \<Rightarrow> 200 | Some c \<Rightarrow> c),
      rs_Header = header_of (rw_sent w), rs_Body = rw_body w, rs_BodyErr = None\<rparr>"

definition loopback :: "lib \<Rightarrow> ('c, 's) server \<Rightarrow> 'c \<Rightarrow> 's http_client" where
  "loopback L srv ctx q s =
     (let ex = ServeHTTP L srv ctx (request_of q) \<lparr>ex_app = s, ex_rw = new_writer, ex_tel = []\<rparr>
      in (ex_app ex, Inr (response_of (ex_rw ex))))"

text \<open>What \<open>mime.ParseMediaType\<close> answers for the two content types in play.\<close>

definition json_media :: "lib \<Rightarrow> bool" where
  "json_media L \<longleftrightarrow>
     lib_mime L ''application/json'' = Inr ''application/json'' \<and>
     lib_mime L ''application/json; charset=utf-8'' = Inr ''application/json''"

lemma new_writer_fresh [simp]: "fresh_writer new_writer" "rw_werr new_writer = None"
  by (simp_all add: new_writer_def fresh_writer_def)

lemma demo_json_media [simp]: "json_media (demo_lib J)"
  by (simp add: json_media_def demo_lib_def)

section \<open>Decoding what the server wrote\<close>

lemma decode_response_reads:
  assumes "json_media L" and "rs_BodyErr resp = None"
    and "rs_Header resp ''Content-Type'' = ''application/json; charset=utf-8''"
    and "rs_Body resp = jx_Bytes (lib_jx L) (emit v)" and "jx_reads_back (lib_jx L) tm v"
    and "\<And>n. reads tm v n \<Longrightarrow> dec n (Some zero) = (Some x, None)" and "validate (Some x) = None"
  shows "decode_response L dec validate zero resp = Inr x"
  using assms by (simp add: decode_response_def json_media_def jx_reads_back_def Let_def)

lemma alias_decode_reads:
  assumes "reads tm (error_val e) n"
  shows "CreateTaskBadRequest_Decode J n (Some z) = (Some e, None)"
    "CreateTaskInternalServerError_Decode J n (Some z) = (Some e, None)"
    "GetTaskNotFound_Decode J n (Some z) = (Some e, None)"
    "GetTaskInternalServerError_Decode J n (Some z) = (Some e, None)"
  by (simp_all add: error_decode_reads [OF assms] alias_Decode_def
      CreateTaskBadRequest_Decode_def CreateTaskInternalServerError_Decode_def
      GetTaskNotFound_Decode_def GetTaskInternalServerError_Decode_def)

text \<open>The answer of an ended operation as the transport delivers it.\<close>

lemma ended_response:
  assumes "ended L op w ts e ex"
  shows "rs_StatusCode (response_of (ex_rw ex)) = ending_status L e"
    "rs_Header (response_of (ex_rw ex)) ''Content-Type'' = ''application/json; charset=utf-8''"
    "rs_BodyErr (response_of (ex_rw ex)) = None"
    "rs_Body (response_of (ex_rw ex)) = rw_body (ex_rw ex)"
  using assms ended_status [OF assms] by (simp_all add: response_of_def ended_def header_of_Set)

definition error_document :: "lib \<Rightarrow> gerr \<Rightarrow> oas_error" where
  "error_document L err =
     \<lparr>oe_Code = fst (snd (classify_error L err)), oe_Message = snd (snd (classify_error L err))\<rparr>"

lemma error_document_valid: "oe_Code (error_document L err) \<in> set ErrorCode_AllValues"
  by (auto simp: error_document_def classify_error_def ErrorCode_AllValues_def
      split: option.splits)

lemma ended_body:
  assumes "ended L op w ts e ex" and "rw_werr w = None"
  shows "e = Failed err \<Longrightarrow> rw_body (ex_rw ex) = jx_Bytes (lib_jx L) (emit (error_val (error_document L err)))"
    "e = Answered c enc \<Longrightarrow> rw_body (ex_rw ex) = jx_Bytes (lib_jx L) enc"
    "e \<noteq> Broken c werr"
  using assms by (auto simp: ended_def case_prod_beta Error_Encode_emit error_document_def)

lemma received_task:
  assumes "ended L op w ts (Answered c (Task_Encode t [])) ex" and "rw_werr w = None"
    and "json_media L" and "jx_reads_back (lib_jx L) tm (task_val t)"
    and "ot_Status t \<in> set TaskStatus_AllValues"
  shows "decode_response L (Task_Decode (lib_jx L)) Task_Validate zero_oas_task
    (response_of (ex_rw ex)) = Inr (t\<lparr>ot_CreatedAt := tm (ot_CreatedAt t)\<rparr>)"
proof (rule decode_response_reads [where v = "task_val t" and tm = tm])
  show "rs_Body (response_of (ex_rw ex)) = jx_Bytes (lib_jx L) (emit (task_val t))"
    using ended_response(4) [OF assms(1)] ended_body(2) [OF assms(1,2) refl]
    by (simp add: Task_Encode_emit)
qed (use assms ended_response [OF assms(1)] task_decode_reads in simp_all)

lemma received_error:
  assumes "ended L op w ts e ex" and "rw_body (ex_rw ex) = jx_Bytes (lib_jx L) (emit (error_val d))"
    and "json_media L" and "jx_reads_back (lib_jx L) tm (error_val d)"
    and "oe_Code d \<in> set ErrorCode_AllValues"
    and "\<And>n. reads tm (error_val d) n \<Longrightarrow> dec n (Some zero) = (Some d, None)"
    and "validate (Some d) = Error_Validate (Some d)"
  shows "decode_response L dec validate zero (response_of (ex_rw ex)) = Inr d"
proof (rule decode_response_reads [where v = "error_val d" and tm = tm])
  show "dec n (Some zero) = (Some d, None)" if "reads tm (error_val d) n" for n
    using that by (rule assms(6))
qed (use assms ended_response [OF assms(1)] in simp_all)

section \<open>createTask from end to end\<close>

lemma Validate_read_request:
  "CreateTaskRequest_Validate vs (Some (read_request J r)) = CreateTaskRequest_Validate vs (Some r)"
  by (simp add: CreateTaskRequest_Validate_def read_request_def OptString_Get_def NewOptString_def)

lemma arriving_request:
  assumes "json_media L" and "jx_reads_back (lib_jx L) tm (request_val (lib_jx L) req)"
    and "op_Set (cr_Payload req) \<Longrightarrow> payload_ok (lib_jx L) (op_Value (cr_Payload req))"
    and "jx_Bytes (lib_jx L) (emit (request_val (lib_jx L) req)) \<noteq> []"
    and "CreateTaskRequest_Validate (lib_validate L) (Some req) = None"
  shows "\<exists>raw. decodeCreateTaskRequest L (request_of (encodeCreateTaskRequest L req q)) =
    (Some (read_request (lib_jx L) req), raw, None, None)"
proof -
  let ?J = "lib_jx L"
  let ?b = "jx_Bytes ?J (emit (request_val ?J req))"
  have enc: "CreateTaskRequest_Encode ?J req [] = emit (request_val ?J req)"
    using CreateTaskRequest_Encode_emit [of req ?J "[]"] assms(3) by simp
  have "CreateTaskRequest_Decode ?J (doc_root (jx_DecodeBytes ?J ?b)) (Some zero_create_task_request) =
      (Some (read_request ?J req), None)"
    by (rule request_decode_reads [where tm = tm, OF assms(3)])
      (use assms(2) in \<open>simp_all add: jx_reads_back_def Let_def\<close>)
  then have "decode_body L (request_of (encodeCreateTaskRequest L req q)) =
      (Some (read_request ?J req), ?b, None)"
    using assms(1,2,4,5)
    by (simp add: decode_body_def request_of_def encodeCreateTaskRequest_def json_media_def enc
        jx_reads_back_def Let_def Validate_read_request)
  then show ?thesis by (simp add: decodeCreateTaskRequest_def)
qed

lemma post_route:
  assumes "cq_Method q = ''POST''" and "u_Path (cq_URL q) = ''/v1/tasks''" and "u_RawPath (cq_URL q) = []"
  shows "serve_route L [] (request_of (encodeCreateTaskRequest L' req q)) = CallCreateTask False"
  using assms
  by (simp add: serve_route_def serve_elem_def request_of_def encodeCreateTaskRequest_def
      cutPrefix_def)

lemma Handler_CreateTask_valid:
  "Handler_CreateTask L h ctx q s = (s', Inr (CreateTaskResTask t)) \<Longrightarrow>
     ot_Status t \<in> set TaskStatus_AllValues"
  using toOASStatus_valid
  by (auto simp: Handler_CreateTask_def toOASTask_def Let_def case_prod_beta
      split: sum.splits prod.splits)

lemma Handler_GetTask_valid:
  "Handler_GetTask h ctx p s = (s', Inr (GetTaskResTask t)) \<Longrightarrow>
     ot_Status t \<in> set TaskStatus_AllValues"
  using toOASStatus_valid
  by (auto simp: Handler_GetTask_def toOASTaskView_def split: sum.splits prod.splits if_splits)

text \<open>What a caller of the client must get for what the handler answered.\<close>

definition create_seen ::
  "lib \<Rightarrow> (gotime \<Rightarrow> gotime) \<Rightarrow> gerr + create_task_res \<Rightarrow> gerr + create_task_res \<Rightarrow> bool" where
  "create_seen L tm answer seen \<longleftrightarrow>
     (case answer of
        Inr (CreateTaskResTask t) \<Rightarrow>
          (jx_reads_back (lib_jx L) tm (task_val t) \<longrightarrow>
             seen = Inr (CreateTaskResTask (t\<lparr>ot_CreatedAt := tm (ot_CreatedAt t)\<rparr>)))
      | Inr _ \<Rightarrow> False
      | Inl err \<Rightarrow>
          (jx_reads_back (lib_jx L) tm (error_val (error_document L err)) \<longrightarrow>
             seen = Inr ((if fst (classify_error L err) = 400 then CreateTaskBadRequest
                          else CreateTaskInternalServerError) (error_document L err))))"

lemma create_exchange_seen:
  assumes "ended L CreateTaskOperation w ts e ex" and "rw_werr w = None"
    and "create_ends L h ctx r s s' e" and "decodeCreateTaskRequest L r = (Some q, raw, cl, None)"
    and "json_media L"
  shows "s' = fst (Handler_CreateTask L h ctx q s)
    \<and> create_seen L tm (snd (Handler_CreateTask L h ctx q s))
        (decodeCreateTaskResponse L (response_of (ex_rw ex)))"
  using assms(3)
proof (cases rule: create_endsE)
  case (failed q' raw' cl' err)
  note e = assms(1) [unfolded failed(3)]
  note rec = received_error [OF e ended_body(1) [OF e assms(2) refl] assms(5) _
      error_document_valid, where tm = tm]
  have bad: "decode_response L (CreateTaskBadRequest_Decode (lib_jx L))
      CreateTaskBadRequest_Validate zero_oas_error (response_of (ex_rw ex)) =
      Inr (error_document L err)"
    and int: "decode_response L (CreateTaskInternalServerError_Decode (lib_jx L))
      CreateTaskInternalServerError_Validate zero_oas_error (response_of (ex_rw ex)) =
      Inr (error_document L err)"
    if "jx_reads_back (lib_jx L) tm (error_val (error_document L err))"
    by (rule rec; simp add: that alias_decode_reads [where tm = tm] error_document_valid
        CreateTaskBadRequest_Validate_def CreateTaskInternalServerError_Validate_def)+
  have "rs_StatusCode (response_of (ex_rw ex)) = fst (classify_error L err)"
    using ended_response(1) [OF e] by (simp add: ending_status_def)
  then show ?thesis
    using assms(4) failed(1,2) classify_error_code [of L err] bad int
    by (auto simp: create_seen_def decodeCreateTaskResponse_def)
next
  case (answered q' raw' cl' t)
  then have e: "ended L CreateTaskOperation w ts (Answered 201 (Task_Encode t [])) ex"
    using assms(1) ended_body(3) [OF assms(1,2)] by auto
  have "rs_StatusCode (response_of (ex_rw ex)) = 201"
    using ended_response(1) [OF e] by (simp add: ending_status_def)
  with received_task [OF e assms(2,5) _ Handler_CreateTask_valid [OF answered(2)]] answered(1,2)
    assms(4)
  show ?thesis by (auto simp: create_seen_def decodeCreateTaskResponse_def)
qed (use assms(4) in simp)

text \<open>
  C27. A task submitted through the generated client arrives and its answer comes back: over a
  transport that hands the request to the server, for every valid request the JSON library can
  carry, the handler runs once on a request no accessor tells from the one the caller built, the
  state becomes the one it left, and the caller gets the handler's task, or, for an error, the
  contract's document for it under the type of its status.
\<close>

theorem client_create_end_to_end:
  assumes "api_server SE h = Inr srv"
    and "cc_Client (cl_cfg c) = loopback (se_lib SE) srv ctx" and "ce_lib E = se_lib SE"
    and "ce_newRequest E ''POST'' (ce_addPathParts E (ce_clone E (requestURL c cctx)) [''/v1/tasks'']) = Inr q"
    and "cq_Method q = ''POST''" and "u_Path (cq_URL q) = ''/v1/tasks''" and "u_RawPath (cq_URL q) = []"
    and "json_media (se_lib SE)"
    and "jx_reads_back (lib_jx (se_lib SE)) tm (request_val (lib_jx (se_lib SE)) req)"
    and "op_Set (cr_Payload req) \<Longrightarrow> payload_ok (lib_jx (se_lib SE)) (op_Value (cr_Payload req))"
    and "jx_Bytes (lib_jx (se_lib SE)) (emit (request_val (lib_jx (se_lib SE)) req)) \<noteq> []"
    and "CreateTaskRequest_Validate (lib_validate (se_lib SE)) (Some req) = None"
  shows "\<exists>q'. same_request q' req
    \<and> fst (Client_CreateTask E c cctx req s) = fst (Handler_CreateTask (se_lib SE) h ctx q' s)
    \<and> (\<exists>seen. create_seen (se_lib SE) tm (snd (Handler_CreateTask (se_lib SE) h ctx q' s)) seen
         \<and> snd (Client_CreateTask E c cctx req s) = map_sum (Wrapf ''decode response'') id seen)"
proof -
  let ?L = "se_lib SE"
  let ?q' = "read_request (lib_jx ?L) req" and ?r = "request_of (encodeCreateTaskRequest ?L req q)"
  let ?ex = "\<lparr>ex_app = s, ex_rw = new_writer, ex_tel = []\<rparr>"
  let ?ex' = "ServeHTTP ?L srv ctx ?r ?ex"
  have fresh: "fresh_writer (ex_rw ?ex)" by simp
  have route: "serve_route ?L [] ?r = CallCreateTask False" by (rule post_route) (use assms in auto)
  obtain e where e: "ended ?L CreateTaskOperation new_writer [] e ?ex'"
    "create_ends ?L h ctx ?r s (ex_app ?ex') e"
    by (rule serve_operation [OF assms(1) fresh refl, of ?r ctx])
      (simp_all add: route is_operation_def op_of_call_def)
  obtain raw where dec: "decodeCreateTaskRequest ?L ?r = (Some ?q', raw, None, None)"
    using arriving_request [OF assms(8-12)] by blast
  note seen = create_exchange_seen [OF e(1) new_writer_fresh(2) e(2) dec assms(8)]
  have "Client_CreateTask E c cctx req s = (ex_app ?ex',
      map_sum (Wrapf ''decode response'') id (decodeCreateTaskResponse ?L (response_of (ex_rw ?ex'))))"
    using assms(2-4)
    by (auto simp: Client_CreateTask_def sendCreateTask_def loopback_def Let_def split: sum.splits)
  with seen same_read_request [OF assms(10)] show ?thesis
    by (intro exI [of _ ?q']) auto
qed

text \<open>A client of the demo server.\<close>

definition demo_client_env :: "jx_env \<Rightarrow> string \<Rightarrow> 's client_env" where
  "demo_client_env J path =
     \<lparr>ce_lib = demo_lib J, ce_parse = (\<lambda>p. Inr \<lparr>u_Path = p, u_RawPath = [], u_Rest = []\<rparr>),
      ce_clone = id, ce_addPathParts = (\<lambda>u ps. u\<lparr>u_Path := u_Path u @ concat ps\<rparr>),
      ce_newRequest = (\<lambda>m u. Inr \<lparr>cq_Method = m, cq_URL = u, cq_ContentType = [], cq_Body = []\<rparr>),
      ce_defaultClient = (\<lambda>q s. (s, Inl (Plain ''no route to host''))),
      ce_globalTracer = 1, ce_globalMeter = 2,
      ce_requestsErr = None, ce_errorsErr = None, ce_durationErr = None\<rparr>"

definition demo_client :: "lib \<Rightarrow> ('c, 's) server \<Rightarrow> 'c \<Rightarrow> 's oas_client" where
  "demo_client L srv ctx =
     \<lparr>cl_serverURL = \<lparr>u_Path = [], u_RawPath = [], u_Rest = []\<rparr>,
      cl_cfg = newClientConfig (demo_client_env (lib_jx L) []) [CWithClient (Some (loopback L srv ctx))]\<rparr>"

lemma demo_client_wired: "cc_Client (cl_cfg (demo_client L srv ctx)) = loopback L srv ctx"
  by (simp add: demo_client_def newClientConfig_def Let_def)

definition demo_created :: oas_task where
  "demo_created = \<lparr>ot_ID = 7, ot_Status = ''pending'', ot_CreatedAt = zero_time\<rparr>"

definition demo_wire :: jx_env where
  "demo_wire = echo2_jx id demo_request_val (task_val demo_created)"

lemma demo_wire_reads:
  "jx_reads_back demo_wire id demo_request_val" "jx_reads_back demo_wire id (task_val demo_created)"
  unfolding demo_wire_def
  by (rule echo2_jx_reads_back) (simp add: echo2_jx_reads_back demo_request_val_def task_val_def)

lemma demo_wire_request_val: "request_val demo_wire demo_request = demo_request_val"
  by (simp add: request_val_def demo_request_def demo_request_val_def payload_val_def demo_wire_def
      echo2_jx_def payload_init_def)

lemma demo_backend_creates:
  "Handler_CreateTask L demo_backend () q () = ((), Inr (CreateTaskResTask demo_created))"
  if "lib_json_compact L = Inr"
  using that
  by (auto simp: Handler_CreateTask_def request_payload_def json_Marshal_payload_def
      Payload_MarshalJSON_def marshal_def demo_backend_def NewHandler_def tasks_Submit_def
      toOASTask_def toOASStatus_def status_defs oas_status_defs demo_created_def Let_def
      case_prod_beta)

theorem client_create_end_to_end_witness:
  "\<exists>srv. api_server (demo_server_env demo_wire) demo_backend = Inr srv
     \<and> snd (Client_CreateTask (demo_client_env demo_wire [])
          (demo_client (demo_lib demo_wire) srv ()) None demo_request ()) =
        Inr (CreateTaskResTask demo_created)"
proof -
  let ?J = demo_wire and ?L = "demo_lib demo_wire"
  let ?E = "demo_client_env ?J []"
  obtain srv where srv: "api_server (demo_server_env ?J) demo_backend = Inr srv"
    by (rule demo_server)
  have jx: "lib_jx ?L = ?J" by (simp add: demo_lib_def)
  have pay: "payload_ok ?J (op_Value (cr_Payload demo_request))"
    by (simp add: payload_ok_def demo_request_def demo_wire_def echo2_jx_def payload_init_def
        insert_commute)
  have val: "CreateTaskRequest_Validate (lib_validate ?L) (Some demo_request) = None"
    by (simp add: CreateTaskRequest_Validate_ok [OF demo_lib_validate] demo_request_def)
  have bytes: "jx_Bytes ?J (emit demo_request_val) \<noteq> []"
    by (simp add: demo_wire_def echo2_jx_def)
  have new: "ce_newRequest ?E ''POST'' (ce_addPathParts ?E (ce_clone ?E
        (requestURL (demo_client ?L srv ()) None)) [''/v1/tasks'']) =
      Inr \<lparr>cq_Method = ''POST'', cq_URL = \<lparr>u_Path = ''/v1/tasks'', u_RawPath = [], u_Rest = []\<rparr>,
           cq_ContentType = [], cq_Body = []\<rparr>"
    by (simp add: demo_client_env_def demo_client_def requestURL_def)
  have lib: "ce_lib ?E = ?L" by (simp add: demo_client_env_def)
  note e2e = client_create_end_to_end [OF srv, unfolded demo_server_lib jx,
      OF demo_client_wired lib new _ _ _ demo_json_media, where req = demo_request and tm = id
      and s = "()", unfolded demo_wire_request_val]
  obtain q' seen where q':
    "create_seen ?L id (snd (Handler_CreateTask ?L demo_backend () q' ())) seen"
    "snd (Client_CreateTask ?E (demo_client ?L srv ()) None demo_request ()) =
       map_sum (Wrapf ''decode response'') id seen"
    using e2e pay val bytes demo_wire_reads(1) by auto
  have "lib_json_compact ?L = Inr" by (simp add: demo_lib_def)
  from demo_backend_creates [OF this] q' srv demo_wire_reads(2) show ?thesis
    by (intro exI [of _ srv]) (auto simp: create_seen_def jx)
qed

section \<open>getTask from end to end\<close>

definition get_seen ::
  "lib \<Rightarrow> (gotime \<Rightarrow> gotime) \<Rightarrow> gerr + get_task_res \<Rightarrow> gerr + get_task_res \<Rightarrow> bool" where
  "get_seen L tm answer seen \<longleftrightarrow>
     (case answer of
        Inr (GetTaskResTask t) \<Rightarrow>
          (jx_reads_back (lib_jx L) tm (task_val t) \<longrightarrow>
             seen = Inr (GetTaskResTask (t\<lparr>ot_CreatedAt := tm (ot_CreatedAt t)\<rparr>)))
      | Inr (GetTaskNotFound oe) \<Rightarrow>
          (jx_reads_back (lib_jx L) tm (error_val oe) \<longrightarrow> seen = Inr (GetTaskNotFound oe))
      | Inr _ \<Rightarrow> False
      | Inl err \<Rightarrow>
          if fst (classify_error L err) = 400 then seen = Inl (UnexpectedStatusCode 400)
          else jx_reads_back (lib_jx L) tm (error_val (error_document L err)) \<longrightarrow>
                 seen = Inr (GetTaskInternalServerError (error_document L err)))"

lemma get_status_unexpected:
  "rs_StatusCode resp = 400 \<Longrightarrow> decodeGetTaskResponse L resp = Inl (UnexpectedStatusCode 400)"
  by (simp add: decodeGetTaskResponse_def)

lemma get_exchange_seen:
  assumes "ended L GetTaskOperation w ts e ex" and "rw_werr w = None"
    and "get_ends L h ctx arg esc s s' e" and "decodeGetTaskParams L arg esc = Inr params"
    and "json_media L"
  shows "s' = fst (Handler_GetTask h ctx params s)
    \<and> get_seen L tm (snd (Handler_GetTask h ctx params s))
        (decodeGetTaskResponse L (response_of (ex_rw ex)))"
  using assms(3)
proof (cases rule: get_endsE)
  case (failed params' err)
  note e = assms(1) [unfolded failed(3)]
  have st: "rs_StatusCode (response_of (ex_rw ex)) = fst (classify_error L err)"
    using ended_response(1) [OF e] by (simp add: ending_status_def)
  have "decode_response L (GetTaskInternalServerError_Decode (lib_jx L))
      GetTaskInternalServerError_Validate zero_oas_error (response_of (ex_rw ex)) =
      Inr (error_document L err)"
    if "jx_reads_back (lib_jx L) tm (error_val (error_document L err))"
    by (rule received_error [OF e ended_body(1) [OF e assms(2) refl] assms(5) _
          error_document_valid, where tm = tm];
        simp add: that alias_decode_reads [where tm = tm] GetTaskInternalServerError_Validate_def)
  then show ?thesis
    using assms(4) failed(1,2) classify_error_code [of L err] st get_status_unexpected
    by (auto simp: get_seen_def decodeGetTaskResponse_def)
next
  case (found params' t)
  then have e: "ended L GetTaskOperation w ts (Answered 200 (Task_Encode t [])) ex"
    using assms(1) ended_body(3) [OF assms(1,2)] by auto
  have "rs_StatusCode (response_of (ex_rw ex)) = 200"
    using ended_response(1) [OF e] by (simp add: ending_status_def)
  with received_task [OF e assms(2,5) _ Handler_GetTask_valid [OF found(2)]] found(1,2) assms(4)
  show ?thesis by (auto simp: get_seen_def decodeGetTaskResponse_def)
next
  case (missing params' oe)
  then have e: "ended L GetTaskOperation w ts (Answered 404 (GetTaskNotFound_Encode oe [])) ex"
    using assms(1) ended_body(3) [OF assms(1,2)] by auto
  have st: "rs_StatusCode (response_of (ex_rw ex)) = 404"
    using ended_response(1) [OF e] by (simp add: ending_status_def)
  have body: "rw_body (ex_rw ex) = jx_Bytes (lib_jx L) (emit (error_val oe))"
    using ended_body(2) [OF e assms(2) refl] by (simp add: GetTaskNotFound_Encode_def Error_Encode_emit)
  have valid: "oe_Code oe \<in> set ErrorCode_AllValues"
    by (simp add: missing(3) ErrorCode_AllValues_def)
  have "decode_response L (GetTaskNotFound_Decode (lib_jx L)) GetTaskNotFound_Validate
      zero_oas_error (response_of (ex_rw ex)) = Inr oe"
    if "jx_reads_back (lib_jx L) tm (error_val oe)"
    by (rule received_error [OF e body assms(5), where tm = tm];
        simp add: that alias_decode_reads [where tm = tm] GetTaskNotFound_Validate_def valid)
  then show ?thesis
    using assms(4) missing(1,2) st by (auto simp: get_seen_def decodeGetTaskResponse_def)
qed (use assms(4) in simp)

lemma get_route:
  assumes "cq_Method q = ''GET''" and "u_Path (cq_URL q) = ''/v1/tasks/'' @ arg"
    and "u_RawPath (cq_URL q) = []" and "CHR ''/'' \<notin> set arg"
  shows "serve_route L [] (request_of q) = CallGetTask arg False"
proof -
  have "strings_IndexByte arg (CHR ''/'') = None"
    using assms(4) by (simp add: strings_IndexByte_None)
  then show ?thesis
    using assms(1-3) by (simp add: serve_route_def serve_elem_def request_of_def cutPrefix_def)
qed

text \<open>
  C28. Reading a task through the generated client: over the same transport, when the id survives
  its way through the path, the caller gets the task the handler found or its 404, an internal
  error as the 500 document; only an answer with 400 is beyond the client.
\<close>

theorem client_get_end_to_end:
  assumes "api_server SE h = Inr srv"
    and "cc_Client (cl_cfg c) = loopback (se_lib SE) srv ctx" and "ce_lib E = se_lib SE"
    and "lib_path_encode (se_lib SE) (lib_uuid_string (se_lib SE) i) = Inr encoded"
    and "ce_newRequest E ''GET''
      (ce_addPathParts E (ce_clone E (requestURL c cctx)) [''/v1/tasks/'', encoded]) = Inr q"
    and "cq_Method q = ''GET''" and "u_Path (cq_URL q) = ''/v1/tasks/'' @ arg"
    and "u_RawPath (cq_URL q) = []" and "CHR ''/'' \<notin> set arg" and "arg \<noteq> []"
    and "lib_path_value (se_lib SE) arg = Inr (lib_uuid_string (se_lib SE) i)"
    and "lib_to_uuid (se_lib SE) (lib_uuid_string (se_lib SE) i) = Inr i"
    and "json_media (se_lib SE)"
  shows "fst (Client_GetTask E c cctx \<lparr>gp_ID = i\<rparr> s) = fst (Handler_GetTask h ctx \<lparr>gp_ID = i\<rparr> s)
    \<and> (\<exists>seen. get_seen (se_lib SE) tm (snd (Handler_GetTask h ctx \<lparr>gp_ID = i\<rparr> s)) seen
         \<and> snd (Client_GetTask E c cctx \<lparr>gp_ID = i\<rparr> s) = map_sum (Wrapf ''decode response'') id seen)"
proof -
  let ?L = "se_lib SE"
  let ?ex = "\<lparr>ex_app = s, ex_rw = new_writer, ex_tel = []\<rparr>"
  let ?ex' = "ServeHTTP ?L srv ctx (request_of q) ?ex"
  have fresh: "fresh_writer (ex_rw ?ex)" by simp
  note route = get_route [OF assms(6-9), of ?L]
  obtain e where e: "ended ?L GetTaskOperation new_writer [] e ?ex'"
    "get_ends ?L h ctx arg False s (ex_app ?ex') e"
    by (rule serve_operation [OF assms(1) fresh refl, of "request_of q" ctx])
      (simp_all add: route is_operation_def op_of_call_def)
  have dec: "decodeGetTaskParams ?L arg False = Inr \<lparr>gp_ID = i\<rparr>"
    using assms(10-12) by (simp add: decodeGetTaskParams_def)
  note seen = get_exchange_seen [OF e(1) new_writer_fresh(2) e(2) dec assms(13)]
  have "Client_GetTask E c cctx \<lparr>gp_ID = i\<rparr> s = (ex_app ?ex',
      map_sum (Wrapf ''decode response'') id (decodeGetTaskResponse ?L (response_of (ex_rw ?ex'))))"
    using assms(2-5)
    by (auto simp: Client_GetTask_def sendGetTask_def loopback_def Let_def split: sum.splits)
  with seen show ?thesis by auto
qed

theorem client_get_end_to_end_witness:
  "\<exists>srv. api_server (demo_server_env (echo_jx id (error_val demo_error))) demo_backend = Inr srv
     \<and> snd (Client_GetTask (demo_client_env (echo_jx id (error_val demo_error)) [])
          (demo_client (demo_lib (echo_jx id (error_val demo_error))) srv ()) None \<lparr>gp_ID = 2\<rparr> ()) =
        Inr (GetTaskNotFound demo_error)"
proof -
  let ?J = "echo_jx id (error_val demo_error)"
  let ?L = "demo_lib ?J" and ?E = "demo_client_env ?J []"
  obtain srv where srv: "api_server (demo_server_env ?J) demo_backend = Inr srv"
    by (rule demo_server)
  have jx: "lib_jx ?L = ?J" by (simp add: demo_lib_def)
  have lib: "ce_lib ?E = ?L" by (simp add: demo_client_env_def)
  have two: "replicate 2 (CHR ''x'') = ''xx''" by (simp add: numeral_2_eq_2)
  have ids: "lib_uuid_string ?L 2 = ''xx''" "lib_to_uuid ?L ''xx'' = Inr 2"
    by (simp_all add: demo_lib_def two)
  have id: "lib_path_encode ?L ''xx'' = Inr ''xx''" "lib_path_value ?L ''xx'' = Inr ''xx''"
    by (simp_all add: demo_lib_def)
  have new: "ce_newRequest ?E ''GET'' (ce_addPathParts ?E (ce_clone ?E
        (requestURL (demo_client ?L srv ()) None)) [''/v1/tasks/'', ''xx'']) =
      Inr \<lparr>cq_Method = ''GET'', cq_URL = \<lparr>u_Path = ''/v1/tasks/xx'', u_RawPath = [], u_Rest = []\<rparr>,
           cq_ContentType = [], cq_Body = []\<rparr>"
    by (simp add: demo_client_env_def demo_client_def requestURL_def)
  note e2e = client_get_end_to_end [OF srv, unfolded demo_server_lib,
      OF demo_client_wired lib _ new, where i = 2 and arg = "''xx''" and tm = id and s = "()",
      unfolded ids jx, OF id(1)]
  obtain seen where seen: "get_seen ?L id (snd (Handler_GetTask demo_backend () \<lparr>gp_ID = 2\<rparr> ())) seen"
    "snd (Client_GetTask ?E (demo_client ?L srv ()) None \<lparr>gp_ID = 2\<rparr> ()) =
       map_sum (Wrapf ''decode response'') id seen"
    using e2e id(2) ids(2) by auto
  have "Handler_GetTask demo_backend () \<lparr>gp_ID = 2\<rparr> () = ((), Inr (GetTaskNotFound demo_error))"
    by (simp add: Handler_GetTask_def demo_backend_def NewHandler_def demo_error_def)
  with seen srv show ?thesis by (intro exI [of _ srv]) (simp add: get_seen_def jx)
qed

text \<open>
  A getTask request whose id is no UUID is answered with a document of the contract that the
  generated client cannot read: the status 400 is none of the three the client knows for getTask,
  so it reports an unexpected status code whatever the body.
\<close>

lemma client_get_bad_parameter:
  assumes "api_server SE h = Inr srv" and "serve_route (se_lib SE) [] r = CallGetTask arg esc"
    and "decodeGetTaskParams (se_lib SE) arg esc = Inl err"
    and "ex' = ServeHTTP (se_lib SE) srv ctx r \<lparr>ex_app = s, ex_rw = new_writer, ex_tel = []\<rparr>"
  shows "ex_app ex' = s \<and> rw_status (ex_rw ex') = Some 400
    \<and> (\<exists>e. Error_MarshalJSON (lib_jx (se_lib SE)) e = Inr (rw_body (ex_rw ex'))
         \<and> Error_Validate (Some e) = None)
    \<and> decodeGetTaskResponse (se_lib SE) (response_of (ex_rw ex')) = Inl (UnexpectedStatusCode 400)"
proof -
  let ?L = "se_lib SE" and ?ex = "\<lparr>ex_app = s, ex_rw = new_writer, ex_tel = []\<rparr>"
  let ?e = "DecodeParamsError ''getTask'' err"
  have fresh: "fresh_writer (ex_rw ?ex)" by simp
  obtain e where e: "ended ?L GetTaskOperation new_writer [] e ex'"
    "get_ends ?L h ctx arg esc s (ex_app ex') e"
    by (rule serve_operation [OF assms(1) fresh assms(4)])
      (simp_all add: assms(2) is_operation_def op_of_call_def)
  then have fin: "e = Failed ?e" "ex_app ex' = s" using assms(3) by (auto simp: get_ends_def)
  have code: "fst (classify_error ?L ?e) = 400 \<or> fst (classify_error ?L ?e) = 500"
    by (rule classify_error_code)
  have "errors_As is_DecodeParamsError ?e \<noteq> None" 
    by (simp add: errors_As_None_iff)
  then have c400: "fst (classify_error ?L ?e) = 400"
    by (auto simp: classify_error_def split: option.splits)
  have body: "Error_MarshalJSON (lib_jx ?L) (error_document ?L ?e) = Inr (rw_body (ex_rw ex'))"
    using ended_body(1) [OF e(1) new_writer_fresh(2) fin(1)]
    by (simp add: Error_MarshalJSON_def marshal_def Error_Encode_emit)
  have "ending_status ?L e = 400" by (simp add: fin(1) ending_status_def c400)
  with e(1) have "rw_status (ex_rw ex') = Some 400" "rs_StatusCode (response_of (ex_rw ex')) = 400"
    using ended_status [OF e(1)] ended_response(1) [OF e(1)] by simp_all
  with fin(2) body error_document_valid get_status_unexpected show ?thesis by auto
qed

lemma client_get_bad_parameter_example:
  "\<exists>srv. api_server (demo_server_env demo_jx) demo_backend = Inr srv
     \<and> decodeGetTaskResponse (demo_lib demo_jx) (response_of (ex_rw (ServeHTTP (demo_lib demo_jx) srv ()
         (demo_http ''GET'' ''/v1/tasks/no'') \<lparr>ex_app = (), ex_rw = new_writer, ex_tel = []\<rparr>))) =
       Inl (UnexpectedStatusCode 400)"
proof -
  obtain srv where srv: "api_server (demo_server_env demo_jx) demo_backend = Inr srv"
    by (rule demo_server)
  have route: "serve_route (demo_lib demo_jx) [] (demo_http ''GET'' ''/v1/tasks/no'') =
      CallGetTask ''no'' False"
    by (simp add: serve_route_def serve_elem_def demo_http_def cutPrefix_def)
  obtain err where err: "decodeGetTaskParams (demo_lib demo_jx) ''no'' False = Inl err"
    by (simp add: decodeGetTaskParams_def demo_lib_def)
  from client_get_bad_parameter [OF srv, unfolded demo_server_lib, OF route err refl] srv
  show ?thesis by blast
qed

end
