(* ===== verification/App_Config.thy ===== *)
theory App_Config
  imports Go_Prelude
begin

text \<open>
  internal/config/config.go and internal/storage/pool.go: the four layers of settings, the names
  under which environment variables and flags reach them, the materialized configuration with
  its range checks, its precedence in terms of the documented names, and what of it the connection
  pool is opened with.
\<close>

section \<open>The configuration\<close>

type_synonym duration = "64 word"   \<comment> \<open>nanoseconds, signed\<close>
type_synonym int32 = "32 word"

record http_config =
  hc_Addr :: string
  hc_ShutdownTimeout :: duration

record db_config =
  db_DSN :: string
  db_MaxConns :: int32
  db_MinConns :: int32
  db_MaxConnLifetime :: duration

record obs_config =
  ob_LogLevel :: string
  ob_LogFormat :: string
  ob_OTLPEndpoint :: string
  ob_ServiceName :: string

record config =
  cf_Env :: string
  cf_Version :: string
  cf_HTTP :: http_config
  cf_DB :: db_config
  cf_Obs :: obs_config

section \<open>The layers\<close>

text \<open>
  The values of settings: \<open>Load\<close> itself puts strings and the two numbers of the defaults into
  koanf; a file may hold any scalar of YAML, or a list. A floating-point number is its text.
\<close>

datatype conf_value =
  CStr string | CInt int | CBool bool | CFloat string | CNull | CList "conf_value list"

definition config_defaults :: "(string \<times> conf_value) list" where
  "config_defaults =
     [(''env'', CStr ''dev''), (''version'', CStr ''dev''),
      (''http.addr'', CStr '':8080''), (''http.shutdown_timeout'', CStr ''10s''),
      (''db.dsn'', CStr ''''), (''db.max_conns'', CInt 10), (''db.min_conns'', CInt 2),
      (''db.max_conn_lifetime'', CStr ''1h''),
      (''obs.log_level'', CStr ''info''), (''obs.log_format'', CStr ''json''),
      (''obs.otlp_endpoint'', CStr ''localhost:4317''), (''obs.service_name'', CStr ''flowhand'')]"

definition env_prefix :: string where "env_prefix = ''FLOWHAND_''"

text \<open>Only the first underscore becomes a dot.\<close>

definition env_key :: "string \<Rightarrow> string" where
  "env_key key =
     (let key = strings_ToLower (strings_TrimPrefix key env_prefix)
      in case strings_IndexByte key (CHR ''_'') of
           Some i \<Rightarrow> take i key @ ''.'' @ drop (i + 1) key
         | None \<Rightarrow> key)"

definition env_transform :: "string \<Rightarrow> string \<Rightarrow> string \<times> conf_value" where
  "env_transform key val = (env_key key, CStr val)"

definition flag_table :: "(string \<times> string) list" where
  "flag_table =
     [(''env'', ''env''), (''version'', ''version''), (''addr'', ''http.addr''),
      (''shutdown_timeout'', ''http.shutdown_timeout''), (''dsn'', ''db.dsn''),
      (''max_conns'', ''db.max_conns''), (''min_conns'', ''db.min_conns''),
      (''max_conn_lifetime'', ''db.max_conn_lifetime''),
      (''log_level'', ''obs.log_level''), (''log_format'', ''obs.log_format''),
      (''otlp_endpoint'', ''obs.otlp_endpoint''), (''service_name'', ''obs.service_name'')]"

text \<open>An unknown flag gets the empty key, which koanf ignores.\<close>

definition flag_key :: "string \<Rightarrow> string" where
  "flag_key key =
     (let key = strings_ReplaceByte key (CHR ''-'') (CHR ''_'')
      in case map_of flag_table key of Some dst \<Rightarrow> dst | None \<Rightarrow> [])"

definition flag_transform :: "string \<Rightarrow> string \<Rightarrow> string \<times> conf_value" where
  "flag_transform key val = (flag_key key, CStr val)"

text \<open>
  The koanf instance and its providers. \<open>'k\<close> is the instance, \<open>'f\<close> a flag set; the flag
  provider is given the instance, which decides what an unchanged flag does.
\<close>

record ('k, 'f) koanf =
  ko_New :: 'k
  ko_LoadMap :: "(string \<times> conf_value) list \<Rightarrow> 'k \<Rightarrow> gerr + 'k"
  ko_LoadFile :: "string \<Rightarrow> 'k \<Rightarrow> gerr + 'k"
  ko_LoadEnv :: "string \<Rightarrow> (string \<Rightarrow> string \<Rightarrow> string \<times> conf_value) \<Rightarrow> 'k \<Rightarrow> gerr + 'k"
  ko_LoadFlags :: "'f \<Rightarrow> (string \<Rightarrow> string \<Rightarrow> string \<times> conf_value) \<Rightarrow> 'k \<Rightarrow> gerr + 'k"
  ko_Int :: "'k \<Rightarrow> string \<Rightarrow> 64 word"
  ko_String :: "'k \<Rightarrow> string \<Rightarrow> string"
  ko_Duration :: "'k \<Rightarrow> string \<Rightarrow> duration"

definition load_layers :: "('k, 'f) koanf \<Rightarrow> string \<Rightarrow> 'f option \<Rightarrow> gerr + 'k" where
  "load_layers K path flags =
     (case ko_LoadMap K config_defaults (ko_New K) of
        Inl err \<Rightarrow> Inl err
      | Inr k \<Rightarrow>
          (case (if path \<noteq> [] then
                   (case ko_LoadFile K path k of
                      Inl err \<Rightarrow> Inl (WrapErrorf ''load config file %q: %w'' [ArgStr path] err)
                    | Inr k \<Rightarrow> Inr k)
                 else Inr k) of
             Inl err \<Rightarrow> Inl err
           | Inr k \<Rightarrow>
               (case ko_LoadEnv K env_prefix env_transform k of
                  Inl err \<Rightarrow> Inl err
                | Inr k \<Rightarrow>
                    (case flags of
                       None \<Rightarrow> Inr k
                     | Some fs \<Rightarrow> ko_LoadFlags K fs flag_transform k))))"

definition MaxInt32 :: int where "MaxInt32 = 2 ^ 31 - 1"

definition materialize :: "('k, 'f) koanf \<Rightarrow> 'k \<Rightarrow> gerr + config" where
  "materialize K k =
     (let maxConns = ko_Int K k ''db.max_conns''
      in if sint maxConns < 1 \<or> sint maxConns > MaxInt32
         then Inl (Errorf ''db.max_conns out of range: %d'' [ArgInt (sint maxConns)])
         else
           (let minConns = ko_Int K k ''db.min_conns''
            in if sint minConns < 0 \<or> sint minConns > MaxInt32
               then Inl (Errorf ''db.min_conns out of range: %d'' [ArgInt (sint minConns)])
               else
                 Inr \<lparr>cf_Env = ko_String K k ''env'', cf_Version = ko_String K k ''version'',
                      cf_HTTP = \<lparr>hc_Addr = ko_String K k ''http.addr'',
                                 hc_ShutdownTimeout = ko_Duration K k ''http.shutdown_timeout''\<rparr>,
                      cf_DB = \<lparr>db_DSN = ko_String K k ''db.dsn'',
                               db_MaxConns = ucast maxConns, db_MinConns = ucast minConns,
                               db_MaxConnLifetime = ko_Duration K k ''db.max_conn_lifetime''\<rparr>,
                      cf_Obs = \<lparr>ob_LogLevel = ko_String K k ''obs.log_level'',
                                ob_LogFormat = ko_String K k ''obs.log_format'',
                                ob_OTLPEndpoint = ko_String K k ''obs.otlp_endpoint'',
                                ob_ServiceName = ko_String K k ''obs.service_name''\<rparr>\<rparr>))"

definition Load :: "('k, 'f) koanf \<Rightarrow> string \<Rightarrow> 'f option \<Rightarrow> gerr + config" where
  "Load K path flags =
     (case load_layers K path flags of Inl err \<Rightarrow> Inl err | Inr k \<Rightarrow> materialize K k)"

section \<open>The connection pool\<close>

text \<open>\<open>pgxpool.Config\<close> as far as the code touches it; \<open>'p\<close> is the rest of it.\<close>

record 'p pool_config =
  pc_MaxConns :: int32
  pc_MinConns :: int32
  pc_MaxConnLifetime :: duration
  pc_Tracer :: bool
  pc_Rest :: 'p

record ('p, 'pool) pgxpool =
  pp_ParseConfig :: "string \<Rightarrow> gerr + 'p pool_config"
  pp_NewWithConfig :: "'p pool_config \<Rightarrow> gerr + 'pool"

definition pool_settings :: "db_config \<Rightarrow> 'p pool_config \<Rightarrow> 'p pool_config" where
  "pool_settings cfg pcfg =
     (let pcfg = (if 0 <s db_MaxConns cfg then pcfg\<lparr>pc_MaxConns := db_MaxConns cfg\<rparr> else pcfg);
          pcfg = (if 0 <s db_MinConns cfg then pcfg\<lparr>pc_MinConns := db_MinConns cfg\<rparr> else pcfg);
          pcfg = (if 0 <s db_MaxConnLifetime cfg
                  then pcfg\<lparr>pc_MaxConnLifetime := db_MaxConnLifetime cfg\<rparr> else pcfg)
      in pcfg\<lparr>pc_Tracer := True\<rparr>)"

definition NewPool :: "('p, 'pool) pgxpool \<Rightarrow> db_config \<Rightarrow> gerr + 'pool" where
  "NewPool P cfg =
     (case pp_ParseConfig P (db_DSN cfg) of
        Inl err \<Rightarrow> Inl (WrapErrorf ''parse dsn: %w'' [] err)
      | Inr pcfg \<Rightarrow> pp_NewWithConfig P (pool_settings cfg pcfg))"

section \<open>Names\<close>

text \<open>The name of the variable the documentation gives for a setting: its key in capitals.\<close>

definition env_name :: "string \<Rightarrow> string" where
  "env_name key =
     env_prefix @ map (\<lambda>c. ascii_upper (if c = CHR ''.'' then CHR ''_'' else c)) key"

lemma env_key_name:
  assumes "list_all no_capital key"
  shows "env_key (env_name key) =
    (let key = strings_ReplaceByte key (CHR ''.'') (CHR ''_'')
     in case strings_IndexByte key (CHR ''_'') of
          Some i \<Rightarrow> take i key @ ''.'' @ drop (i + 1) key
        | None \<Rightarrow> key)"
proof -
  have "no_capital (CHR ''_'')" by (simp add: no_capital_def)
  then have "strings_ToLower (strings_TrimPrefix (env_name key) env_prefix) =
      strings_ReplaceByte key (CHR ''.'') (CHR ''_'')"
    using assms
    by (auto simp: env_name_def strings_ToLower_def strings_ReplaceByte_def list_all_iff
        ascii_lower_upper)
  then show ?thesis by (simp add: env_key_def)
qed

definition flag_names :: "string list" where
  "flag_names =
     [''env'', ''version'', ''addr'', ''shutdown-timeout'', ''dsn'', ''max-conns'', ''min-conns'',
      ''max-conn-lifetime'', ''log-level'', ''log-format'', ''otlp-endpoint'', ''service-name'']"

lemma flag_table_dst: "map snd flag_table = map fst config_defaults"
  by code_simp

lemma flag_table_names:
  "map (\<lambda>f. strings_ReplaceByte f (CHR ''-'') (CHR ''_'')) flag_names = map fst flag_table"
  by code_simp

lemma setting_keys_lower: "list_all (list_all no_capital) (map fst config_defaults)"
  by code_simp

lemma env_key_names: "list_all (\<lambda>key. env_key (env_name key) = key) (map fst config_defaults)"
  using setting_keys_lower
  by (simp add: config_defaults_def env_key_name strings_ReplaceByte_def)

lemma flag_key_names: "map flag_key flag_names = map fst config_defaults"
  by code_simp

text \<open>
  Every setting is reachable under the name the documentation gives: the environment
  variable made of its key in capitals sets exactly it, the flags set the twelve settings one to
  one, and a flag of any other name sets nothing.
\<close>

lemma setting_names:
  "list_all (\<lambda>key. env_transform (env_name key) val = (key, CStr val)) (map fst config_defaults)
   \<and> map (\<lambda>n. flag_transform n val) flag_names = map (\<lambda>key. (key, CStr val)) (map fst config_defaults)
   \<and> distinct (map fst config_defaults)
   \<and> (fst (flag_transform n val) = [] \<or> fst (flag_transform n val) \<in> set (map fst config_defaults))
   \<and> (fst (flag_transform n val) = [] \<or> strings_ReplaceByte n (CHR ''-'') (CHR ''_'') \<in>
        set (map (\<lambda>f. strings_ReplaceByte f (CHR ''-'') (CHR ''_'')) flag_names))"
proof (intro conjI)
  show "list_all (\<lambda>key. env_transform (env_name key) val = (key, CStr val)) (map fst config_defaults)"
    using env_key_names by (simp add: env_transform_def)
  show "map (\<lambda>n. flag_transform n val) flag_names = map (\<lambda>key. (key, CStr val)) (map fst config_defaults)"
    unfolding flag_key_names [symmetric] by (simp add: flag_transform_def)
  show "distinct (map fst config_defaults)" by code_simp
  show "fst (flag_transform n val) = [] \<or> fst (flag_transform n val) \<in> set (map fst config_defaults)"
    unfolding flag_table_dst [symmetric]
    by (auto simp: flag_transform_def flag_key_def Let_def split: option.splits
        dest!: map_of_SomeD intro: rev_image_eqI)
  show "fst (flag_transform n val) = [] \<or> strings_ReplaceByte n (CHR ''-'') (CHR ''_'') \<in>
        set (map (\<lambda>f. strings_ReplaceByte f (CHR ''-'') (CHR ''_'')) flag_names)"
    unfolding flag_table_names
    by (auto simp: flag_transform_def flag_key_def Let_def split: option.splits
        dest!: map_of_SomeD intro: rev_image_eqI)
qed

section \<open>Bounds\<close>

lemma sint_narrow:
  fixes n :: "64 word"
  assumes "0 \<le> sint n" and "sint n \<le> MaxInt32"
  shows "sint (ucast n :: int32) = sint n"
proof -
  have "uint n = sint n"
    using assms by (simp add: uint_sint MaxInt32_def take_bit_int_eq_self)
  moreover from this have "uint (ucast n :: int32) = sint n"
    using assms by (simp add: unsigned_ucast_eq MaxInt32_def take_bit_int_eq_self)
  ultimately have "sint (ucast n :: int32) = signed_take_bit 31 (sint n)"
    unfolding sint_uint [of "ucast n :: int32"] by simp
  also have "\<dots> = sint n"
    by (rule signed_take_bit_int_eq_self) (use assms in \<open>simp_all add: MaxInt32_def\<close>)
  finally show ?thesis .
qed

lemma materialize_bounds:
  assumes "materialize K k = Inr cfg"
  shows "1 \<le> sint (ko_Int K k ''db.max_conns'')" "0 \<le> sint (ko_Int K k ''db.min_conns'')"
    "sint (db_MaxConns (cf_DB cfg)) = sint (ko_Int K k ''db.max_conns'')"
    "sint (db_MinConns (cf_DB cfg)) = sint (ko_Int K k ''db.min_conns'')"
  using assms by (auto simp: materialize_def Let_def sint_narrow split: if_splits)

text \<open>
  C34. The pool sizes are kept without a wrap-around: a configuration is materialized exactly
  when the two numbers fit, at least one connection and none below zero, and then the 32-bit
  fields carry the numbers that were read; anything else is refused with the number in the error.
\<close>

theorem connection_bounds:
  "(case materialize K k of
      Inr cfg \<Rightarrow>
        1 \<le> sint (ko_Int K k ''db.max_conns'') \<and> 0 \<le> sint (ko_Int K k ''db.min_conns'')
        \<and> sint (db_MaxConns (cf_DB cfg)) = sint (ko_Int K k ''db.max_conns'')
        \<and> sint (db_MinConns (cf_DB cfg)) = sint (ko_Int K k ''db.min_conns'')
    | Inl err \<Rightarrow>
        (err = Errorf ''db.max_conns out of range: %d'' [ArgInt (sint (ko_Int K k ''db.max_conns''))]
         \<and> sint (ko_Int K k ''db.max_conns'') \<notin> {1..2147483647})
        \<or> (err = Errorf ''db.min_conns out of range: %d'' [ArgInt (sint (ko_Int K k ''db.min_conns''))]
         \<and> sint (ko_Int K k ''db.min_conns'') \<notin> {0..2147483647}))"
proof (cases "materialize K k")
  case (Inl err)
  then show ?thesis by (auto simp: materialize_def Let_def MaxInt32_def split: if_splits)
qed (simp add: materialize_bounds)

section \<open>Precedence\<close>

text \<open>
  What \<open>Load\<close> relies on, over what a lookup finds in an instance: each provider overrides
  what it provides, an unset flag provides only what nothing else has, and the typed getters
  convert what a lookup finds. A key is untouched by keys of its own section tree, because a
  value stored at a section replaces the section. \<open>environ\<close> is the process environment,
  \<open>files\<close> the flattened content of a configuration file, a flag is its name, its value and
  whether it was set.
\<close>

definition clear_of :: "string \<Rightarrow> (string \<times> conf_value) list \<Rightarrow> bool" where
  "clear_of key m \<longleftrightarrow>
     list_all (\<lambda>(k, _). \<not> strings_HasPrefix key (k @ ''.'') \<and> \<not> strings_HasPrefix k (key @ ''.'')) m"

definition env_values ::
  "(string \<times> string) list \<Rightarrow> string \<Rightarrow> (string \<Rightarrow> string \<Rightarrow> string \<times> conf_value) \<Rightarrow>
   (string \<times> conf_value) list" where
  "env_values environ prefix f = [f n v. (n, v) \<leftarrow> environ, strings_HasPrefix n prefix]"

definition flag_values ::
  "(string \<times> string \<times> bool) list \<Rightarrow> (string \<Rightarrow> string \<Rightarrow> string \<times> conf_value) \<Rightarrow>
   (string \<Rightarrow> bool) \<Rightarrow> (string \<times> conf_value) list" where
  "flag_values fs f known =
     [f n v. (n, v, changed) \<leftarrow> fs, fst (f n v) \<noteq> [], changed \<or> \<not> known (fst (f n v))]"

definition over :: "(string \<times> conf_value) list \<Rightarrow> conf_value option \<Rightarrow> string \<Rightarrow> conf_value option" where
  "over m old key = (case map_of (rev m) key of Some v \<Rightarrow> Some v | None \<Rightarrow> old)"

record conf_sources =
  cs_environ :: "(string \<times> string) list"
  cs_files :: "string \<Rightarrow> (string \<times> conf_value) list"

record conf_conv =
  cv_int :: "conf_value option \<Rightarrow> 64 word"
  cv_string :: "conf_value option \<Rightarrow> string"
  cv_duration :: "conf_value option \<Rightarrow> duration"

definition koanf_laws ::
  "('k, (string \<times> string \<times> bool) list) koanf \<Rightarrow> ('k \<Rightarrow> string \<Rightarrow> conf_value option) \<Rightarrow>
   conf_sources \<Rightarrow> conf_conv \<Rightarrow> bool" where
  "koanf_laws K lookup S C \<longleftrightarrow>
     (\<forall>key. lookup (ko_New K) key = None)
     \<and> (\<forall>m k k' key. ko_LoadMap K m k = Inr k' \<longrightarrow> clear_of key m \<longrightarrow>
          lookup k' key = over m (lookup k key) key)
     \<and> (\<forall>p k k' key. ko_LoadFile K p k = Inr k' \<longrightarrow> clear_of key (cs_files S p) \<longrightarrow>
          lookup k' key = over (cs_files S p) (lookup k key) key)
     \<and> (\<forall>p f k k' key. ko_LoadEnv K p f k = Inr k' \<longrightarrow> clear_of key (env_values (cs_environ S) p f) \<longrightarrow>
          lookup k' key = over (env_values (cs_environ S) p f) (lookup k key) key)
     \<and> (\<forall>fs f k k' key. ko_LoadFlags K fs f k = Inr k' \<longrightarrow>
          clear_of key (flag_values fs f (\<lambda>d. lookup k d \<noteq> None)) \<longrightarrow>
          lookup k' key = over (flag_values fs f (\<lambda>d. lookup k d \<noteq> None)) (lookup k key) key)
     \<and> (\<forall>k key. ko_Int K k key = cv_int C (lookup k key) \<and> ko_String K k key = cv_string C (lookup k key)
          \<and> ko_Duration K k key = cv_duration C (lookup k key))"

text \<open>The value of a setting: the last set flag, variable or file entry for it, else its default.\<close>

definition set_flags :: "(string \<times> string \<times> bool) list option \<Rightarrow> (string \<times> conf_value) list" where
  "set_flags flags =
     (case flags of None \<Rightarrow> []
      | Some fs \<Rightarrow> [flag_transform n v. (n, v, changed) \<leftarrow> fs, fst (flag_transform n v) \<noteq> [], changed])"

definition set_env :: "conf_sources \<Rightarrow> (string \<times> conf_value) list" where
  "set_env S = env_values (cs_environ S) env_prefix env_transform"

definition set_file :: "conf_sources \<Rightarrow> string \<Rightarrow> (string \<times> conf_value) list" where
  "set_file S path = (if path = [] then [] else cs_files S path)"

definition setting ::
  "conf_sources \<Rightarrow> string \<Rightarrow> (string \<times> string \<times> bool) list option \<Rightarrow> string \<Rightarrow> conf_value option" where
  "setting S path flags key =
     over (set_flags flags) (over (set_env S) (over (set_file S path)
       (map_of config_defaults key) key) key) key"

lemma over_filter: "over m old key = over (filter (\<lambda>(k, _). k = key) m) old key"
proof -
  have "map_of xs key = map_of (filter (\<lambda>(k, _). k = key) xs) key"
    for xs :: "(string \<times> conf_value) list"
    by (induction xs) auto
  from this [of "rev m"] show ?thesis by (simp add: over_def rev_filter)
qed

lemma over_cong:
  "filter (\<lambda>(k, _). k = key) m = filter (\<lambda>(k, _). k = key) m' \<Longrightarrow> over m old key = over m' old key"
  using over_filter [of m] over_filter [of m'] by metis

lemma over_Nil [simp]: "over [] old key = old"
  by (simp add: over_def)

lemma over_Some: "old \<noteq> None \<Longrightarrow> over m old key \<noteq> None"
  by (simp add: over_def split: option.split)

lemma setting_keys_distinct: "distinct (map fst config_defaults)"
  by code_simp

lemma flag_key_cases: "flag_key n = [] \<or> flag_key n \<in> set (map fst config_defaults)"
  unfolding flag_table_dst [symmetric]
  by (auto simp: flag_key_def Let_def split: option.splits dest!: map_of_SomeD intro: rev_image_eqI)

lemma settings_clear:
  "list_all (\<lambda>key. list_all (\<lambda>k. \<not> strings_HasPrefix key (k @ ''.'') \<and> \<not> strings_HasPrefix k (key @ ''.''))
     (map fst config_defaults)) (map fst config_defaults)"
  by (simp add: config_defaults_def strings_HasPrefix_def)

lemma clear_of_settings:
  assumes "key \<in> set (map fst config_defaults)" and "fst ` set m \<subseteq> set (map fst config_defaults)"
  shows "clear_of key m"
proof -
  have "\<not> strings_HasPrefix key (fst x @ ''.'') \<and> \<not> strings_HasPrefix (fst x) (key @ ''.'')"
    if "x \<in> set m" for x
    using bspec [OF bspec [OF settings_clear [unfolded list_all_iff] assms(1)], of "fst x"]
      assms(2) that by blast
  then show ?thesis by (auto simp: clear_of_def list_all_iff)
qed

lemma load_layers_lookup:
  assumes "koanf_laws K lookup S C" and "load_layers K path flags = Inr k"
    and "key \<in> set (map fst config_defaults)"
    and "clear_of key (set_env S)" and "clear_of key (set_file S path)"
  shows "lookup k key = setting S path flags key"
proof -
  note laws = assms(1) [unfolded koanf_laws_def]
  obtain k1 where k1: "ko_LoadMap K config_defaults (ko_New K) = Inr k1"
    using assms(2) by (auto simp: load_layers_def split: sum.splits)
  have l1: "lookup k1 key = map_of config_defaults key"
  proof -
    have "lookup k1 key = over config_defaults None key"
      using laws k1 clear_of_settings [OF assms(3), of config_defaults] by simp
    moreover have "map_of (rev config_defaults) = map_of config_defaults"
      using map_of_inject_set [of "rev config_defaults" config_defaults] setting_keys_distinct
      by (simp add: rev_map [symmetric])
    ultimately show ?thesis by (simp add: over_def split: option.splits)
  qed
  obtain k2 where k2: "(if path \<noteq> [] then ko_LoadFile K path k1 else Inr k1) = Inr k2"
    using assms(2) k1 by (auto simp: load_layers_def split: sum.splits if_splits)
  have l2: "lookup k2 key = over (set_file S path) (map_of config_defaults key) key"
    using laws k2 l1 assms(5) by (auto simp: set_file_def split: if_splits)
  obtain k3 where k3: "ko_LoadEnv K env_prefix env_transform k2 = Inr k3"
    "(case flags of None \<Rightarrow> Inr k3 | Some fs \<Rightarrow> ko_LoadFlags K fs flag_transform k3) = Inr k"
    using assms(2) k1 k2 by (auto simp: load_layers_def split: sum.splits if_splits)
  have l3: "lookup k3 key = over (set_env S) (lookup k2 key) key"
    using laws k3(1) assms(4) by (simp add: set_env_def)
  have known: "lookup k3 key \<noteq> None"
    using assms(3) by (simp add: l3 l2 over_Some map_of_eq_None_iff)
  show ?thesis
  proof (cases flags)
    case None
    with k3 l3 l2 show ?thesis by (simp add: setting_def set_flags_def)
  next
    case (Some fs)
    let ?known = "\<lambda>d. lookup k3 d \<noteq> None"
    let ?m = "flag_values fs flag_transform ?known"
    have sub: "fst ` set ?m \<subseteq> set (map fst config_defaults)"
      using flag_key_cases by (fastforce simp: flag_values_def flag_transform_def)
    have "lookup k key = over ?m (lookup k3 key) key"
      using laws k3(2) Some clear_of_settings [OF assms(3) sub] by simp
    also have "\<dots> = over (set_flags flags) (lookup k3 key) key"
    proof (rule over_cong)
      show "filter (\<lambda>(k, _). k = key) ?m = filter (\<lambda>(k, _). k = key) (set_flags flags)"
        unfolding Some set_flags_def flag_values_def flag_transform_def option.case
        using known by (induction fs) auto
    qed
    finally show ?thesis by (simp add: setting_def l3 l2)
  qed
qed

text \<open>The configuration a table of values amounts to.\<close>

definition settled :: "conf_conv \<Rightarrow> (string \<Rightarrow> conf_value option) \<Rightarrow> config" where
  "settled C look =
     \<lparr>cf_Env = cv_string C (look ''env''), cf_Version = cv_string C (look ''version''),
      cf_HTTP = \<lparr>hc_Addr = cv_string C (look ''http.addr''),
                 hc_ShutdownTimeout = cv_duration C (look ''http.shutdown_timeout'')\<rparr>,
      cf_DB = \<lparr>db_DSN = cv_string C (look ''db.dsn''),
               db_MaxConns = ucast (cv_int C (look ''db.max_conns'')),
               db_MinConns = ucast (cv_int C (look ''db.min_conns'')),
               db_MaxConnLifetime = cv_duration C (look ''db.max_conn_lifetime'')\<rparr>,
      cf_Obs = \<lparr>ob_LogLevel = cv_string C (look ''obs.log_level''),
                ob_LogFormat = cv_string C (look ''obs.log_format''),
                ob_OTLPEndpoint = cv_string C (look ''obs.otlp_endpoint''),
                ob_ServiceName = cv_string C (look ''obs.service_name'')\<rparr>\<rparr>"

text \<open>\<open>Load\<close> in terms of its own name transformers.\<close>

lemma load_settled:
  assumes "koanf_laws K lookup S C" and "Load K path flags = Inr cfg"
    and "list_all (\<lambda>key. clear_of key (set_env S) \<and> clear_of key (set_file S path))
      (map fst config_defaults)"
  shows "cfg = settled C (setting S path flags)"
proof -
  obtain k where k: "load_layers K path flags = Inr k" "materialize K k = Inr cfg"
    using assms(2) by (auto simp: Load_def split: sum.splits)
  have look: "lookup k key = setting S path flags key" if "key \<in> set (map fst config_defaults)" for key
    using load_layers_lookup [OF assms(1) k(1) that] bspec [OF assms(3) [unfolded list_all_iff] that]
    by blast
  have get: "ko_Int K k key = cv_int C (setting S path flags key)"
    "ko_String K k key = cv_string C (setting S path flags key)"
    "ko_Duration K k key = cv_duration C (setting S path flags key)"
    if "key \<in> set (map fst config_defaults)" for key
    using look [OF that] assms(1) by (simp_all add: koanf_laws_def)
  have keys: "set (map fst config_defaults) = {''env'', ''version'', ''http.addr'',
      ''http.shutdown_timeout'', ''db.dsn'', ''db.max_conns'', ''db.min_conns'',
      ''db.max_conn_lifetime'', ''obs.log_level'', ''obs.log_format'', ''obs.otlp_endpoint'',
      ''obs.service_name''}"
    by (simp add: config_defaults_def)
  from k(2) show ?thesis
    unfolding materialize_def Let_def
    by (auto simp: settled_def get [unfolded keys] split: if_splits)
qed

section \<open>The documented names\<close>

text \<open>
  The twelve settings as the documents name them: the key in a file, the environment variable, the
  flag, the default.
\<close>

definition documented :: "(string \<times> string \<times> string \<times> conf_value) list" where
  "documented =
     [(''env'', ''FLOWHAND_ENV'', ''env'', CStr ''dev''),
      (''version'', ''FLOWHAND_VERSION'', ''version'', CStr ''dev''),
      (''http.addr'', ''FLOWHAND_HTTP_ADDR'', ''addr'', CStr '':8080''),
      (''http.shutdown_timeout'', ''FLOWHAND_HTTP_SHUTDOWN_TIMEOUT'', ''shutdown-timeout'', CStr ''10s''),
      (''db.dsn'', ''FLOWHAND_DB_DSN'', ''dsn'', CStr ''''),
      (''db.max_conns'', ''FLOWHAND_DB_MAX_CONNS'', ''max-conns'', CInt 10),
      (''db.min_conns'', ''FLOWHAND_DB_MIN_CONNS'', ''min-conns'', CInt 2),
      (''db.max_conn_lifetime'', ''FLOWHAND_DB_MAX_CONN_LIFETIME'', ''max-conn-lifetime'', CStr ''1h''),
      (''obs.log_level'', ''FLOWHAND_OBS_LOG_LEVEL'', ''log-level'', CStr ''info''),
      (''obs.log_format'', ''FLOWHAND_OBS_LOG_FORMAT'', ''log-format'', CStr ''json''),
      (''obs.otlp_endpoint'', ''FLOWHAND_OBS_OTLP_ENDPOINT'', ''otlp-endpoint'', CStr ''localhost:4317''),
      (''obs.service_name'', ''FLOWHAND_OBS_SERVICE_NAME'', ''service-name'', CStr ''flowhand'')]"

text \<open>
  The value of a setting: of the last flag of its name that was given (hyphens and underscores are
  the same), else of the last variable of its name, else of its last entry in the file, else its
  default.
\<close>

definition last_else :: "conf_value list \<Rightarrow> conf_value option \<Rightarrow> conf_value option" where
  "last_else vs old = (if vs = [] then old else Some (last vs))"

definition documented_setting ::
  "conf_sources \<Rightarrow> string \<Rightarrow> (string \<times> string \<times> bool) list option \<Rightarrow> string \<Rightarrow> conf_value option" where
  "documented_setting S path flags key =
     (case map_of documented key of
        None \<Rightarrow> None
      | Some (var, flag, dflt) \<Rightarrow>
          last_else [CStr v. (n, v, given) \<leftarrow> (case flags of None \<Rightarrow> [] | Some fs \<Rightarrow> fs), given,
                       strings_ReplaceByte n (CHR ''-'') (CHR ''_'')
                         = strings_ReplaceByte flag (CHR ''-'') (CHR ''_'')]
            (last_else [CStr v. (n, v) \<leftarrow> cs_environ S, n = var]
              (last_else [v. (k, v) \<leftarrow> if path = [] then [] else cs_files S path, k = key]
                (Some dflt))))"

text \<open>
  Variables of this program that are written the usual way, and none of which stands for a whole
  section or lies below a setting: koanf would replace the section.
\<close>

definition env_char :: "char \<Rightarrow> bool" where
  "env_char c \<longleftrightarrow>
     (let n = of_char c :: nat in (65 \<le> n \<and> n \<le> 90) \<or> (48 \<le> n \<and> n \<le> 57) \<or> c = CHR ''_'')"

definition plain_variable :: "string \<Rightarrow> bool" where
  "plain_variable n \<longleftrightarrow>
     (let r = drop (length ''FLOWHAND_'') n
      in list_all env_char r \<and> r \<notin> {''HTTP'', ''DB'', ''OBS''}
         \<and> \<not> strings_HasPrefix r ''ENV_'' \<and> \<not> strings_HasPrefix r ''VERSION_'')"

definition plain_environ :: "conf_sources \<Rightarrow> bool" where
  "plain_environ S \<longleftrightarrow>
     list_all (\<lambda>(n, v). strings_HasPrefix n ''FLOWHAND_'' \<longrightarrow> plain_variable n) (cs_environ S)"

lemma over_last: "over m old key = last_else (map snd (filter (\<lambda>(k, _). k = key) m)) old"
  by (induction m rule: rev_induct) (auto simp: over_def last_else_def)

lemma entries_of: "map snd (filter (\<lambda>(k, _). k = key) m) = [v. (k, v) \<leftarrow> m, k = key]"
  by (induction m) auto

lemma documented_keys:
  "map fst documented = map fst config_defaults"
  "list_all (\<lambda>(key, var, flag, dflt). var = env_name key
     \<and> map_of config_defaults key = Some dflt
     \<and> map_of flag_table (strings_ReplaceByte flag (CHR ''-'') (CHR ''_'')) = Some key) documented"
  by code_simp+

lemma flag_table_inj: "distinct (map snd flag_table)"
  by code_simp

lemma env_char_simps:
  assumes "env_char c"
  shows "ascii_upper (ascii_lower c) = c" "ascii_lower c \<noteq> CHR ''.''"
proof -
  show up: "ascii_upper (ascii_lower c) = c"
    using assms by (auto simp: env_char_def ascii_upper_def ascii_lower_def Let_def)
  have "ascii_upper (CHR ''.'') = CHR ''.''" "\<not> env_char (CHR ''.'')" by code_simp+
  with assms up show "ascii_lower c \<noteq> CHR ''.''" by auto
qed

text \<open>A plain name can be read back from its key: its one dot was the first underscore.\<close>

lemma env_key_shape:
  assumes "list_all env_char r"
  obtains (whole) "env_key (''FLOWHAND_'' @ r) = map ascii_lower r"
  | (split) a b where "env_key (''FLOWHAND_'' @ r) = a @ ''.'' @ b" "map ascii_lower r = a @ ''_'' @ b"
proof -
  let ?l = "map ascii_lower r"
  have key: "env_key (''FLOWHAND_'' @ r) =
      (case strings_IndexByte ?l (CHR ''_'') of Some i \<Rightarrow> take i ?l @ ''.'' @ drop (i + 1) ?l | None \<Rightarrow> ?l)"
    by (simp add: env_key_def env_prefix_def strings_TrimPrefix_def strings_HasPrefix_def
        strings_ToLower_def Let_def)
  show ?thesis
  proof (cases "strings_IndexByte ?l (CHR ''_'')")
    case None
    with key whole show ?thesis by simp
  next
    case (Some i)
    from strings_IndexByte_Some [OF Some] have at: "?l = take i ?l @ ''_'' @ drop (i + 1) ?l"
      by (metis append_Cons append_Nil id_take_nth_drop Suc_eq_plus1)
    from key Some have "env_key (''FLOWHAND_'' @ r) = take i ?l @ ''.'' @ drop (i + 1) ?l"
      by (simp only: option.case)
    from split [OF this at] show ?thesis .
  qed
qed

abbreviation capitals :: "string \<Rightarrow> string" where
  "capitals key \<equiv> map (\<lambda>c. ascii_upper (if c = CHR ''.'' then CHR ''_'' else c)) key"

lemma env_key_back:
  assumes "list_all env_char r"
  shows "capitals (env_key (''FLOWHAND_'' @ r)) = r"
    and "length (filter (\<lambda>c. c = CHR ''.'') (env_key (''FLOWHAND_'' @ r))) \<le> 1"
proof -
  define l where "l = map ascii_lower r"
  have l: "CHR ''.'' \<notin> set l" "map ascii_upper l = r"
    using assms env_char_simps by (force simp: l_def list_all_iff intro!: map_idI)+
  have same: "capitals x = map ascii_upper x" "filter (\<lambda>c. c = CHR ''.'') x = []" if "CHR ''.'' \<notin> set x" for x
    using that by (auto simp: filter_empty_conv)
  have "capitals (env_key (''FLOWHAND_'' @ r)) = r
      \<and> length (filter (\<lambda>c. c = CHR ''.'') (env_key (''FLOWHAND_'' @ r))) \<le> 1"
  proof (cases rule: env_key_shape [OF assms])
    case 1
    with same [OF l(1)] l(2) show ?thesis by (simp add: l_def [symmetric])
  next
    case (2 a b)
    have ab: "l = a @ ''_'' @ b" using 2(2) by (simp add: l_def)
    have "CHR ''.'' \<notin> set a" "CHR ''.'' \<notin> set b" using l(1) by (auto simp: ab)
    note part = same [OF this(1)] same [OF this(2)]
    have "ascii_upper (CHR ''_'') = CHR ''_''" by code_simp
    then have "capitals (a @ ''.'' @ b) = r" "length (filter (\<lambda>c. c = CHR ''.'') (a @ ''.'' @ b)) \<le> 1"
      using l(2) by (simp_all add: ab part)
    then show ?thesis unfolding 2(1) ..
  qed
  then show "capitals (env_key (''FLOWHAND_'' @ r)) = r"
    and "length (filter (\<lambda>c. c = CHR ''.'') (env_key (''FLOWHAND_'' @ r))) \<le> 1" by auto
qed

lemma plain_key_iff:
  assumes "list_all env_char r" and "key \<in> set (map fst config_defaults)"
  shows "env_key (''FLOWHAND_'' @ r) = key \<longleftrightarrow> ''FLOWHAND_'' @ r = env_name key"
proof
  assume "env_key (''FLOWHAND_'' @ r) = key"
  with env_key_back(1) [OF assms(1)] show "''FLOWHAND_'' @ r = env_name key"
    by (simp add: env_name_def env_prefix_def)
next
  assume "''FLOWHAND_'' @ r = env_name key"
  with env_key_names assms(2) show "env_key (''FLOWHAND_'' @ r) = key" by (auto simp: list_all_iff)
qed

text \<open>The sections, and the settings that are in none.\<close>

lemma section_of_key:
  "list_all (\<lambda>key. (strings_HasPrefix key (k @ ''.'') \<longrightarrow> k \<in> {''http'', ''db'', ''obs''})
     \<and> (CHR ''.'' \<in> set key \<or> key \<in> {''env'', ''version''})) (map fst config_defaults)"
  by (auto simp: config_defaults_def strings_HasPrefix_iff append_eq_Cons_conv Cons_eq_append_conv)

lemma plain_clear:
  assumes "plain_environ S" and key: "key \<in> set (map fst config_defaults)"
  shows "clear_of key (set_env S)"
proof -
  have "\<not> strings_HasPrefix key (env_key n @ ''.'') \<and> \<not> strings_HasPrefix (env_key n) (key @ ''.'')"
    if env: "(n, v) \<in> set (cs_environ S)" and pre: "strings_HasPrefix n ''FLOWHAND_''" for n v
  proof -
    obtain r where n: "n = ''FLOWHAND_'' @ r" using pre by (auto simp: strings_HasPrefix_iff)
    have r: "list_all env_char r" "r \<notin> {''HTTP'', ''DB'', ''OBS''}" "\<not> strings_HasPrefix r ''ENV_''"
      "\<not> strings_HasPrefix r ''VERSION_''"
      using assms(1) env pre by (auto simp: plain_environ_def plain_variable_def list_all_iff n Let_def)
    note plain = env_key_back [OF r(1)]
    have caps: "capitals ''http'' = ''HTTP''" "capitals ''db'' = ''DB''" "capitals ''obs'' = ''OBS''"
      "capitals ''env.'' = ''ENV_''" "capitals ''version.'' = ''VERSION_''" by code_simp+
    have sec: "strings_HasPrefix key (k @ ''.'') \<longrightarrow> k \<in> {''http'', ''db'', ''obs''}"
      "CHR ''.'' \<in> set key \<or> key \<in> {''env'', ''version''}" for k
      using section_of_key [of k] key by (auto simp: list_all_iff)
    have "\<not> strings_HasPrefix key (env_key n @ ''.'')"
    proof
      assume "strings_HasPrefix key (env_key n @ ''.'')"
      with sec(1) have "env_key n \<in> {''http'', ''db'', ''obs''}" by blast
      then have "capitals (env_key n) \<in> {''HTTP'', ''DB'', ''OBS''}" using caps(1-3) by auto
      with plain(1) r(2) show False by (simp add: n)
    qed
    moreover have "\<not> strings_HasPrefix (env_key n) (key @ ''.'')"
    proof
      assume "strings_HasPrefix (env_key n) (key @ ''.'')"
      then obtain x where x: "env_key n = key @ ''.'' @ x" by (auto simp: strings_HasPrefix_iff)
      have "CHR ''.'' \<notin> set key"
        using plain(2) unfolding n [symmetric] x by (auto simp: filter_empty_conv)
      with sec(2) consider "key = ''env''" | "key = ''version''" by blast
      then have "capitals (env_key n) = ''ENV_'' @ capitals x \<or> capitals (env_key n) = ''VERSION_'' @ capitals x"
        using caps(4,5) by cases (simp_all add: x)
      then have "r = ''ENV_'' @ capitals x \<or> r = ''VERSION_'' @ capitals x"
        using plain(1) unfolding n [symmetric] by simp
      with r(3,4) show False using strings_HasPrefix_append by blast
    qed
    ultimately show ?thesis ..
  qed
  then show ?thesis
    by (auto simp: clear_of_def list_all_iff set_env_def env_values_def env_transform_def env_prefix_def)
qed

text \<open>The entries of a setting, layer by layer.\<close>

lemma env_entries:
  assumes "plain_environ S" and "key \<in> set (map fst config_defaults)"
  shows "map snd (filter (\<lambda>(k, _). k = key) (set_env S)) = [CStr v. (n, v) \<leftarrow> cs_environ S, n = env_name key]"
proof -
  have name: "strings_HasPrefix n env_prefix \<and> env_key n = key \<longleftrightarrow> n = env_name key"
    if env: "(n, v) \<in> set (cs_environ S)" for n v
  proof (cases "strings_HasPrefix n env_prefix")
    case True
    then obtain r where n: "n = ''FLOWHAND_'' @ r" by (auto simp: strings_HasPrefix_iff env_prefix_def)
    with assms(1) env True have "list_all env_char r"
      by (auto simp: plain_environ_def plain_variable_def list_all_iff Let_def env_prefix_def)
    with plain_key_iff [OF _ assms(2)] True n show ?thesis by simp
  next
    case False
    then show ?thesis by (auto simp: env_name_def)
  qed
  have "map snd (filter (\<lambda>(k, _). k = key) (env_values xs env_prefix env_transform))
      = [CStr v. (n, v) \<leftarrow> xs, n = env_name key]" if "set xs \<subseteq> set (cs_environ S)" for xs
    using that
  proof (induction xs)
    case (Cons x xs)
    obtain n v where x: "x = (n, v)" by (cases x)
    with Cons.prems name [of n v] have
      "strings_HasPrefix n env_prefix \<and> env_key n = key \<longleftrightarrow> n = env_name key" by simp
    with Cons x show ?case by (auto simp: env_values_def env_transform_def)
  qed (simp add: env_values_def)
  then show ?thesis by (simp add: set_env_def)
qed

lemma flag_entries:
  assumes "map_of flag_table (strings_ReplaceByte flag (CHR ''-'') (CHR ''_'')) = Some key"
  shows "map snd (filter (\<lambda>(k, _). k = key) (set_flags flags)) =
    [CStr v. (n, v, given) \<leftarrow> (case flags of None \<Rightarrow> [] | Some fs \<Rightarrow> fs), given,
       strings_ReplaceByte n (CHR ''-'') (CHR ''_'') = strings_ReplaceByte flag (CHR ''-'') (CHR ''_'')]"
proof -
  have "[] \<notin> snd ` set flag_table" and inj: "inj_on snd (set flag_table)"
    using flag_table_inj by (code_simp, simp add: distinct_map)
  with assms have key: "key \<noteq> []" by (force dest: map_of_SomeD)
  have name: "flag_key n = key \<longleftrightarrow>
      strings_ReplaceByte n (CHR ''-'') (CHR ''_'') = strings_ReplaceByte flag (CHR ''-'') (CHR ''_'')" for n
  proof
    assume "flag_key n = key"
    with key have "map_of flag_table (strings_ReplaceByte n (CHR ''-'') (CHR ''_'')) = Some key"
      by (auto simp: flag_key_def Let_def split: option.splits)
    from inj_onD [OF inj _ map_of_SomeD [OF this] map_of_SomeD [OF assms]]
    show "strings_ReplaceByte n (CHR ''-'') (CHR ''_'') = strings_ReplaceByte flag (CHR ''-'') (CHR ''_'')" by simp
  qed (use assms in \<open>simp add: flag_key_def Let_def\<close>)
  have "map snd (filter (\<lambda>(k, _). k = key) (set_flags (Some fs))) = [CStr v. (n, v, given) \<leftarrow> fs, given,
       strings_ReplaceByte n (CHR ''-'') (CHR ''_'') = strings_ReplaceByte flag (CHR ''-'') (CHR ''_'')]" for fs
    using key by (induction fs) (auto simp: set_flags_def flag_transform_def name [symmetric])
  then show ?thesis by (cases flags) (simp_all add: set_flags_def)
qed

lemma setting_documented:
  assumes "plain_environ S" and "key \<in> set (map fst config_defaults)"
  shows "setting S path flags key = documented_setting S path flags key"
proof -
  obtain var flag dflt where d: "(key, var, flag, dflt) \<in> set documented"
    using assms(2) documented_keys(1) by (metis imageE list.set_map prod.collapse)
  have "distinct (map fst documented)" by (simp add: documented_keys(1) setting_keys_distinct)
  with d have "map_of documented key = Some (var, flag, dflt)" by simp
  moreover have "var = env_name key" "map_of config_defaults key = Some dflt"
    "map_of flag_table (strings_ReplaceByte flag (CHR ''-'') (CHR ''_'')) = Some key"
    using documented_keys(2) d by (auto simp: list_all_iff)
  ultimately show ?thesis
    by (simp add: setting_def documented_setting_def over_last env_entries [OF assms] flag_entries
        entries_of [of key "cs_files S path"] set_file_def)
qed

section \<open>Precedence in the documented names\<close>

text \<open>
  C33. Defaults, file, environment, flags: every field of a loaded configuration is the value of
  the highest of the four layers that sets it, under the names the documents give: the last given
  flag of the setting's name, else the last variable of its name, else its entry in the file, else
  the documented default. Excluded are variables of this program that are not written in
  capitals, and variables or file entries that replace a whole section (\<open>FLOWHAND_HTTP\<close>) or
  lie below a setting (\<open>FLOWHAND_ENV_X\<close>), which blank the settings they hide.
\<close>

theorem load_precedence:
  assumes "koanf_laws K lookup S C" and "Load K path flags = Inr cfg"
    and "plain_environ S" and "list_all (\<lambda>(key, _). clear_of key (set_file S path)) documented"
  shows "cfg = settled C (documented_setting S path flags)"
proof -
  have clear: "clear_of key (set_file S path)" if "key \<in> set (map fst config_defaults)" for key
    using assms(4) that unfolding documented_keys(1) [symmetric] by (auto simp: list_all_iff)
  have eq: "setting S path flags key = documented_setting S path flags key"
    if "key \<in> set (map fst config_defaults)" for key
    by (rule setting_documented [OF assms(3) that])
  have "cfg = settled C (setting S path flags)"
    using plain_clear [OF assms(3)] clear
    by (intro load_settled [OF assms(1,2)]) (auto simp: list_all_iff)
  also have "\<dots> = settled C (documented_setting S path flags)"
    unfolding settled_def by (simp add: eq config_defaults_def)
  finally show ?thesis .
qed

text \<open>An instance that keeps the laws: the entries themselves, the newest first.\<close>

definition list_koanf ::
  "conf_sources \<Rightarrow> conf_conv \<Rightarrow> ((string \<times> conf_value) list, (string \<times> string \<times> bool) list) koanf" where
  "list_koanf S C =
     \<lparr>ko_New = [], ko_LoadMap = (\<lambda>m k. Inr (rev m @ k)),
      ko_LoadFile = (\<lambda>p k. Inr (rev (cs_files S p) @ k)),
      ko_LoadEnv = (\<lambda>p f k. Inr (rev (env_values (cs_environ S) p f) @ k)),
      ko_LoadFlags = (\<lambda>fs f k. Inr (rev (flag_values fs f (\<lambda>d. map_of k d \<noteq> None)) @ k)),
      ko_Int = (\<lambda>k key. cv_int C (map_of k key)),
      ko_String = (\<lambda>k key. cv_string C (map_of k key)),
      ko_Duration = (\<lambda>k key. cv_duration C (map_of k key))\<rparr>"

lemma list_koanf_laws: "koanf_laws (list_koanf S C) map_of S C"
  by (auto simp: koanf_laws_def list_koanf_def over_def map_add_def split: option.splits)

definition demo_sources :: conf_sources where
  "demo_sources =
     \<lparr>cs_environ = [(''HOME'', ''/''), (''FLOWHAND_OBS_LOG_LEVEL'', ''debug''),
                    (''FLOWHAND_OBS_SERVICE_NAME'', ''demo'')],
      cs_files = (\<lambda>_. [(''http.addr'', CStr '':9090''), (''obs.service_name'', CStr ''file'')])\<rparr>"

definition demo_conv :: conf_conv where
  "demo_conv =
     \<lparr>cv_int = (\<lambda>v. case v of Some (CInt n) \<Rightarrow> word_of_int n | _ \<Rightarrow> 0),
      cv_string = (\<lambda>v. case v of Some (CStr s) \<Rightarrow> s | _ \<Rightarrow> []),
      cv_duration = (\<lambda>v. if v = Some (CStr ''1h'') then 3600000000000
                         else if v = Some (CStr ''10s'') then 10000000000 else 0)\<rparr>"

definition demo_flags :: "(string \<times> string \<times> bool) list" where
  "demo_flags = [(''config'', ''cfg.yaml'', True), (''log-level'', ''warn'', True)]"

lemma demo_env: "set_env demo_sources =
    [(''obs.log_level'', CStr ''debug''), (''obs.service_name'', CStr ''demo'')]"
  by code_simp

lemma demo_set_flags: "set_flags (Some demo_flags) = [(''obs.log_level'', CStr ''warn'')]"
  by code_simp

lemma demo_clear:
  "list_all (\<lambda>key. clear_of key (set_env demo_sources) \<and> clear_of key (set_file demo_sources ''cfg.yaml''))
     (map fst config_defaults)"
  unfolding demo_env
  by (simp add: config_defaults_def clear_of_def strings_HasPrefix_def set_file_def demo_sources_def)

lemma demo_setting:
  "setting demo_sources ''cfg.yaml'' (Some demo_flags) key =
     map_of ([(''obs.log_level'', CStr ''warn''), (''obs.service_name'', CStr ''demo''),
              (''http.addr'', CStr '':9090'')] @ config_defaults) key"
  unfolding setting_def demo_env demo_set_flags
  by (simp add: over_def set_file_def demo_sources_def)

lemma demo_load_conns:
  "\<exists>cfg. Load (list_koanf demo_sources demo_conv) ''cfg.yaml'' (Some demo_flags) = Inr cfg
     \<and> sint (db_MaxConns (cf_DB cfg)) = 10"
proof -
  let ?K = "list_koanf demo_sources demo_conv"
  obtain k where k: "load_layers ?K ''cfg.yaml'' (Some demo_flags) = Inr k"
    by (simp add: load_layers_def list_koanf_def)
  have look: "map_of k key = setting demo_sources ''cfg.yaml'' (Some demo_flags) key"
    if "key \<in> set (map fst config_defaults)" for key
    using load_layers_lookup [OF list_koanf_laws k that] bspec [OF demo_clear [unfolded list_all_iff] that]
    by blast
  have "ko_Int ?K k ''db.max_conns'' = 10" "ko_Int ?K k ''db.min_conns'' = 2"
    using look [of "''db.max_conns''"] look [of "''db.min_conns''"]
    by (simp_all add: demo_setting config_defaults_def list_koanf_def demo_conv_def)
  then show ?thesis by (simp add: Load_def k materialize_def MaxInt32_def)
qed

lemma demo_documented:
  "documented_setting demo_sources ''cfg.yaml'' (Some demo_flags) ''obs.log_level'' = Some (CStr ''warn'')"
  "documented_setting demo_sources ''cfg.yaml'' (Some demo_flags) ''obs.service_name'' = Some (CStr ''demo'')"
  "documented_setting demo_sources ''cfg.yaml'' (Some demo_flags) ''http.addr'' = Some (CStr '':9090'')"
  "documented_setting demo_sources ''cfg.yaml'' (Some demo_flags) ''db.max_conns'' = Some (CInt 10)"
  by code_simp+

theorem load_precedence_witness:
  "\<exists>cfg. Load (list_koanf demo_sources demo_conv) ''cfg.yaml'' (Some demo_flags) = Inr cfg
     \<and> ob_LogLevel (cf_Obs cfg) = ''warn'' \<and> ob_ServiceName (cf_Obs cfg) = ''demo''
     \<and> hc_Addr (cf_HTTP cfg) = '':9090'' \<and> sint (db_MaxConns (cf_DB cfg)) = 10"
proof -
  obtain cfg where cfg: "Load (list_koanf demo_sources demo_conv) ''cfg.yaml'' (Some demo_flags) = Inr cfg"
    using demo_load_conns by blast
  have "plain_environ demo_sources" by code_simp
  moreover have "list_all (\<lambda>(key, _). clear_of key (set_file demo_sources ''cfg.yaml'')) documented"
    by (simp add: documented_def clear_of_def strings_HasPrefix_def set_file_def demo_sources_def)
  ultimately have "cfg = settled demo_conv (documented_setting demo_sources ''cfg.yaml'' (Some demo_flags))"
    by (rule load_precedence [OF list_koanf_laws cfg])
  with cfg demo_documented show ?thesis by (simp add: settled_def demo_conv_def)
qed

section \<open>Pool settings\<close>

text \<open>
  C35. The pool of a loaded configuration never opens with the maximum of its DSN: it is always
  replaced by the loaded one, which is at least 1; the minimum is replaced exactly when the loaded
  one is not 0, so a minimum of 0, which \<open>Load\<close> accepts, leaves the DSN's; the lifetime is
  replaced exactly when it is positive. A DSN that does not parse is the error.
\<close>

theorem pool_of_loaded:
  assumes "Load K path flags = Inr cfg"
  shows "case pp_ParseConfig P (db_DSN (cf_DB cfg)) of
      Inl err \<Rightarrow> NewPool P (cf_DB cfg) = Inl (WrapErrorf ''parse dsn: %w'' [] err)
    | Inr pcfg \<Rightarrow> \<exists>p. NewPool P (cf_DB cfg) = pp_NewWithConfig P p
        \<and> pc_MaxConns p = db_MaxConns (cf_DB cfg) \<and> 1 \<le> sint (pc_MaxConns p)
        \<and> pc_MinConns p = (if db_MinConns (cf_DB cfg) = 0 then pc_MinConns pcfg
                           else db_MinConns (cf_DB cfg))
        \<and> pc_MaxConnLifetime p = (if 0 < sint (db_MaxConnLifetime (cf_DB cfg))
                                  then db_MaxConnLifetime (cf_DB cfg) else pc_MaxConnLifetime pcfg)
        \<and> pc_Tracer p \<and> pc_Rest p = pc_Rest pcfg"
proof -
  obtain k where k: "materialize K k = Inr cfg"
    using assms by (auto simp: Load_def split: sum.splits)
  have max: "0 <s db_MaxConns (cf_DB cfg)" "1 \<le> sint (db_MaxConns (cf_DB cfg))"
    and min: "0 <s db_MinConns (cf_DB cfg) \<longleftrightarrow> db_MinConns (cf_DB cfg) \<noteq> 0"
    using materialize_bounds [OF k] sint_0 signed_word_eqI [of "db_MinConns (cf_DB cfg)" 0]
    by (auto simp: word_sless_alt less_le)
  show ?thesis
  proof (cases "pp_ParseConfig P (db_DSN (cf_DB cfg))")
    case (Inr pcfg)
    with max min show ?thesis
      by (auto intro!: exI [of _ "pool_settings (cf_DB cfg) pcfg"]
          simp: NewPool_def pool_settings_def Let_def word_sless_alt)
  qed (simp add: NewPool_def)
qed

theorem pool_of_loaded_witness:
  "\<exists>cfg p. Load (list_koanf demo_sources demo_conv) ''cfg.yaml'' (Some demo_flags) = Inr cfg
     \<and> NewPool \<lparr>pp_ParseConfig = (\<lambda>_. Inr \<lparr>pc_MaxConns = 50, pc_MinConns = 5, pc_MaxConnLifetime = 9,
         pc_Tracer = False, pc_Rest = ()\<rparr>), pp_NewWithConfig = Inr\<rparr> (cf_DB cfg) = Inr p
     \<and> sint (pc_MaxConns p) = 10"
proof -
  obtain cfg where cfg: "Load (list_koanf demo_sources demo_conv) ''cfg.yaml'' (Some demo_flags) = Inr cfg"
    "sint (db_MaxConns (cf_DB cfg)) = 10"
    using demo_load_conns by blast
  from pool_of_loaded [OF cfg(1), of "\<lparr>pp_ParseConfig = (\<lambda>_. Inr \<lparr>pc_MaxConns = 50, pc_MinConns = 5,
      pc_MaxConnLifetime = 9, pc_Tracer = False, pc_Rest = ()\<rparr>), pp_NewWithConfig = Inr\<rparr>"] cfg
  show ?thesis by auto
qed

end
