(* ===== verification/Obs_Process.thy ===== *)
theory Obs_Process
  imports Complex_Main App_Config
begin

text \<open>
  internal/obs: the logger with its span stamping (log.go), the resource (resource.go), the two
  providers (tracing.go, metrics.go), and \<open>Init\<close> with the shutdown function it returns
  (shutdown.go). A process is the sequence of its effects and the list the shutdown function
  captured.
\<close>

section \<open>Logging (log.go)\<close>

type_synonym attrs = "(string \<times> string) list"

record log_record =
  lr_Level :: int
  lr_Message :: string
  lr_Attrs :: attrs

record span_context =
  sp_TraceID :: string
  sp_SpanID :: string
  sp_Valid :: bool
  sp_Sampled :: bool

text \<open>
  \<open>slog\<close> and the span of a context: \<open>'h\<close> are the library's handlers, \<open>'c\<close> contexts,
  \<open>'w\<close> what is written.
\<close>

record ('h, 'c, 'w) slog =
  so_NewText :: "int \<Rightarrow> 'h"
  so_NewJSON :: "int \<Rightarrow> 'h"
  so_Handle :: "'h \<Rightarrow> 'c \<Rightarrow> log_record \<Rightarrow> 'w \<Rightarrow> 'w \<times> gerr option"
  so_WithAttrs :: "'h \<Rightarrow> attrs \<Rightarrow> 'h"
  so_WithGroup :: "'h \<Rightarrow> string \<Rightarrow> 'h"
  so_span :: "'c \<Rightarrow> span_context"

datatype 'h trace_handler = TraceHandler 'h

fun trace_Handle ::
  "('h, 'c, 'w) slog \<Rightarrow> 'h trace_handler \<Rightarrow> 'c \<Rightarrow> log_record \<Rightarrow> 'w \<Rightarrow> 'w \<times> gerr option" where
  "trace_Handle S (TraceHandler h) ctx r w =
     (let sc = so_span S ctx;
          r = (if sp_Valid sc
               then r\<lparr>lr_Attrs := lr_Attrs r @ [(''trace_id'', sp_TraceID sc), (''span_id'', sp_SpanID sc)]\<rparr>
               else r)
      in so_Handle S h ctx r w)"

fun trace_WithAttrs :: "('h, 'c, 'w) slog \<Rightarrow> 'h trace_handler \<Rightarrow> attrs \<Rightarrow> 'h trace_handler" where
  "trace_WithAttrs S (TraceHandler h) as = TraceHandler (so_WithAttrs S h as)"

fun trace_WithGroup :: "('h, 'c, 'w) slog \<Rightarrow> 'h trace_handler \<Rightarrow> string \<Rightarrow> 'h trace_handler" where
  "trace_WithGroup S (TraceHandler h) name =
     (if name = [] then TraceHandler h else TraceHandler (so_WithGroup S h name))"

text \<open>The levels of \<open>slog\<close>: debug -4, info 0, warn 4, error 8.\<close>

definition parseLevel :: "string \<Rightarrow> int" where
  "parseLevel s =
     (if s = ''debug'' then -4 else if s = ''warn'' then 4 else if s = ''error'' then 8 else 0)"

definition newLogger :: "('h, 'c, 'w) slog \<Rightarrow> string \<Rightarrow> string \<Rightarrow> 'h trace_handler" where
  "newLogger S format level =
     (let h = so_NewText S (parseLevel level);
          h = (if format = ''json'' then so_NewJSON S (parseLevel level) else h)
      in TraceHandler h)"

definition NewLogger :: "('h, 'c, 'w) slog \<Rightarrow> obs_config \<Rightarrow> 'h trace_handler" where
  "NewLogger S cfg = newLogger S (ob_LogFormat cfg) (ob_LogLevel cfg)"

text \<open>
  The logger of the tests: \<open>S\<close> is \<open>slog\<close> over the given writer, as it is over standard
  output for \<open>NewLogger\<close>; the chain of handlers is the same.
\<close>

definition NewLoggerWithWriter :: "('h, 'c, 'w) slog \<Rightarrow> obs_config \<Rightarrow> 'h trace_handler" where
  "NewLoggerWithWriter S cfg = newLogger S (ob_LogFormat cfg) (ob_LogLevel cfg)"

text \<open>What callers derive from a logger, on the logger and on the handler it wraps.\<close>

datatype derivation = WithAttrs attrs | WithGroup string

fun derive :: "('h, 'c, 'w) slog \<Rightarrow> 'h trace_handler \<Rightarrow> derivation list \<Rightarrow> 'h trace_handler" where
  "derive S h [] = h"
| "derive S h (WithAttrs as # ds) = derive S (trace_WithAttrs S h as) ds"
| "derive S h (WithGroup name # ds) = derive S (trace_WithGroup S h name) ds"

fun derive_inner :: "('h, 'c, 'w) slog \<Rightarrow> 'h \<Rightarrow> derivation list \<Rightarrow> 'h" where
  "derive_inner S h [] = h"
| "derive_inner S h (WithAttrs as # ds) = derive_inner S (so_WithAttrs S h as) ds"
| "derive_inner S h (WithGroup name # ds) =
     derive_inner S (if name = [] then h else so_WithGroup S h name) ds"

lemma derive_trace: "derive S (TraceHandler h) ds = TraceHandler (derive_inner S h ds)"
  by (induction S h ds rule: derive_inner.induct) auto

text \<open>
  Every record a logger of this process writes under a valid span carries the span's trace
  and span id exactly once, after its own attributes, sampled or not, whatever attributes and
  groups the logger was derived with; without a span it is passed on as it is. The handler below
  is the one the format and level name, derived the same way.
\<close>

lemma every_log_stamped:
  "trace_Handle S (derive S (NewLogger S cfg) ds) ctx r w =
     so_Handle S
       (derive_inner S (if ob_LogFormat cfg = ''json'' then so_NewJSON S (parseLevel (ob_LogLevel cfg))
                        else so_NewText S (parseLevel (ob_LogLevel cfg))) ds)
       ctx
       (if sp_Valid (so_span S ctx)
        then r\<lparr>lr_Attrs := lr_Attrs r @ [(''trace_id'', sp_TraceID (so_span S ctx)),
                                         (''span_id'', sp_SpanID (so_span S ctx))]\<rparr>
        else r) w"
  by (simp add: NewLogger_def newLogger_def Let_def derive_trace)

section \<open>The process\<close>

datatype component = Exporter | TracerProvider | MeterProvider

text \<open>A view: the instrument's name pattern, its unit, the histogram boundaries.\<close>

type_synonym view = "string \<times> string \<times> rat list"

datatype proc_event =
    LoggerSet string string
  | OtelErrorHandlerSet
  | Started component
  | ViewsAdded "view list"
  | TracerProviderSet
  | PropagatorSet
  | RegistryMade
  | MeterProviderSet
  | Shut component
  | SignalsOn
  | SignalsOff
  | PoolOpened
  | PoolClosed
  | Served
  | ObsShutdownFailed gerr

record process_state =
  pr_trace :: "proc_event list"
  pr_funcs :: "component list"   \<comment> \<open>\<open>shutdownFuncs\<close>, captured by the shutdown function\<close>

definition log_event :: "proc_event \<Rightarrow> process_state \<Rightarrow> process_state" where
  "log_event e p = p\<lparr>pr_trace := pr_trace p @ [e]\<rparr>"

text \<open>
  The OpenTelemetry SDK: whether each constructor works, and what the shutdown of a component
  answers. \<open>'r\<close> are resources.
\<close>

record 'r otel_sdk =
  os_newExporter :: "string \<Rightarrow> gerr option"
  os_mergeResource :: "attrs \<Rightarrow> gerr + 'r"
  os_newPrometheus :: "gerr option"
  os_startRuntime :: "gerr option"
  os_shutdown :: "component \<Rightarrow> gerr option"

definition newResource :: "'r otel_sdk \<Rightarrow> config \<Rightarrow> gerr + 'r" where
  "newResource K cfg =
     (let merge = (\<lambda>env. os_mergeResource K
            [(''service.name'', ob_ServiceName (cf_Obs cfg)), (''service.version'', cf_Version cfg),
             (''deployment.environment.name'', env)])
      in if cf_Env cfg = ''dev'' then merge ''development''
         else if cf_Env cfg = ''staging'' then merge ''staging''
         else if cf_Env cfg = ''prod'' then merge ''production''
         else Inl (Errorf ''unknown env %q (want dev|staging|prod)'' [ArgStr (cf_Env cfg)]))"

definition NewTracerProvider ::
  "'r otel_sdk \<Rightarrow> config \<Rightarrow> process_state \<Rightarrow> process_state \<times> (gerr + 'r)" where
  "NewTracerProvider K cfg p =
     (case os_newExporter K (ob_OTLPEndpoint (cf_Obs cfg)) of
        Some err \<Rightarrow> (p, Inl err)
      | None \<Rightarrow>
          (let p = log_event (Started Exporter) p
           in case newResource K cfg of
                Inl err \<Rightarrow> (p, Inl (WrapErrorf ''merge resource: %w'' [] err))
              | Inr res \<Rightarrow> (log_event (Started TracerProvider) p, Inr res)))"

text \<open>The two views of metrics.go, one per unit a duration may be reported in.\<close>

definition msView :: view where
  "msView = (''*.duration'', ''ms'', [5, 10, 20, 30, 40, 50, 75, 100, 250, 500, 1000])"

definition sView :: view where
  "sView = (''*.duration'', ''s'',
     [5/1000, 10/1000, 20/1000, 30/1000, 40/1000, 50/1000, 75/1000, 100/1000, 250/1000, 500/1000, 1])"

text \<open>They state the same boundaries, and no unit matches both.\<close>

lemma views_agree:
  "map (\<lambda>b. 1000 * b) (snd (snd sView)) = snd (snd msView)" "fst (snd sView) \<noteq> fst (snd msView)"
  by (simp_all add: sView_def msView_def)

definition NewMeterProvider ::
  "'r otel_sdk \<Rightarrow> config \<Rightarrow> process_state \<Rightarrow> process_state \<times> (gerr + 'r)" where
  "NewMeterProvider K cfg p =
     (case os_newPrometheus K of
        Some err \<Rightarrow> (p, Inl (WrapErrorf ''prometheus exporter: %w'' [] err))
      | None \<Rightarrow>
          (case newResource K cfg of
             Inl err \<Rightarrow> (p, Inl (WrapErrorf ''merge resource: %w'' [] err))
           | Inr res \<Rightarrow>
               (let p = log_event (Started MeterProvider) (log_event (ViewsAdded [msView, sView]) p)
                in case os_startRuntime K of
                     Some err \<Rightarrow> (p, Inl (WrapErrorf ''runtime metrics: %w'' [] err))
                   | None \<Rightarrow> (p, Inr res))))"

text \<open>The result is the pair of providers; the shutdown function is \<open>obs_shutdown\<close> below.\<close>

definition Init :: "'r otel_sdk \<Rightarrow> config \<Rightarrow> process_state \<Rightarrow> process_state \<times> (gerr + 'r \<times> 'r)" where
  "Init K cfg p =
     (let p = log_event (LoggerSet (ob_LogFormat (cf_Obs cfg)) (ob_LogLevel (cf_Obs cfg))) p;
          p = log_event OtelErrorHandlerSet p;
          p = p\<lparr>pr_funcs := []\<rparr>
      in case NewTracerProvider K cfg p of
           (p, Inl err) \<Rightarrow> (p, Inl err)
         | (p, Inr tp) \<Rightarrow>
             (let p = log_event TracerProviderSet p;
                  p = log_event PropagatorSet p;
                  p = p\<lparr>pr_funcs := pr_funcs p @ [TracerProvider]\<rparr>;
                  p = log_event RegistryMade p
              in case NewMeterProvider K cfg p of
                   (p, Inl err) \<Rightarrow> (p, Inl err)
                 | (p, Inr mp) \<Rightarrow>
                     (let p = log_event MeterProviderSet p;
                          p = p\<lparr>pr_funcs := pr_funcs p @ [MeterProvider]\<rparr>
                      in (p, Inr (tp, mp)))))"

fun shutdown_loop ::
  "'r otel_sdk \<Rightarrow> component list \<Rightarrow> gerr option \<Rightarrow> process_state \<Rightarrow> process_state \<times> gerr option" where
  "shutdown_loop K [] err p = (p, err)"
| "shutdown_loop K (c # cs) err p =
     shutdown_loop K cs (errors_Join [err, os_shutdown K c]) (log_event (Shut c) p)"

definition obs_shutdown :: "'r otel_sdk \<Rightarrow> process_state \<Rightarrow> process_state \<times> gerr option" where
  "obs_shutdown K p =
     (case shutdown_loop K (pr_funcs p) None p of (p, err) \<Rightarrow> (p\<lparr>pr_funcs := []\<rparr>, err))"

lemma log_event_simps [simp]:
  "pr_trace (log_event e p) = pr_trace p @ [e]" "pr_funcs (log_event e p) = pr_funcs p"
  by (simp_all add: log_event_def)

lemma shutdown_loop_trace:
  "pr_trace (fst (shutdown_loop K cs err p)) = pr_trace p @ map Shut cs"
  by (induction cs arbitrary: err p) auto

text \<open>The events of a run of \<open>Init\<close>, by how far it gets.\<close>

definition init_prefix :: "config \<Rightarrow> proc_event list" where
  "init_prefix cfg = [LoggerSet (ob_LogFormat (cf_Obs cfg)) (ob_LogLevel (cf_Obs cfg)), OtelErrorHandlerSet]"

definition tracer_events :: "proc_event list" where
  "tracer_events =
     [Started Exporter, Started TracerProvider, TracerProviderSet, PropagatorSet, RegistryMade]"

definition meter_events :: "proc_event list" where
  "meter_events = [ViewsAdded [msView, sView], Started MeterProvider]"

lemma Init_cases:
  assumes "Init K cfg p = (p', res)"
  obtains (no_exporter) err where "os_newExporter K (ob_OTLPEndpoint (cf_Obs cfg)) = Some err"
      "res = Inl err" "pr_trace p' = pr_trace p @ init_prefix cfg"
  | (no_resource) err where "os_newExporter K (ob_OTLPEndpoint (cf_Obs cfg)) = None"
      "newResource K cfg = Inl err" "res = Inl (WrapErrorf ''merge resource: %w'' [] err)"
      "pr_trace p' = pr_trace p @ init_prefix cfg @ [Started Exporter]"
  | (no_meter) tp err ev where "os_newExporter K (ob_OTLPEndpoint (cf_Obs cfg)) = None"
      "newResource K cfg = Inr tp" "res = Inl err"
      "pr_trace p' = pr_trace p @ init_prefix cfg @ tracer_events @ ev"
      "ev = [] \<or> ev = meter_events"
      "os_newPrometheus K \<noteq> None \<or> os_startRuntime K \<noteq> None"
  | (ready) tp where "os_newExporter K (ob_OTLPEndpoint (cf_Obs cfg)) = None"
      "newResource K cfg = Inr tp" "res = Inr (tp, tp)"
      "pr_trace p' = pr_trace p @ init_prefix cfg @ tracer_events @ meter_events @ [MeterProviderSet]"
      "pr_funcs p' = [TracerProvider, MeterProvider]"
proof (cases "os_newExporter K (ob_OTLPEndpoint (cf_Obs cfg))")
  case (Some err)
  with assms no_exporter show ?thesis
    by (auto simp: Init_def NewTracerProvider_def Let_def init_prefix_def)
next
  case exporter: None
  show ?thesis
  proof (cases "newResource K cfg")
    case (Inl err)
    with exporter assms no_resource show ?thesis
      by (auto simp: Init_def NewTracerProvider_def Let_def init_prefix_def)
  next
    case resource: (Inr tp)
    show ?thesis
    proof (cases "os_newPrometheus K")
      case (Some err)
      with exporter resource assms no_meter [of tp "WrapErrorf ''prometheus exporter: %w'' [] err" "[]"]
      show ?thesis
        by (auto simp: Init_def NewTracerProvider_def NewMeterProvider_def Let_def init_prefix_def
            tracer_events_def)
    next
      case prom: None
      show ?thesis
      proof (cases "os_startRuntime K")
        case (Some err)
        with exporter resource prom assms
          no_meter [of tp "WrapErrorf ''runtime metrics: %w'' [] err" meter_events]
        show ?thesis
          by (auto simp: Init_def NewTracerProvider_def NewMeterProvider_def Let_def init_prefix_def
              tracer_events_def meter_events_def)
      next
        case None
        with exporter resource prom assms ready show ?thesis
          by (auto simp: Init_def NewTracerProvider_def NewMeterProvider_def Let_def init_prefix_def
              tracer_events_def meter_events_def)
      qed
    qed
  qed
qed

text \<open>
  The shutdown function of a successful \<open>Init\<close> shuts both providers, the tracer
  provider first, and goes on when the first one fails; its error is nil exactly when both shut
  cleanly, and is each of the errors that occurred; a second call does nothing and answers nil.
\<close>

lemma shutdown_complete:
  assumes "Init K cfg p = (p1, Inr r)" and "obs_shutdown K p1 = (p2, err)"
  shows "pr_trace p2 = pr_trace p1 @ [Shut TracerProvider, Shut MeterProvider]
    \<and> (err = None) = (os_shutdown K TracerProvider = None \<and> os_shutdown K MeterProvider = None)
    \<and> (case err of None \<Rightarrow> True
       | Some e \<Rightarrow> errors_Is e t = ((\<exists>x. os_shutdown K TracerProvider = Some x \<and> errors_Is x t)
           \<or> (\<exists>x. os_shutdown K MeterProvider = Some x \<and> errors_Is x t)))
    \<and> obs_shutdown K p2 = (p2, None)"
  using assms(1)
proof (cases rule: Init_cases)
  case (ready tp)
  with assms(2) show ?thesis
    by (auto simp: obs_shutdown_def Let_def log_event_def split: option.splits)
qed simp_all

definition demo_sdk :: "unit otel_sdk" where
  "demo_sdk =
     \<lparr>os_newExporter = (\<lambda>_. None), os_mergeResource = (\<lambda>_. Inr ()), os_newPrometheus = None,
      os_startRuntime = None,
      os_shutdown = (\<lambda>c. if c = TracerProvider then Some (Plain ''deadline exceeded'') else None)\<rparr>"

definition demo_config :: config where
  "demo_config =
     \<lparr>cf_Env = ''dev'', cf_Version = ''dev'',
      cf_HTTP = \<lparr>hc_Addr = '':8080'', hc_ShutdownTimeout = 10000000000\<rparr>,
      cf_DB = \<lparr>db_DSN = [], db_MaxConns = 10, db_MinConns = 2, db_MaxConnLifetime = 3600000000000\<rparr>,
      cf_Obs = \<lparr>ob_LogLevel = ''info'', ob_LogFormat = ''json'', ob_OTLPEndpoint = ''localhost:4317'',
                ob_ServiceName = ''flowhand''\<rparr>\<rparr>"

definition new_process :: process_state where
  "new_process = \<lparr>pr_trace = [], pr_funcs = []\<rparr>"

lemma shutdown_complete_example:
  "\<exists>p1 r p2 e. Init demo_sdk demo_config new_process = (p1, Inr r) \<and> obs_shutdown demo_sdk p1 = (p2, Some e)
     \<and> Shut MeterProvider \<in> set (pr_trace p2)"
proof -
  obtain p1 where p1: "Init demo_sdk demo_config new_process = (p1, Inr ((), ()))"
    by (simp add: Init_def NewTracerProvider_def NewMeterProvider_def newResource_def demo_sdk_def
        demo_config_def Let_def)
  obtain p2 err where p2: "obs_shutdown demo_sdk p1 = (p2, err)" by (cases "obs_shutdown demo_sdk p1")
  from shutdown_complete [OF p1 p2] have "err \<noteq> None" "Shut MeterProvider \<in> set (pr_trace p2)"
    by (auto simp: demo_sdk_def)
  with p1 p2 show ?thesis by auto
qed

text \<open>
  C39. A failing \<open>Init\<close> releases nothing: it returns no shutdown function and shuts nothing
  down itself, so an exporter that was created keeps running, and when the tracer provider was
  already installed it stays installed and running too.
\<close>

theorem failed_init_keeps_running:
  assumes "Init K cfg p = (p', Inl err)" and "os_newExporter K (ob_OTLPEndpoint (cf_Obs cfg)) = None"
  shows "\<exists>new. pr_trace p' = pr_trace p @ new \<and> Started Exporter \<in> set new
    \<and> (\<forall>c. Shut c \<notin> set new)
    \<and> ((\<exists>e. newResource K cfg = Inl e) \<or> {Started TracerProvider, TracerProviderSet} \<subseteq> set new)"
  using assms(1)
proof (cases rule: Init_cases)
  case (no_resource e)
  then show ?thesis
    by (intro exI [of _ "init_prefix cfg @ [Started Exporter]"]) (auto simp: init_prefix_def)
next
  case (no_meter tp e ev)
  then show ?thesis
    by (intro exI [of _ "init_prefix cfg @ tracer_events @ ev"])
      (auto simp: init_prefix_def tracer_events_def meter_events_def)
qed (use assms(2) in simp_all)

theorem failed_init_keeps_running_witness:
  "\<exists>p' err. Init (demo_sdk\<lparr>os_newPrometheus := Some (Plain ''duplicate'')\<rparr>) demo_config new_process = (p', Inl err)
     \<and> Started Exporter \<in> set (pr_trace p') \<and> Shut TracerProvider \<notin> set (pr_trace p')"
proof -
  let ?K = "demo_sdk\<lparr>os_newPrometheus := Some (Plain ''duplicate'')\<rparr>"
  obtain p' err where run: "Init ?K demo_config new_process = (p', Inl err)"
    by (simp add: Init_def NewTracerProvider_def NewMeterProvider_def newResource_def demo_sdk_def
        demo_config_def Let_def)
  have "os_newExporter ?K (ob_OTLPEndpoint (cf_Obs demo_config)) = None" by (simp add: demo_sdk_def)
  from failed_init_keeps_running [OF run this] run show ?thesis by (auto simp: new_process_def)
qed

end
