(* ===== verification/Server_Run.thy ===== *)
theory Server_Run
  imports Obs_Process Api_Wiring
begin

text \<open>
  internal/server/server.go and internal/cli: \<open>Run\<close> with its listening goroutine as a step
  relation, and the commands, of which the server command builds and releases everything else.
\<close>

section \<open>Run\<close>

text \<open>
  The goroutine: inside \<open>ListenAndServe\<close>, at the send of its result, or ended. The caller:
  at the select, inside \<open>Shutdown\<close>, at the last receive, or returned.
\<close>

datatype listener = Serving | Sending "gerr option" | Finished
datatype runner = Selecting | ShuttingDown | Receiving | Returned "gerr option"

record run_state =
  rn_listener :: listener
  rn_runner :: runner
  rn_errCh :: "gerr option list"
  rn_cancelled :: bool     \<comment> \<open>the context is done\<close>
  rn_closing :: bool       \<comment> \<open>\<open>srv.Shutdown\<close> has been called\<close>

definition errCh_capacity :: nat where "errCh_capacity = 1"

definition run_start :: run_state where
  "run_start = \<lparr>rn_listener = Serving, rn_runner = Selecting, rn_errCh = [], rn_cancelled = False,
     rn_closing = False\<rparr>"

text \<open>What the goroutine makes of the error, never nil, that \<open>ListenAndServe\<close> returns.\<close>

definition listen_result :: "gerr \<Rightarrow> gerr option" where
  "listen_result err = (if \<not> errors_Is err ErrServerClosed then Some err else None)"

text \<open>
  \<open>ListenAndServe\<close> returns \<open>ErrServerClosed\<close> only after \<open>Shutdown\<close> was called;
  it may fail at any time before that and, when it races, after it.
\<close>

inductive run_step :: "run_state \<Rightarrow> run_state \<Rightarrow> bool" where
  listen_returns: "rn_listener s = Serving \<Longrightarrow> errors_Is err ErrServerClosed \<longrightarrow> rn_closing s \<Longrightarrow>
    run_step s (s\<lparr>rn_listener := Sending (listen_result err)\<rparr>)"
| send: "rn_listener s = Sending m \<Longrightarrow> length (rn_errCh s) < errCh_capacity \<Longrightarrow>
    run_step s (s\<lparr>rn_listener := Finished, rn_errCh := rn_errCh s @ [m]\<rparr>)"
| cancel: "\<not> rn_cancelled s \<Longrightarrow> run_step s (s\<lparr>rn_cancelled := True\<rparr>)"
| select_result: "rn_runner s = Selecting \<Longrightarrow> rn_errCh s = m # ms \<Longrightarrow>
    run_step s (s\<lparr>rn_runner := Returned m, rn_errCh := ms\<rparr>)"
| select_cancelled: "rn_runner s = Selecting \<Longrightarrow> rn_cancelled s \<Longrightarrow>
    run_step s (s\<lparr>rn_runner := ShuttingDown, rn_closing := True\<rparr>)"
| shutdown_ok: "rn_runner s = ShuttingDown \<Longrightarrow> run_step s (s\<lparr>rn_runner := Receiving\<rparr>)"
| shutdown_failed: "rn_runner s = ShuttingDown \<Longrightarrow> run_step s (s\<lparr>rn_runner := Returned (Some err)\<rparr>)"
| receive: "rn_runner s = Receiving \<Longrightarrow> rn_errCh s = m # ms \<Longrightarrow>
    run_step s (s\<lparr>rn_runner := Returned m, rn_errCh := ms\<rparr>)"

inductive_cases run_stepE: "run_step s t"

text \<open>A result is final, and closing the server is never taken back.\<close>

lemma run_step_final:
  assumes "run_step s t"
  shows "rn_runner s = Returned r \<Longrightarrow> rn_runner t = Returned r" "rn_closing s \<Longrightarrow> rn_closing t"
  using assms by (auto elim!: run_stepE)

abbreviation run_reachable :: "run_state \<Rightarrow> bool" where
  "run_reachable \<equiv> run_step\<^sup>*\<^sup>* run_start"

definition run_inv :: "run_state \<Rightarrow> bool" where
  "run_inv s \<longleftrightarrow>
     (rn_closing s \<longrightarrow> rn_cancelled s \<and> rn_runner s \<noteq> Selecting)
     \<and> (rn_runner s \<in> {ShuttingDown, Receiving} \<longrightarrow> rn_closing s)
     \<and> (rn_listener s \<noteq> Finished \<longrightarrow> rn_errCh s = [])
     \<and> (rn_listener s = Finished \<longrightarrow>
          (\<exists>m. rn_errCh s = [m]) \<or> rn_errCh s = [] \<and> (\<exists>r. rn_runner s = Returned r))
     \<and> (\<not> rn_closing s \<longrightarrow> rn_listener s \<noteq> Sending None \<and> None \<notin> set (rn_errCh s))
     \<and> (case rn_runner s of
          Returned None \<Rightarrow> rn_closing s \<and> rn_listener s = Finished \<and> rn_errCh s = []
        | Returned (Some _) \<Rightarrow> rn_closing s \<or> rn_listener s = Finished \<and> rn_errCh s = []
        | _ \<Rightarrow> True)"

lemma run_inv_start: "run_inv run_start"
  by (simp add: run_inv_def run_start_def)

lemma run_inv_step: "run_step s t \<Longrightarrow> run_inv s \<Longrightarrow> run_inv t"
proof (induction rule: run_step.induct)
  case (select_result s m ms)
  then show ?case by (cases m) (auto simp: run_inv_def)
next
  case (receive s m ms)
  then show ?case by (cases m) (auto simp: run_inv_def)
qed (auto simp: run_inv_def listen_result_def errCh_capacity_def split: runner.splits option.splits)

lemma run_reachable_inv: "run_reachable s \<Longrightarrow> run_inv s"
  by (induction rule: rtranclp_induct) (auto intro: run_inv_start run_inv_step)

text \<open>
  C29. Whatever the listener, the signal and \<open>Shutdown\<close> do in whatever order, the channel
  never holds more than its one place, the goroutine's send finds that place free, so it never
  blocks; \<open>Run\<close> returns nil only after it was cancelled and the goroutine has ended, and
  an error without having been cancelled only when the goroutine has ended.
\<close>

theorem run_safe:
  assumes "run_reachable s"
  shows "length (rn_errCh s) \<le> errCh_capacity
    \<and> (case rn_listener s of Sending m \<Rightarrow> length (rn_errCh s) < errCh_capacity | _ \<Rightarrow> True)
    \<and> (case rn_runner s of
         Returned None \<Rightarrow> rn_cancelled s \<and> rn_listener s = Finished
       | Returned (Some e) \<Rightarrow> rn_cancelled s \<or> rn_listener s = Finished
       | _ \<Rightarrow> True)"
proof -
  have "run_inv s" using assms by (rule run_reachable_inv)
  then show ?thesis
    by (cases "rn_listener s")
      (auto simp: run_inv_def errCh_capacity_def split: runner.splits option.splits)
qed

text \<open>A run: cancelled, shut down, the goroutine ends, \<open>Run\<close> returns nil.\<close>

definition run_stopped :: run_state where
  "run_stopped = \<lparr>rn_listener = Finished, rn_runner = Returned None, rn_errCh = [],
     rn_cancelled = True, rn_closing = True\<rparr>"

lemma run_to_stop: "(run_step ^^ 6) run_start run_stopped"
proof -
  let ?s = "\<lambda>g p c. \<lparr>rn_listener = g, rn_runner = p, rn_errCh = c, rn_cancelled = True, rn_closing = True\<rparr>"
  have "run_step run_start (run_start\<lparr>rn_cancelled := True\<rparr>)"
    by (rule run_step.cancel) (simp add: run_start_def)
  moreover have "run_step (run_start\<lparr>rn_cancelled := True\<rparr>) (?s Serving ShuttingDown [])"
    using run_step.select_cancelled [of "run_start\<lparr>rn_cancelled := True\<rparr>"] by (simp add: run_start_def)
  moreover have "run_step (?s Serving ShuttingDown []) (?s (Sending None) ShuttingDown [])"
    using run_step.listen_returns [of "?s Serving ShuttingDown []" "Sentinel ErrServerClosed"]
    by (simp add: listen_result_def)
  moreover have "run_step (?s (Sending None) ShuttingDown []) (?s (Sending None) Receiving [])"
    using run_step.shutdown_ok [of "?s (Sending None) ShuttingDown []"] by simp
  moreover have "run_step (?s (Sending None) Receiving []) (?s Finished Receiving [None])"
    using run_step.send [of "?s (Sending None) Receiving []" None] by (simp add: errCh_capacity_def)
  moreover have "run_step (?s Finished Receiving [None]) run_stopped"
    using run_step.receive [of "?s Finished Receiving [None]" None "[]"] by (simp add: run_stopped_def)
  ultimately show ?thesis
    by (simp add: eval_nat_numeral relcompp.simps) blast
qed

theorem run_safe_witness:
  "run_reachable run_stopped \<and> rn_listener run_stopped = Finished"
proof -
  have "run_reachable run_stopped" using relpowp_imp_rtranclp [OF run_to_stop] .
  from run_safe [OF this] this show ?thesis by (auto simp: run_stopped_def)
qed

definition run_measure :: "run_state \<Rightarrow> nat" where
  "run_measure s =
     (case rn_listener s of Serving \<Rightarrow> 2 | Sending _ \<Rightarrow> 1 | Finished \<Rightarrow> 0)
     + (if rn_cancelled s then 0 else 1)
     + (case rn_runner s of Selecting \<Rightarrow> 3 | ShuttingDown \<Rightarrow> 2 | Receiving \<Rightarrow> 1 | Returned _ \<Rightarrow> 0)"

lemma run_step_measure: "run_step s t \<Longrightarrow> run_measure t < run_measure s"
  by (induction rule: run_step.induct) (auto simp: run_measure_def split: runner.split)

lemma run_steps_measure: "(run_step ^^ n) s t \<Longrightarrow> n + run_measure t \<le> run_measure s"
proof (induction n arbitrary: t)
  case (Suc n)
  then obtain u where "(run_step ^^ n) s u" "run_step u t" by auto
  with Suc.IH [of u] run_step_measure [of u t] show ?case by simp
qed simp

lemma run_progress:
  assumes "run_inv s" and "\<nexists>t. run_step s t"
  shows "rn_cancelled s \<and> rn_listener s = Finished \<and> (\<exists>r. rn_runner s = Returned r)"
proof (intro conjI)
  note stuck = assms(2) [simplified]
  show cancelled: "rn_cancelled s" using stuck run_step.cancel by blast
  show fin: "rn_listener s = Finished"
  proof (cases "rn_listener s")
    case Serving
    with stuck run_step.listen_returns [of s "Plain ''closed''"] show ?thesis by simp
  next
    case (Sending m)
    with assms(1) stuck run_step.send [of s m] show ?thesis
      by (auto simp: run_inv_def errCh_capacity_def)
  qed
  show "\<exists>r. rn_runner s = Returned r"
  proof (cases "rn_runner s")
    case Selecting
    with stuck cancelled run_step.select_cancelled show ?thesis by blast
  next
    case ShuttingDown
    with stuck run_step.shutdown_ok show ?thesis by blast
  next
    case Receiving
    with assms(1) fin obtain m where "rn_errCh s = [m]" by (auto simp: run_inv_def)
    with Receiving stuck run_step.receive [of s m "[]"] show ?thesis by blast
  qed simp
qed

text \<open>
  C30. \<open>Run\<close> returns: every execution has at most six steps, the last receive included, and
  one that cannot go on has been cancelled, has returned and has no goroutine left; once
  cancelled, the step that is missing is never another signal, and the goroutine is told to stop
  before \<open>Run\<close> waits for it.
\<close>

theorem run_terminates:
  assumes "(run_step ^^ n) run_start s"
  shows "n \<le> 6
    \<and> ((\<nexists>t. run_step s t) \<longrightarrow> rn_cancelled s \<and> rn_listener s = Finished \<and> (\<exists>r. rn_runner s = Returned r))
    \<and> (case rn_runner s of
         Returned _ \<Rightarrow> True
       | Selecting \<Rightarrow> rn_cancelled s \<longrightarrow> run_step s (s\<lparr>rn_runner := ShuttingDown, rn_closing := True\<rparr>)
       | ShuttingDown \<Rightarrow> rn_closing s
       | Receiving \<Rightarrow> rn_closing s \<and> (rn_listener s = Finished \<longrightarrow> rn_errCh s \<noteq> []))"
proof -
  have inv: "run_inv s" using run_reachable_inv [OF relpowp_imp_rtranclp [OF assms]] .
  have "n \<le> 6" using run_steps_measure [OF assms] by (simp add: run_measure_def run_start_def)
  with run_progress [OF inv] inv show ?thesis
    by (auto simp: run_inv_def split: runner.split intro: run_step.select_cancelled)
qed

theorem run_terminates_witness:
  "(run_step ^^ 6) run_start run_stopped \<and> (6::nat) \<le> 6"
  using run_to_stop run_terminates [OF run_to_stop] by blast

end
