(* ===== verification/Cli_Commands.thy ===== *)
theory Cli_Commands
  imports Server_Run
begin

text \<open>
  internal/cli and cmd/flowhand: the commands, of which the server command builds the process
  bottom-up and releases it in its deferred calls, and the exit code.
\<close>

section \<open>Run as a whole\<close>

text \<open>The results \<open>server.Run\<close> can have: no server, or what an execution returns.\<close>

definition Run_returns ::
  "('c, 's) server_env \<Rightarrow> ('c, 's) api_handler \<Rightarrow> gerr option \<Rightarrow> bool" where
  "Run_returns E h r \<longleftrightarrow>
     (case api_server E h of
        Inl err \<Rightarrow> r = Some (WrapErrorf ''new oas server: %w'' [] err)
      | Inr _ \<Rightarrow> \<exists>s. run_reachable s \<and> rn_runner s = Returned r)"

section \<open>The server command\<close>

text \<open>The deferred call of the shutdown function: its error is only logged.\<close>

definition deferred_shutdown :: "'r otel_sdk \<Rightarrow> process_state \<Rightarrow> process_state" where
  "deferred_shutdown K p =
     (case obs_shutdown K p of
        (p, None) \<Rightarrow> p
      | (p, Some err) \<Rightarrow> log_event (ObsShutdownFailed err) p)"

definition serverCmd ::
  "('k, 'f) koanf \<Rightarrow> 'r otel_sdk \<Rightarrow> ('p, 'pool) pgxpool \<Rightarrow> (config \<Rightarrow> 'pool \<Rightarrow> gerr option) \<Rightarrow>
   string \<Rightarrow> 'f \<Rightarrow> process_state \<Rightarrow> process_state \<times> gerr option" where
  "serverCmd KO K P run path flags p =
     (case Load KO path (Some flags) of
        Inl err \<Rightarrow> (p, Some (WrapErrorf ''load config: %w'' [] err))
      | Inr cfg \<Rightarrow>
          (let p = log_event SignalsOn p;
               stop = log_event SignalsOff
           in case Init K cfg p of
                (p, Inl err) \<Rightarrow> (stop p, Some (WrapErrorf ''init obs: %w'' [] err))
              | (p, Inr _) \<Rightarrow>
                  (case NewPool P (cf_DB cfg) of
                     Inl err \<Rightarrow>
                       (stop (deferred_shutdown K p), Some (WrapErrorf ''pool: %w'' [] err))
                   | Inr pool \<Rightarrow>
                       (let p = log_event Served (log_event PoolOpened p);
                            r = run cfg pool
                        in (stop (deferred_shutdown K (log_event PoolClosed p)), r)))))"

text \<open>The commands of root.go; all but two are the same stub.\<close>

datatype command = ServerCmd | VersionCmd | WorkerCmd | RelayCmd | IngesterCmd | CtlCmd

definition run_command ::
  "command \<Rightarrow> (process_state \<Rightarrow> process_state \<times> gerr option) \<Rightarrow> process_state \<Rightarrow>
   process_state \<times> gerr option" where
  "run_command c server p =
     (case c of
        ServerCmd \<Rightarrow> server p
      | VersionCmd \<Rightarrow> (p, None)
      | _ \<Rightarrow> (p, Some (Sentinel ErrCmdNotImplemented)))"

text \<open>
  The names the commands are found by, in the order of \<open>AddCommand\<close>, the flags every one
  of them has, with their defaults, and what the version command prints.
\<close>

definition root_commands :: "command list" where
  "root_commands = [ServerCmd, VersionCmd, WorkerCmd, RelayCmd, IngesterCmd, CtlCmd]"

fun command_Use :: "command \<Rightarrow> string" where
  "command_Use ServerCmd = ''server''"
| "command_Use VersionCmd = ''version''"
| "command_Use WorkerCmd = ''worker''"
| "command_Use RelayCmd = ''relay''"
| "command_Use IngesterCmd = ''ingester''"
| "command_Use CtlCmd = ''ctl''"

definition root_flags :: "(string \<times> string) list" where
  "root_flags = [(''config'', []), (''log-level'', ''info'')]"

definition version_text :: "string \<Rightarrow> string \<Rightarrow> string \<Rightarrow> string" where
  "version_text version commit date =
     ''flowhand '' @ version @ '' (commit '' @ commit @ '', built '' @ date @ '')'' @ [CHR 0x0A]"

text \<open>The registered commands are all there are, each once.\<close>

instantiation command :: enum
begin

definition enum_command :: "command list" where "enum_command = root_commands"

definition enum_all_command :: "(command \<Rightarrow> bool) \<Rightarrow> bool" where
  "enum_all_command P = list_all P root_commands"

definition enum_ex_command :: "(command \<Rightarrow> bool) \<Rightarrow> bool" where
  "enum_ex_command P = list_ex P root_commands"

instance
proof
  show all: "(UNIV :: command set) = set enum_class.enum"
    using command.exhaust by (auto simp: enum_command_def root_commands_def)
  show "distinct (enum_class.enum :: command list)"
    by (simp add: enum_command_def root_commands_def)
  show "enum_class.enum_all P = Ball UNIV P" "enum_class.enum_ex P = Bex UNIV P" for P :: "command \<Rightarrow> bool"
    unfolding all unfolding enum_all_command_def enum_ex_command_def enum_command_def
    by (auto simp: list_all_iff list_ex_iff)
qed

end

lemma command_names_distinct: "distinct (map command_Use root_commands)"
  by code_simp

lemma command_of_name: "command_Use c = command_Use d \<longleftrightarrow> c = d"
  using command_names_distinct UNIV_enum [where ?'a = command]
  by (auto simp: distinct_map enum_command_def dest: inj_onD)

text \<open>
  Of the flags the command line has, besides cobra's own \<open>help\<close>, only the log level reaches
  the configuration; the path of the file is read before.
\<close>

lemma set_flags_command_line:
  assumes "fst ` set fs \<subseteq> insert ''help'' (fst ` set root_flags)"
  shows "fst ` set (set_flags (Some fs)) \<subseteq> {''obs.log_level''}"
proof -
  have "fst (flag_transform n v) \<in> {[], ''obs.log_level''}"
    if "n \<in> insert ''help'' (fst ` set root_flags)" for n v
  proof -
    have "flag_key ''help'' = []" "flag_key ''config'' = []" "flag_key ''log-level'' = ''obs.log_level''"
      by code_simp+
    with that show ?thesis by (auto simp: root_flags_def flag_transform_def)
  qed
  note key = this
  show ?thesis
  proof
    fix d
    assume "d \<in> fst ` set (set_flags (Some fs))"
    then obtain n v c where "(n, v, c) \<in> set fs" "d = fst (flag_transform n v)" "d \<noteq> []"
      by (auto simp: set_flags_def)
    moreover from this(1) assms have "n \<in> insert ''help'' (fst ` set root_flags)" by force
    ultimately show "d \<in> {''obs.log_level''}" using key [of n v] by blast
  qed
qed

text \<open>cmd/flowhand/main.go: an error is printed and the process exits with 1.\<close>

definition exit_code :: "gerr option \<Rightarrow> nat" where
  "exit_code r = (case r of None \<Rightarrow> 0 | Some _ \<Rightarrow> 1)"

lemma deferred_shutdown_trace:
  assumes "pr_funcs p = [TracerProvider, MeterProvider]"
  shows "\<exists>fail. pr_trace (deferred_shutdown K p) =
      pr_trace p @ [Shut TracerProvider, Shut MeterProvider] @ fail
    \<and> (fail = [] \<or> (\<exists>e. fail = [ObsShutdownFailed e]))"
  using assms
  by (auto simp: deferred_shutdown_def obs_shutdown_def Let_def split: option.splits)

lemma Init_failed_counts:
  assumes "Init K cfg \<lparr>pr_trace = [SignalsOn], pr_funcs = fs\<rparr> = (p1, Inl err)"
  shows "count_list (pr_trace p1) MeterProviderSet = 0" "count_list (pr_trace p1) (Shut c) = 0"
  using assms by (cases rule: Init_cases; auto simp: init_prefix_def tracer_events_def meter_events_def)+

lemma Init_ready_counts:
  assumes "Init K cfg \<lparr>pr_trace = [SignalsOn], pr_funcs = fs\<rparr> = (p1, Inr r)"
  shows "pr_funcs p1 = [TracerProvider, MeterProvider]"
    "count_list (pr_trace p1) MeterProviderSet = 1" "count_list (pr_trace p1) (Shut c) = 0"
  using assms by (cases rule: Init_cases; auto simp: init_prefix_def tracer_events_def meter_events_def)+

text \<open>
  C37. What the server command releases, path by path. Without a configuration it touches
  nothing. After a failed \<open>Init\<close> it gives back the signals and nothing else: a tracer provider
  or an exporter that \<open>Init\<close> has created by then stays. After a successful \<open>Init\<close> the pool
  is closed exactly when it was opened, then both providers are shut, each exactly once, and the
  signals are given back last. The error of the step that failed is the command's, that of
  \<open>Run\<close> unchanged, a failing shutdown is none; the exit code is 0 exactly when there is no
  error.
\<close>

theorem serverCmd_releases:
  "case serverCmd KO K P run path flags \<lparr>pr_trace = [], pr_funcs = fs\<rparr> of
     (p', r) \<Rightarrow>
       (case Load KO path (Some flags) of
          Inl err \<Rightarrow> pr_trace p' = [] \<and> r = Some (WrapErrorf ''load config: %w'' [] err)
        | Inr cfg \<Rightarrow>
            (case Init K cfg \<lparr>pr_trace = [SignalsOn], pr_funcs = fs\<rparr> of
               (p1, Inl err) \<Rightarrow>
                 pr_trace p' = pr_trace p1 @ [SignalsOff]
                 \<and> r = Some (WrapErrorf ''init obs: %w'' [] err)
             | (p1, Inr _) \<Rightarrow>
                 (\<exists>served closed fail.
                    pr_trace p' = pr_trace p1 @ served @ closed
                      @ [Shut TracerProvider, Shut MeterProvider] @ fail @ [SignalsOff]
                    \<and> (fail = [] \<or> (\<exists>e. fail = [ObsShutdownFailed e]))
                    \<and> (case NewPool P (cf_DB cfg) of
                         Inl err \<Rightarrow> served = [] \<and> closed = []
                           \<and> r = Some (WrapErrorf ''pool: %w'' [] err)
                       | Inr pool \<Rightarrow> served = [PoolOpened, Served] \<and> closed = [PoolClosed]
                           \<and> r = run cfg pool))))
       \<and> count_list (pr_trace p') (Shut TracerProvider) = count_list (pr_trace p') MeterProviderSet
       \<and> count_list (pr_trace p') (Shut MeterProvider) = count_list (pr_trace p') MeterProviderSet
       \<and> (exit_code (snd (run_command ServerCmd (serverCmd KO K P run path flags)
            \<lparr>pr_trace = [], pr_funcs = fs\<rparr>)) = 0) = (r = None)"
proof (cases "Load KO path (Some flags)")
  case (Inl err)
  then show ?thesis by (simp add: serverCmd_def run_command_def exit_code_def)
next
  case cfg: (Inr cfg)
  let ?p = "\<lparr>pr_trace = [SignalsOn], pr_funcs = fs\<rparr>"
  have on: "log_event SignalsOn \<lparr>pr_trace = [], pr_funcs = fs\<rparr> = ?p" by (simp add: log_event_def)
  obtain p1 res where init: "Init K cfg ?p = (p1, res)" by (cases "Init K cfg ?p")
  show ?thesis
  proof (cases res)
    case (Inl err)
    have run: "serverCmd KO K P run path flags \<lparr>pr_trace = [], pr_funcs = fs\<rparr> =
        (log_event SignalsOff p1, Some (WrapErrorf ''init obs: %w'' [] err))"
      using cfg init Inl by (simp add: serverCmd_def Let_def on)
    show ?thesis
      using Init_failed_counts [OF init [unfolded Inl]]
      by (simp add: run cfg init Inl run_command_def exit_code_def)
  next
    case (Inr r)
    note counts = Init_ready_counts [OF init [unfolded Inr]]
    show ?thesis
    proof (cases "NewPool P (cf_DB cfg)")
      case pool: (Inl err)
      obtain fail where fail: "pr_trace (deferred_shutdown K p1) =
          pr_trace p1 @ [Shut TracerProvider, Shut MeterProvider] @ fail"
        "fail = [] \<or> (\<exists>e. fail = [ObsShutdownFailed e])"
        using deferred_shutdown_trace [OF counts(1), of K] by auto
      have run: "serverCmd KO K P run path flags \<lparr>pr_trace = [], pr_funcs = fs\<rparr> =
          (log_event SignalsOff (deferred_shutdown K p1), Some (WrapErrorf ''pool: %w'' [] err))"
        using cfg init Inr pool by (simp add: serverCmd_def Let_def on)
      show ?thesis
        using fail counts pool
        by (auto simp: run cfg init Inr run_command_def exit_code_def)
    next
      case pool: (Inr pool)
      let ?p2 = "log_event PoolClosed (log_event Served (log_event PoolOpened p1))"
      have "pr_funcs ?p2 = [TracerProvider, MeterProvider]" using counts(1) by simp
      then obtain fail where fail: "pr_trace (deferred_shutdown K ?p2) =
          pr_trace ?p2 @ [Shut TracerProvider, Shut MeterProvider] @ fail"
        "fail = [] \<or> (\<exists>e. fail = [ObsShutdownFailed e])"
        using deferred_shutdown_trace [of ?p2 K] by auto
      have run: "serverCmd KO K P run path flags \<lparr>pr_trace = [], pr_funcs = fs\<rparr> =
          (log_event SignalsOff (deferred_shutdown K ?p2), run cfg pool)"
        using cfg init Inr pool by (simp add: serverCmd_def Let_def on)
      show ?thesis
        using fail counts pool
        by (auto simp: run cfg init Inr run_command_def exit_code_def split: option.splits)
    qed
  qed
qed

end
