(* ===== verification/Net_Url.thy ===== *)
theory Net_Url
  imports Http_Iface
begin

text \<open>
  What a request's way to a handler uses of \<open>net/url\<close>, \<open>path\<close> and \<open>net/http\<close>:
  escaping a path, the escaped path of a URL, \<open>path.Clean\<close> and the server mux's
  \<open>cleanPath\<close>. Cleaning and escaping commute, which is why a redirect is followed once.
\<close>

section \<open>Escaping\<close>

definition hex_char :: "nat \<Rightarrow> char" where
  "hex_char n = char_of (if n < 10 then 48 + n else 65 + (n - 10))"

definition is_alnum :: "char \<Rightarrow> bool" where
  "is_alnum c =
     (let n = of_char c :: nat
      in (97 \<le> n \<and> n \<le> 122) \<or> (65 \<le> n \<and> n \<le> 90) \<or> (48 \<le> n \<and> n \<le> 57))"

text \<open>\<open>shouldEscape\<close> in mode \<open>encodePath\<close>: of the reserved bytes only the question mark.\<close>

definition should_escape :: "char \<Rightarrow> bool" where
  "should_escape c \<longleftrightarrow> \<not> (is_alnum c \<or> c \<in> set ''-_.~$&+,/:;=@'')"

definition escape_byte :: "char \<Rightarrow> string" where
  "escape_byte c =
     (if should_escape c
      then [CHR ''%'', hex_char (of_char c div 16), hex_char (of_char c mod 16)]
      else [c])"

definition url_escape :: "string \<Rightarrow> string" where
  "url_escape s = concat (map escape_byte s)"

definition valid_encoded :: "string \<Rightarrow> bool" where
  "valid_encoded s =
     list_all (\<lambda>c. c \<in> set ''!$&()*+,;=:@[]%'' \<or> c = CHR 0x27 \<or> \<not> should_escape c) s"

text \<open>\<open>URL.EscapedPath\<close>: the raw path where it is a valid encoding of the path.\<close>

definition EscapedPath :: "http_request \<Rightarrow> string" where
  "EscapedPath r =
     (if rq_RawPath r \<noteq> [] \<and> valid_encoded (rq_RawPath r)
         \<and> url_PathUnescape (rq_RawPath r) = Inr (rq_Path r)
      then rq_RawPath r
      else if rq_Path r = ''*'' then ''*''
      else url_escape (rq_Path r))"

text \<open>
  The path and the raw path of a parsed reference: the raw path is kept only where it is not the
  default encoding.
\<close>

definition parse_path :: "string \<Rightarrow> gerr + (string \<times> string)" where
  "parse_path p =
     (case url_PathUnescape p of
        Inl err \<Rightarrow> Inl err
      | Inr path \<Rightarrow> Inr (path, if url_escape path = p then [] else p))"

lemma nibbles_less: "(of_char c :: nat) div 16 < 16" "(of_char c :: nat) mod 16 < 16"
proof -
  have "(of_char c :: nat) < 256" using of_nat_of_char [of c, where 'a=nat] nat_of_char_less_256 by simp
  then show "(of_char c :: nat) div 16 < 16" by (simp add: less_mult_imp_div_less)
qed simp

lemma hex_digit_char: "n < 16 \<Longrightarrow> hex_digit (hex_char n) = Some n"
  by (auto simp: hex_digit_def hex_char_def Let_def)

lemma url_PathUnescape_escape: "url_PathUnescape (url_escape s) = Inr s"
proof (induction s)
  case Nil
  then show ?case by (simp add: url_escape_def)
next
  case (Cons c s)
  have "hex_digit (hex_char (of_char c div 16)) = Some (of_char c div 16)"
    "hex_digit (hex_char (of_char c mod 16)) = Some (of_char c mod 16)"
    by (rule hex_digit_char [OF nibbles_less(1)], rule hex_digit_char [OF nibbles_less(2)])
  moreover have "c \<noteq> CHR ''%''" if "\<not> should_escape c"
    using that by (auto simp: should_escape_def is_alnum_def Let_def)
  ultimately show ?case
    using Cons.IH by (auto simp: url_escape_def escape_byte_def)
qed

lemma parse_path_escape: "parse_path (url_escape p) = Inr (p, [])"
  by (simp add: parse_path_def url_PathUnescape_escape)

lemma url_escape_simps [simp]:
  "url_escape [] = []" "url_escape (xs @ ys) = url_escape xs @ url_escape ys"
  "url_escape (CHR ''/'' # xs) = CHR ''/'' # url_escape xs"
  by (simp_all add: url_escape_def escape_byte_def should_escape_def)

lemma url_escape_eq_iff: "url_escape x = url_escape y \<longleftrightarrow> x = y"
  using url_PathUnescape_escape by (metis sum.inject(2))

lemma escape_byte_slash: "CHR ''/'' \<in> set (escape_byte c) \<longleftrightarrow> c = CHR ''/''"
proof -
  have "hex_digit (CHR ''/'') = None" by code_simp
  then have "CHR ''/'' \<noteq> hex_char n" if "n < 16" for n
    using hex_digit_char [OF that] by (metis option.distinct(1))
  note this [OF nibbles_less(1)] this [OF nibbles_less(2)]
  then show ?thesis by (auto simp: escape_byte_def should_escape_def)
qed

lemma url_escape_slash: "CHR ''/'' \<in> set (url_escape s) \<longleftrightarrow> CHR ''/'' \<in> set s"
  by (auto simp: url_escape_def escape_byte_slash)

section \<open>Cleaning\<close>

fun split_slash :: "string \<Rightarrow> string list" where
  "split_slash [] = [[]]"
| "split_slash (c # s) =
     (case split_slash s of
        [] \<Rightarrow> []
      | seg # segs \<Rightarrow> if c = CHR ''/'' then [] # seg # segs else (c # seg) # segs)"

definition clean_step :: "string list \<Rightarrow> string \<Rightarrow> string list" where
  "clean_step stack seg =
     (if seg = [] \<or> seg = ''.'' then stack else if seg = ''..'' then tl stack else seg # stack)"

text \<open>A path from its segments, with or without a trailing slash.\<close>

definition slash_path :: "string list \<Rightarrow> bool \<Rightarrow> string" where
  "slash_path segs trailing = concat (map ((#) (CHR ''/'')) segs) @ (if trailing then ''/'' else [])"

text \<open>\<open>path.Clean\<close> of a path that starts with a slash.\<close>

definition path_Clean :: "string \<Rightarrow> string" where
  "path_Clean p =
     (let segs = rev (foldl clean_step [] (split_slash p)) in slash_path segs (segs = []))"

definition cleanPath :: "string \<Rightarrow> string" where
  "cleanPath p =
     (if p = [] then ''/''
      else let p = (if hd p \<noteq> CHR ''/'' then CHR ''/'' # p else p);
               np = path_Clean p
           in if last p = CHR ''/'' \<and> np \<noteq> ''/'' then np @ ''/'' else np)"

definition good_seg :: "string \<Rightarrow> bool" where
  "good_seg s \<longleftrightarrow> s \<notin> {[], ''.'', ''..''} \<and> CHR ''/'' \<notin> set s"

lemma split_slash_not_Nil [simp]: "split_slash s \<noteq> []"
  by (induction s) (auto split: list.splits)

lemma split_slash_Slash [simp]: "split_slash (CHR ''/'' # s) = [] # split_slash s"
  by (auto split: list.splits)

lemma split_slash_prefix:
  "CHR ''/'' \<notin> set s \<Longrightarrow> split_slash (s @ t) = (s @ hd (split_slash t)) # tl (split_slash t)"
  by (induction s) (auto split: list.splits)

lemma split_slash_no_slash: "list_all (\<lambda>s. CHR ''/'' \<notin> set s) (split_slash p)"
  by (induction p) (auto split: list.splits)

lemma slash_path_simps [simp]:
  "slash_path [] True = ''/''" "slash_path [] False = []"
  "slash_path (s # segs) t = CHR ''/'' # s @ slash_path segs t"
  by (simp_all add: slash_path_def)

lemma split_slash_path:
  "list_all good_seg segs \<Longrightarrow> split_slash (slash_path segs t) = [] # segs @ (if t then [[]] else [])"
  by (induction segs) (auto simp: split_slash_prefix good_seg_def slash_path_def)

lemma clean_steps_good:
  "list_all good_seg stack \<Longrightarrow> list_all (\<lambda>s. CHR ''/'' \<notin> set s) segs \<Longrightarrow>
   list_all good_seg (foldl clean_step stack segs)"
proof (induction segs arbitrary: stack)
  case (Cons s segs)
  have "list_all good_seg (tl stack)" using Cons.prems(1) by (cases stack) auto
  with Cons.prems have "list_all good_seg (clean_step stack s)"
    by (simp add: clean_step_def good_seg_def [of s])
  with Cons show ?case by simp
qed simp

lemma clean_steps_id: "list_all good_seg segs \<Longrightarrow> foldl clean_step stack segs = rev segs @ stack"
  by (induction segs arbitrary: stack) (auto simp: clean_step_def good_seg_def)

lemma path_Clean_form:
  obtains segs where "list_all good_seg segs" and "path_Clean p = slash_path segs (segs = [])"
proof
  show "list_all good_seg (rev (foldl clean_step [] (split_slash p)))"
    using clean_steps_good [of "[]", OF _ split_slash_no_slash [of p]] by (simp add: list_all_iff)
qed (simp add: path_Clean_def Let_def)

lemma path_Clean_id: "list_all good_seg segs \<Longrightarrow> path_Clean (slash_path segs t) = slash_path segs (segs = [])"
  by (simp add: path_Clean_def split_slash_path Let_def clean_steps_id clean_step_def)

lemma slash_path_last:
  "list_all good_seg segs \<Longrightarrow> slash_path segs t \<noteq> [] \<Longrightarrow> last (slash_path segs t) = CHR ''/'' \<longleftrightarrow> t"
proof (induction segs)
  case (Cons s segs)
  then have s: "s \<noteq> []" "last s \<in> set s" "CHR ''/'' \<notin> set s" by (simp_all add: good_seg_def)
  then have "last s \<noteq> CHR ''/''" by metis
  with Cons s(1) show ?case by (cases "slash_path segs t = []") (auto simp: slash_path_def)
qed (cases t; simp)

lemma slash_path_root:
  "list_all good_seg segs \<Longrightarrow> slash_path segs (segs = []) \<noteq> ''/'' \<longleftrightarrow> segs \<noteq> []"
  by (cases segs) (auto simp: good_seg_def)

lemma cleanPath_rooted:
  assumes "p \<noteq> []" and "hd p = CHR ''/''" and "list_all good_seg segs"
    and "path_Clean p = slash_path segs (segs = [])"
  shows "cleanPath p = slash_path segs (last p = CHR ''/'' \<or> segs = [])"
proof -
  have "cleanPath p = (if last p = CHR ''/'' \<and> segs \<noteq> [] then path_Clean p @ ''/'' else path_Clean p)"
    using assms(1,2) slash_path_root [OF assms(3)] by (simp add: cleanPath_def Let_def assms(4))
  with assms(4) show ?thesis by (cases "segs = []") (simp_all add: slash_path_def)
qed

text \<open>What a cleaned path looks like, and that cleaning it again changes nothing.\<close>

lemma cleanPath_form:
  obtains segs t where "list_all good_seg segs" and "segs = [] \<longrightarrow> t" and "cleanPath p = slash_path segs t"
proof (cases "p = []")
  case True
  then show ?thesis using that [of "[]" True] by (simp add: cleanPath_def)
next
  case False
  define q where "q = (if hd p \<noteq> CHR ''/'' then CHR ''/'' # p else p)"
  have q: "q \<noteq> []" "hd q = CHR ''/''" using False by (auto simp: q_def)
  have "cleanPath p = cleanPath q" using False by (simp add: q_def cleanPath_def)
  moreover obtain segs where "list_all good_seg segs" "path_Clean q = slash_path segs (segs = [])"
    by (rule path_Clean_form)
  ultimately show ?thesis using that cleanPath_rooted [OF q] by metis
qed

lemma cleanPath_id:
  assumes "list_all good_seg segs" and "segs = [] \<longrightarrow> t"
  shows "cleanPath (slash_path segs t) = slash_path segs t"
proof -
  have p: "slash_path segs t \<noteq> []" "hd (slash_path segs t) = CHR ''/''"
    using assms(2) by (cases segs; simp)+
  have "t \<or> segs = [] \<longleftrightarrow> t" using assms(2) by blast
  with cleanPath_rooted [OF p assms(1) path_Clean_id [OF assms(1)]] slash_path_last [OF assms(1) p(1)]
  show ?thesis by simp
qed

lemma url_escape_path: "url_escape (slash_path segs t) = slash_path (map url_escape segs) t"
  by (induction segs) (auto simp: slash_path_def)

lemma good_seg_escape: "good_seg (url_escape s) = good_seg s"
proof -
  have "url_escape ''.'' = ''.''" "url_escape ''..'' = ''..''" by code_simp+
  then have "url_escape s \<in> {[], ''.'', ''..''} \<longleftrightarrow> s \<in> {[], ''.'', ''..''}"
    using url_escape_eq_iff [of s] by (metis insert_iff singletonD url_escape_simps(1))
  then show ?thesis by (simp add: good_seg_def url_escape_slash)
qed

lemma good_segs_escape: "list_all good_seg segs \<Longrightarrow> list_all good_seg (map url_escape segs)"
  by (simp add: list_all_iff good_seg_escape)

text \<open>Cleaning and escaping commute.\<close>

lemma split_slash_escape: "split_slash (url_escape p) = map url_escape (split_slash p)"
proof (induction p)
  case (Cons c p)
  obtain seg segs where p: "split_slash p = seg # segs" by (cases "split_slash p") auto
  show ?case
  proof (cases "c = CHR ''/''")
    case False
    then have "CHR ''/'' \<notin> set (escape_byte c)" by (simp add: escape_byte_slash)
    from split_slash_prefix [OF this, of "url_escape p"] False p Cons.IH
    show ?thesis by (simp add: url_escape_def)
  qed (use Cons.IH p in simp)
qed simp

lemma url_escape_special: "url_escape s \<in> {[], ''.'', ''..''} \<longleftrightarrow> s \<in> {[], ''.'', ''..''}"
  "url_escape s = [] \<longleftrightarrow> s = []" "url_escape s = ''.'' \<longleftrightarrow> s = ''.''" "url_escape s = ''..'' \<longleftrightarrow> s = ''..''"
proof -
  have "url_escape ''.'' = ''.''" "url_escape ''..'' = ''..''" by code_simp+
  then show "url_escape s = [] \<longleftrightarrow> s = []" "url_escape s = ''.'' \<longleftrightarrow> s = ''.''" "url_escape s = ''..'' \<longleftrightarrow> s = ''..''"
    using url_escape_eq_iff [of s] url_escape_simps(1) by metis+
  then show "url_escape s \<in> {[], ''.'', ''..''} \<longleftrightarrow> s \<in> {[], ''.'', ''..''}" by simp
qed

lemma clean_steps_escape:
  "foldl clean_step (map url_escape stack) (map url_escape segs) = map url_escape (foldl clean_step stack segs)"
proof (induction segs arbitrary: stack)
  case (Cons s segs)
  have "clean_step (map url_escape stack) (url_escape s) = map url_escape (clean_step stack s)"
    by (simp add: clean_step_def url_escape_special map_tl)
  with Cons.IH show ?case by simp
qed simp

lemma path_Clean_escape: "path_Clean (url_escape p) = url_escape (path_Clean p)"
  using clean_steps_escape [of "[]" "split_slash p"]
  by (simp add: path_Clean_def Let_def split_slash_escape url_escape_path rev_map)

lemma url_escape_ends:
  assumes "p \<noteq> []"
  shows "hd (url_escape p) = CHR ''/'' \<longleftrightarrow> hd p = CHR ''/''" "last (url_escape p) = CHR ''/'' \<longleftrightarrow> last p = CHR ''/''"
proof -
  have byte: "escape_byte c \<noteq> []" "CHR ''/'' \<in> set (escape_byte c) \<Longrightarrow> escape_byte c = ''/''" for c
    by (simp add: escape_byte_def, simp only: escape_byte_slash)
      (simp add: escape_byte_def should_escape_def)
  have ends: "hd (escape_byte c) = CHR ''/'' \<longleftrightarrow> c = CHR ''/''" "last (escape_byte c) = CHR ''/'' \<longleftrightarrow> c = CHR ''/''" for c
    using byte [of c] escape_byte_slash [of c] hd_in_set last_in_set by (metis list.sel(1) last.simps)+
  obtain q c where q: "p = q @ [c]" using assms by (cases p rule: rev_cases) auto
  then have "url_escape p = url_escape q @ escape_byte c" by (simp add: url_escape_def)
  with byte(1) [of c] have "last (url_escape p) = last (escape_byte c)" by simp
  with ends(2) q show "last (url_escape p) = CHR ''/'' \<longleftrightarrow> last p = CHR ''/''" by simp
  obtain d s where d: "p = d # s" using assms by (cases p) auto
  then have "url_escape p = escape_byte d @ url_escape s" by (simp add: url_escape_def)
  with byte(1) [of d] have "hd (url_escape p) = hd (escape_byte d)" by simp
  with ends(1) d show "hd (url_escape p) = CHR ''/'' \<longleftrightarrow> hd p = CHR ''/''" by simp
qed

lemma cleanPath_escape: "cleanPath (url_escape p) = url_escape (cleanPath p)"
proof (cases "p = []")
  case True
  have "url_escape ''/'' = ''/''" by simp
  with True show ?thesis by (simp add: cleanPath_def)
next
  case False
  define q where "q = (if hd p \<noteq> CHR ''/'' then CHR ''/'' # p else p)"
  have q: "q \<noteq> []" using False by (simp add: q_def)
  have eq: "url_escape q = (if hd (url_escape p) \<noteq> CHR ''/'' then CHR ''/'' # url_escape p else url_escape p)"
    using url_escape_ends(1) [OF False] by (simp add: q_def)
  have root: "url_escape (path_Clean q) = ''/'' \<longleftrightarrow> path_Clean q = ''/''"
    using url_escape_eq_iff [of "path_Clean q" "''/''"] by simp
  have "cleanPath p = (if last q = CHR ''/'' \<and> path_Clean q \<noteq> ''/'' then path_Clean q @ ''/'' else path_Clean q)"
    using False by (simp add: cleanPath_def q_def [symmetric] Let_def)
  moreover have "cleanPath (url_escape p) = (if last (url_escape q) = CHR ''/'' \<and> path_Clean (url_escape q) \<noteq> ''/''
      then path_Clean (url_escape q) @ ''/'' else path_Clean (url_escape q))"
    using False by (simp add: cleanPath_def eq [symmetric] Let_def url_escape_special)
  ultimately show ?thesis
    using url_escape_ends(2) [OF q] root by (simp add: path_Clean_escape)
qed

lemma slash_path_eq_iff:
  assumes "list_all good_seg segs" and "list_all good_seg segs'"
  shows "slash_path segs t = slash_path segs' t' \<longleftrightarrow> segs = segs' \<and> t = t'"
proof
  assume "slash_path segs t = slash_path segs' t'"
  then have split: "segs @ (if t then [[]] else []) = segs' @ (if t' then [[]] else [])"
    using split_slash_path [OF assms(1), of t] split_slash_path [OF assms(2), of t'] by simp
  have "[] \<notin> set segs" "[] \<notin> set segs'" using assms by (auto simp: list_all_iff good_seg_def)
  with split show "segs = segs' \<and> t = t'"
    by (cases t; cases t') (auto dest: arg_cong [where f = set])
qed simp

text \<open>Below a directory: the segments of a path that starts with those of another.\<close>

lemma slash_path_below:
  assumes "list_all good_seg segs" and "list_all good_seg ds"
  shows "(\<exists>x. slash_path segs t = slash_path ds True @ x) \<longleftrightarrow>
    take (length ds) segs = ds \<and> (t \<or> length ds < length segs)"
  using assms
proof (induction ds arbitrary: segs)
  case Nil
  then show ?case by (cases segs; cases t) auto
next
  case (Cons d ds)
  show ?case
  proof (cases segs)
    case Nil
    with Cons.prems show ?thesis by (cases t) (auto simp: good_seg_def)
  next
    case (Cons a as)
    have noslash: "CHR ''/'' \<notin> set a" "CHR ''/'' \<notin> set d"
      using Cons Cons.prems by (auto simp: good_seg_def)
    have path: "slash_path as t = [] \<or> hd (slash_path as t) = CHR ''/''" for as and t by (cases as; cases t) auto
    have split: "a @ slash_path as t = d @ slash_path ds True @ x \<longleftrightarrow> a = d \<and> slash_path as t = slash_path ds True @ x" for x
    proof
      assume eq: "a @ slash_path as t = d @ slash_path ds True @ x"
      have tw: "takeWhile (\<lambda>c. c \<noteq> CHR ''/'') (s @ y) = s"
        if "CHR ''/'' \<notin> set s" "y = [] \<or> hd y = CHR ''/''" for s y
      proof -
        have "takeWhile (\<lambda>c. c \<noteq> CHR ''/'') (s @ y) = s @ takeWhile (\<lambda>c. c \<noteq> CHR ''/'') y"
          using that(1) by (intro takeWhile_append2) auto
        with that(2) show ?thesis by (cases y) auto
      qed
      have "slash_path ds True @ x \<noteq> [] \<and> hd (slash_path ds True @ x) = CHR ''/''"
        using path [of ds True] by (cases "slash_path ds True") (auto simp: slash_path_def)
      with tw [OF noslash(1) path [of as t]] tw [OF noslash(2), of "slash_path ds True @ x"] eq
      have "a = d" by metis
      with eq show "a = d \<and> slash_path as t = slash_path ds True @ x" by simp
    qed simp
    have IH: "(\<exists>x. slash_path as t = slash_path ds True @ x) \<longleftrightarrow>
        take (length ds) as = ds \<and> (t \<or> length ds < length as)"
      using Cons.IH [of as] Cons Cons.prems by simp
    show ?thesis using IH by (auto simp: Cons split)
  qed
qed

end
