(* ===== verification/Server_Mux.thy ===== *)
theory Server_Mux
  imports Net_Url App_Config Api_Wiring
begin

text \<open>
  internal/server/server.go, the handler \<open>Run\<close> serves: the patterns it registers on a
  \<open>ServeMux\<close>, the mux's walk of its routing tree with the redirects of unclean paths, and
  the generated server behind it.
\<close>

section \<open>Patterns\<close>

datatype endpoint =
    ApiServer
  | MetricsHandler
  | PprofIndex
  | PprofCmdline
  | PprofProfile
  | PprofSymbol
  | PprofTrace

definition run_patterns :: "(string \<times> endpoint) list" where
  "run_patterns =
     [(''/'', ApiServer), (''/metrics'', MetricsHandler), (''/debug/pprof/'', PprofIndex),
      (''/debug/pprof/cmdline'', PprofCmdline), (''/debug/pprof/profile'', PprofProfile),
      (''/debug/pprof/symbol'', PprofSymbol), (''/debug/pprof/trace'', PprofTrace)]"

text \<open>\<open>Run\<close> registers every endpoint there is, each once.\<close>

instantiation endpoint :: enum
begin

definition enum_endpoint :: "endpoint list" where "enum_endpoint = map snd run_patterns"

definition enum_all_endpoint :: "(endpoint \<Rightarrow> bool) \<Rightarrow> bool" where
  "enum_all_endpoint P = list_all (P \<circ> snd) run_patterns"

definition enum_ex_endpoint :: "(endpoint \<Rightarrow> bool) \<Rightarrow> bool" where
  "enum_ex_endpoint P = list_ex (P \<circ> snd) run_patterns"

instance
proof
  show all: "(UNIV :: endpoint set) = set enum_class.enum"
    using endpoint.exhaust by (auto simp: enum_endpoint_def run_patterns_def)
  show "distinct (enum_class.enum :: endpoint list)"
    by (simp add: enum_endpoint_def run_patterns_def)
  show "enum_class.enum_all P = Ball UNIV P" "enum_class.enum_ex P = Bex UNIV P" for P :: "endpoint \<Rightarrow> bool"
    unfolding all unfolding enum_all_endpoint_def enum_ex_endpoint_def enum_endpoint_def
    by (auto simp: list_all_iff list_ex_iff)
qed

end

text \<open>
  A pattern without method, host or wildcard is its literal segments; one that ends in a slash
  also matches everything below.
\<close>

record mux_pattern =
  pt_lits :: "string list"
  pt_multi :: bool
  pt_endpoint :: endpoint

definition parse_pattern :: "string \<times> endpoint \<Rightarrow> mux_pattern" where
  "parse_pattern pe =
     (let segs = tl (split_slash (fst pe))
      in if last segs = [] then \<lparr>pt_lits = butlast segs, pt_multi = True, pt_endpoint = snd pe\<rparr>
         else \<lparr>pt_lits = segs, pt_multi = False, pt_endpoint = snd pe\<rparr>)"

section \<open>The routing tree\<close>

text \<open>A node is the patterns that reach it, each with the literals still to come.\<close>

type_synonym mux_node = "(string list \<times> mux_pattern) list"

definition run_tree :: mux_node where
  "run_tree = map (\<lambda>p. (pt_lits p, p)) (map parse_pattern run_patterns)"

definition unescape_seg :: "string \<Rightarrow> string" where
  "unescape_seg s = (case url_PathUnescape s of Inr u \<Rightarrow> u | Inl _ \<Rightarrow> s)"

definition first_segment :: "string \<Rightarrow> string \<times> string" where
  "first_segment path =
     (if path = ''/'' then (''/'', [])
      else (unescape_seg (takeWhile (\<lambda>c. c \<noteq> CHR ''/'') (tl path)),
            dropWhile (\<lambda>c. c \<noteq> CHR ''/'') (tl path)))"

definition mux_child :: "string \<Rightarrow> mux_node \<Rightarrow> mux_node" where
  "mux_child seg n = map (\<lambda>(ls, p). (tl ls, p)) (filter (\<lambda>(ls, p). ls \<noteq> [] \<and> hd ls = seg) n)"

definition mux_leaf :: "bool \<Rightarrow> mux_node \<Rightarrow> mux_pattern option" where
  "mux_leaf multi n = map_option snd (List.find (\<lambda>(ls, p). ls = [] \<and> pt_multi p = multi) n)"

lemma first_segment_shorter: "path \<noteq> [] \<Longrightarrow> length (snd (first_segment path)) < length path"
  using length_dropWhile_le [of "\<lambda>c. c \<noteq> CHR ''/''" "tl path"]
  by (cases path) (auto simp: first_segment_def le_less_trans less_Suc_eq_le)

text \<open>\<open>matchPath\<close>: a literal child first, then the pattern that takes the rest.\<close>

function match_path :: "mux_node \<Rightarrow> string \<Rightarrow> mux_pattern option" where
  "match_path n path =
     (if path = [] then mux_leaf False n
      else case match_path (mux_child (fst (first_segment path)) n) (snd (first_segment path)) of
             Some p \<Rightarrow> Some p
           | None \<Rightarrow> mux_leaf True n)"
  by auto
termination
  by (relation "measure (\<lambda>(n, path). length path)") (auto simp: first_segment_shorter)

declare match_path.simps [simp del]

text \<open>\<open>exactMatch\<close>: a pattern that takes the rest matches exactly where the rest is empty.\<close>

definition exact_match :: "mux_pattern option \<Rightarrow> string \<Rightarrow> bool" where
  "exact_match n path =
     (case n of
        None \<Rightarrow> False
      | Some p \<Rightarrow>
          if \<not> pt_multi p then True
          else if path \<noteq> [] \<and> last path \<noteq> CHR ''/'' then False
          else length (pt_lits p) + 1 = length (filter (\<lambda>c. c = CHR ''/'') path))"

definition slash_redirect :: "string \<Rightarrow> string \<Rightarrow> string option" where
  "slash_redirect path urlPath =
     (if \<not> exact_match (match_path run_tree path) path \<and> path \<noteq> [] \<and> last path \<noteq> CHR ''/''
         \<and> exact_match (match_path run_tree (path @ ''/'')) (path @ ''/'')
      then Some (cleanPath urlPath @ ''/'') else None)"

text \<open>
  What the mux answers a request with. A redirect carries the query of the request unchanged; its
  location is the escaped target, which \<open>http.Redirect\<close> cleans once more. The target
  \<open>*\<close> is a bad request.
\<close>

datatype mux_result = Served endpoint | Redirected string | NoPattern | BadTarget

definition redirect_location :: "string \<Rightarrow> string" where
  "redirect_location path = cleanPath (url_escape path)"

definition mux_find :: "http_request \<Rightarrow> mux_result" where
  "mux_find r =
     (if rq_Path r = ''*'' then BadTarget
      else
        let path = (if rq_Method r = ''CONNECT'' then EscapedPath r else cleanPath (EscapedPath r))
        in case slash_redirect path (rq_Path r) of
             Some u \<Rightarrow> Redirected (redirect_location u)
           | None \<Rightarrow>
               if path \<noteq> EscapedPath r then Redirected (redirect_location path)
               else (case match_path run_tree path of
                       None \<Rightarrow> NoPattern
                     | Some p \<Rightarrow> Served (pt_endpoint p)))"

section \<open>The root handler\<close>

type_synonym ('c, 's) http_handler = "'c \<Rightarrow> http_request \<Rightarrow> 's exchange \<Rightarrow> 's exchange"

text \<open>The third-party handlers, and \<open>http.Redirect\<close>.\<close>

record ('c, 's) root_env =
  re_otelhttp :: "string \<Rightarrow> (string \<Rightarrow> http_request \<Rightarrow> string) \<Rightarrow> ('c, 's) http_handler \<Rightarrow> ('c, 's) http_handler"
  re_handler :: "endpoint \<Rightarrow> ('c, 's) http_handler"
  re_redirect :: "string \<Rightarrow> ('c, 's) http_handler"

definition span_name :: "string \<Rightarrow> http_request \<Rightarrow> string" where
  "span_name op r = rq_Method r @ '' '' @ rq_Path r"

definition root_handler ::
  "('c, 's) root_env \<Rightarrow> lib \<Rightarrow> ('c, 's) server \<Rightarrow> ('c, 's) http_handler" where
  "root_handler E L oasSrv ctx r =
     (case mux_find r of
        Served ApiServer \<Rightarrow> re_otelhttp E ''flowhand.http'' span_name (ServeHTTP L oasSrv) ctx r
      | Served e \<Rightarrow> re_handler E e ctx r
      | Redirected u \<Rightarrow> re_redirect E u ctx r
      | NoPattern \<Rightarrow> on_rw (http_NotFound r)
      | BadTarget \<Rightarrow> on_rw (rw_WriteHeader 400))"

record net_server =
  ns_Addr :: string
  ns_ReadHeaderTimeout :: duration
  ns_IdleTimeout :: duration

definition run_net_server :: "config \<Rightarrow> net_server" where
  "run_net_server cfg =
     \<lparr>ns_Addr = hc_Addr (cf_HTTP cfg), ns_ReadHeaderTimeout = 10 * 1000000000,
      ns_IdleTimeout = 60 * 1000000000\<rparr>"

section \<open>The tree over segments\<close>

fun match_segs :: "mux_node \<Rightarrow> string list \<Rightarrow> bool \<Rightarrow> mux_pattern option" where
  "match_segs n [] trailing = mux_leaf trailing n"
| "match_segs n (seg # segs) trailing =
     (case match_segs (mux_child seg n) segs trailing of
        Some p \<Rightarrow> Some p | None \<Rightarrow> mux_leaf True n)"

lemma mux_leaf_Nil [simp]: "mux_leaf multi [] = None"
  by (simp add: mux_leaf_def)

lemma mux_child_Nil [simp]: "mux_child seg [] = []"
  by (simp add: mux_child_def)

lemma match_path_empty [simp]: "match_path n [] = mux_leaf False n"
  by (simp add: match_path.simps)

lemma first_segment_path:
  assumes "good_seg s"
  shows "first_segment (slash_path (s # segs) t) = (unescape_seg s, slash_path segs t)"
proof -
  have s: "s \<noteq> []" "\<forall>c\<in>set s. c \<noteq> CHR ''/''" using assms by (auto simp: good_seg_def)
  have "slash_path segs t = [] \<or> hd (slash_path segs t) = CHR ''/''" by (cases segs; cases t) auto
  then have "takeWhile (\<lambda>c. c \<noteq> CHR ''/'') (s @ slash_path segs t) = s"
    "dropWhile (\<lambda>c. c \<noteq> CHR ''/'') (s @ slash_path segs t) = slash_path segs t"
    using s(2) by (cases "slash_path segs t"; simp)+
  with s(1) show ?thesis by (simp add: first_segment_def)
qed

lemma mux_child_slash:
  assumes "list_all (\<lambda>(ls, p). ''/'' \<notin> set ls) n"
  shows "mux_child ''/'' n = []" "list_all (\<lambda>(ls, p). ''/'' \<notin> set ls) (mux_child seg n)"
proof -
  have "\<not> (ls \<noteq> [] \<and> hd ls = ''/'')" if "(ls, p) \<in> set n" for ls p
    using assms that by (cases ls) (auto simp: list_all_iff)
  then show "mux_child ''/'' n = []" by (auto simp: mux_child_def filter_empty_conv)
  have "''/'' \<notin> set (tl ls)" if "(ls, p) \<in> set n" for ls p
    using assms that by (cases ls) (auto simp: list_all_iff)
  then show "list_all (\<lambda>(ls, p). ''/'' \<notin> set ls) (mux_child seg n)"
    by (auto simp: mux_child_def list_all_iff)
qed

lemma match_path_segs:
  assumes "list_all good_seg segs" and "list_all (\<lambda>(ls, p). ''/'' \<notin> set ls) n"
  shows "match_path n (slash_path segs t) = match_segs n (map unescape_seg segs) t"
  using assms
proof (induction segs arbitrary: n)
  case Nil
  show ?case
  proof (cases t)
    case True
    then show ?thesis
      by (simp add: match_path.simps [of n "''/''"] first_segment_def mux_child_slash(1) [OF Nil.prems(2)])
  qed simp
next
  case (Cons s segs)
  have first: "first_segment (slash_path (s # segs) t) = (unescape_seg s, slash_path segs t)"
    by (rule first_segment_path) (use Cons.prems(1) in simp)
  have "match_path (mux_child (unescape_seg s) n) (slash_path segs t) =
      match_segs (mux_child (unescape_seg s) n) (map unescape_seg segs) t"
    by (rule Cons.IH) (use Cons.prems mux_child_slash(2) in auto)
  then show ?case
    by (subst match_path.simps) (simp add: first [simplified])
qed

section \<open>What the tree of Run answers\<close>

text \<open>The endpoint of a path by its segments: everything that is not taken is the API's.\<close>

definition pprof_names :: "(string \<times> endpoint) list" where
  "pprof_names =
     [(''cmdline'', PprofCmdline), (''profile'', PprofProfile), (''symbol'', PprofSymbol),
      (''trace'', PprofTrace)]"

definition mux_endpoint :: "string list \<Rightarrow> bool \<Rightarrow> endpoint" where
  "mux_endpoint segs trailing =
     (case (segs, trailing) of
        ([a], False) \<Rightarrow> if a = ''metrics'' then MetricsHandler else ApiServer
      | ([a, b], True) \<Rightarrow> if a = ''debug'' \<and> b = ''pprof'' then PprofIndex else ApiServer
      | (a # b # c # rest, _) \<Rightarrow>
          if a = ''debug'' \<and> b = ''pprof'' then
            (case map_of pprof_names c of
               Some e \<Rightarrow> if rest = [] \<and> \<not> trailing then e else PprofIndex
             | None \<Rightarrow> PprofIndex)
          else ApiServer
      | _ \<Rightarrow> ApiServer)"

definition api_pattern :: mux_pattern where
  "api_pattern = \<lparr>pt_lits = [], pt_multi = True, pt_endpoint = ApiServer\<rparr>"

definition index_pattern :: mux_pattern where
  "index_pattern = \<lparr>pt_lits = [''debug'', ''pprof''], pt_multi = True, pt_endpoint = PprofIndex\<rparr>"

definition exact_pattern :: "string list \<Rightarrow> endpoint \<Rightarrow> mux_pattern" where
  "exact_pattern ls e = \<lparr>pt_lits = ls, pt_multi = False, pt_endpoint = e\<rparr>"

lemmas pattern_defs = api_pattern_def index_pattern_def exact_pattern_def

lemma pattern_simps:
  "pt_endpoint api_pattern = ApiServer" "pt_multi api_pattern"
  "pt_endpoint index_pattern = PprofIndex" "pt_multi index_pattern"
  "pt_endpoint (exact_pattern ls e) = e" "\<not> pt_multi (exact_pattern ls e)"
  by (simp_all add: pattern_defs)

definition pprof_node :: mux_node where
  "pprof_node =
     ([], index_pattern) #
     map (\<lambda>(c, e). ([c], exact_pattern [''debug'', ''pprof'', c] e)) pprof_names"

lemma run_tree_nodes:
  "mux_child a run_tree =
     (if a = ''metrics'' then [([], exact_pattern [''metrics''] MetricsHandler)]
      else if a = ''debug'' then map (\<lambda>(ls, p). (''pprof'' # ls, p)) pprof_node
      else [])"
  "mux_leaf True run_tree = Some api_pattern" "mux_leaf False run_tree = None"
  "list_all (\<lambda>(ls, p). ''/'' \<notin> set ls) run_tree"
  by (auto simp: run_tree_def run_patterns_def parse_pattern_def mux_child_def mux_leaf_def
      pprof_node_def pprof_names_def pattern_defs Let_def)

lemma pprof_node_child:
  "mux_child b (map (\<lambda>(ls, p). (''pprof'' # ls, p)) pprof_node) =
     (if b = ''pprof'' then pprof_node else [])"
  "mux_leaf m (map (\<lambda>(ls, p). (''pprof'' # ls, p)) pprof_node) = None"
  "mux_child b [([], p)] = []"
  "mux_leaf True pprof_node = Some index_pattern" "mux_leaf False pprof_node = None"
  "mux_child c pprof_node =
     (case map_of pprof_names c of
        Some e \<Rightarrow> [([], exact_pattern [''debug'', ''pprof'', c] e)] | None \<Rightarrow> [])"
  by (auto simp: pprof_node_def pprof_names_def mux_child_def mux_leaf_def pattern_defs)

lemma match_segs_Nil [simp]: "match_segs [] segs t = None"
  by (induction segs) auto

lemma mux_leaf_exact:
  "mux_leaf m [([], exact_pattern ls e)] = (if m then None else Some (exact_pattern ls e))"
  by (simp add: mux_leaf_def exact_pattern_def)

lemma match_segs_exact:
  "match_segs [([], exact_pattern ls e)] segs t = (if segs = [] \<and> \<not> t then Some (exact_pattern ls e) else None)"
  by (cases segs; cases t) (simp_all add: pprof_node_child mux_leaf_def exact_pattern_def)

lemma match_run:
  assumes "segs = [] \<longrightarrow> t"
  shows "\<exists>p. match_segs run_tree segs t = Some p \<and> pt_endpoint p = mux_endpoint segs t
    \<and> (pt_endpoint p = PprofIndex \<longrightarrow> p = index_pattern) \<and> (pt_endpoint p = ApiServer \<longrightarrow> p = api_pattern)
    \<and> (pt_multi p \<longrightarrow> pt_endpoint p \<in> {ApiServer, PprofIndex})"
proof -
  consider "segs = []" | a where "segs = [a]" | a b where "segs = [a, b]"
    | a b c rest where "segs = a # b # c # rest"
    by (metis list.exhaust)
  then show ?thesis
  proof cases
    case 1
    with assms show ?thesis by (simp add: run_tree_nodes mux_endpoint_def api_pattern_def)
  next
    case (2 a)
    then show ?thesis
      by (cases t) (auto simp: run_tree_nodes match_segs_exact pprof_node_child mux_endpoint_def pattern_simps mux_leaf_exact)
  next
    case (3 a b)
    then show ?thesis
      by (cases t) (auto simp: run_tree_nodes match_segs_exact pprof_node_child mux_endpoint_def pattern_simps mux_leaf_exact)
  next
    case (4 a b c rest)
    then show ?thesis
      by (auto simp: run_tree_nodes match_segs_exact pprof_node_child mux_endpoint_def pattern_simps mux_leaf_exact
        pprof_names_def split: option.split)
  qed
qed

lemma mux_endpoint_trailing: "mux_endpoint segs True \<in> {ApiServer, PprofIndex}"
  by (auto simp: mux_endpoint_def split: list.splits option.splits)

lemma mux_endpoint_two: "mux_endpoint [a, b] True = (if a = ''debug'' \<and> b = ''pprof'' then PprofIndex else ApiServer)"
  by (simp add: mux_endpoint_def)

lemma slash_path_count:
  "list_all good_seg segs \<Longrightarrow>
   length (filter (\<lambda>c. c = CHR ''/'') (slash_path segs t)) = length segs + (if t then 1 else 0)"
proof (induction segs)
  case (Cons s segs)
  then have "filter (\<lambda>c. c = CHR ''/'') s = []" by (auto simp: good_seg_def filter_empty_conv)
  with Cons show ?case by simp
qed (cases t; simp)

text \<open>Of clean paths only one is redirected: the directory of the profiles without its slash.\<close>

lemma slash_redirect_path:
  assumes good: "list_all good_seg segs" and nonempty: "segs = [] \<longrightarrow> t"
  shows "slash_redirect (slash_path segs t) u =
    (if \<not> t \<and> map unescape_seg segs = [''debug'', ''pprof''] then Some (cleanPath u @ ''/'') else None)"
proof (cases t)
  case True
  then have "last (slash_path segs t) = CHR ''/''" by (simp add: slash_path_def)
  with True show ?thesis by (simp add: slash_redirect_def)
next
  case False
  let ?us = "map unescape_seg segs"
  have path: "slash_path segs False \<noteq> []" "last (slash_path segs False) \<noteq> CHR ''/''"
    using nonempty False slash_path_last [OF good, of False] by (cases segs; simp)+
  have ext: "slash_path segs False @ ''/'' = slash_path segs True" by (simp add: slash_path_def)
  have walk: "match_path run_tree (slash_path segs b) = match_segs run_tree ?us b" for b
    by (rule match_path_segs [OF good run_tree_nodes(4)])
  obtain p where p: "match_segs run_tree ?us False = Some p" "pt_endpoint p = mux_endpoint ?us False"
    "pt_endpoint p = ApiServer \<longrightarrow> p = api_pattern"
    using match_run [of ?us False] nonempty False by auto
  obtain q where q: "match_segs run_tree ?us True = Some q" "pt_endpoint q = mux_endpoint ?us True"
    "pt_endpoint q = PprofIndex \<longrightarrow> q = index_pattern" "pt_endpoint q = ApiServer \<longrightarrow> q = api_pattern"
    using match_run [of ?us True] by auto
  have last_slash: "last (slash_path segs True) = CHR ''/''" by (simp add: slash_path_def)
  have exact: "exact_match (Some q) (slash_path segs True) \<longleftrightarrow> ?us = [''debug'', ''pprof'']"
  proof (cases "mux_endpoint ?us True = ApiServer")
    case True
    then have "q = api_pattern" using q by simp
    moreover have "length segs \<noteq> 0" using nonempty False by auto
    moreover have "?us \<noteq> [''debug'', ''pprof'']" using True by (auto simp: mux_endpoint_def)
    ultimately show ?thesis
      by (simp add: exact_match_def slash_path_count [OF good] pattern_simps) (simp add: api_pattern_def)
  next
    case idx: False
    then have "q = index_pattern" using q mux_endpoint_trailing [of ?us] by auto
    moreover have "length segs = 2 \<longleftrightarrow> ?us = [''debug'', ''pprof'']"
    proof
      assume "length segs = 2"
      then obtain a b where "segs = [a, b]" by (auto simp: length_Suc_conv numeral_2_eq_2)
      with idx show "?us = [''debug'', ''pprof'']" by (auto simp: mux_endpoint_two split: if_splits)
    qed (auto dest: map_eq_imp_length_eq [of _ segs id, simplified] arg_cong [of _ _ length])
    ultimately show ?thesis
      by (simp add: exact_match_def slash_path_count [OF good] pattern_simps last_slash)
        (simp add: index_pattern_def eval_nat_numeral eq_commute)
  qed
  have "\<not> exact_match (Some p) (slash_path segs False)" if us: "?us = [''debug'', ''pprof'']"
  proof -
    have "p = api_pattern" using p us by (simp add: mux_endpoint_def)
    then show ?thesis using path by (simp add: exact_match_def pattern_simps)
  qed
  with exact show ?thesis
    using path by (auto simp: slash_redirect_def False walk ext p(1) q(1))
qed

lemma mux_find_clean:
  assumes "list_all good_seg segs" and "segs = [] \<longrightarrow> t" and "EscapedPath r = slash_path segs t"
    and "rq_Method r \<noteq> ''CONNECT''" and "rq_Path r \<noteq> ''*''"
  shows "mux_find r =
    (if \<not> t \<and> map unescape_seg segs = [''debug'', ''pprof'']
     then Redirected (redirect_location (cleanPath (rq_Path r) @ ''/''))
     else Served (mux_endpoint (map unescape_seg segs) t))"
proof -
  obtain p where p: "match_path run_tree (slash_path segs t) = Some p"
    "pt_endpoint p = mux_endpoint (map unescape_seg segs) t"
    using match_path_segs [OF assms(1) run_tree_nodes(4), of t] match_run [of "map unescape_seg segs" t] assms(2)
    by auto
  have "mux_find r = (case slash_redirect (slash_path segs t) (rq_Path r) of
      Some u \<Rightarrow> Redirected (redirect_location u) | None \<Rightarrow> Served (pt_endpoint p))"
    using assms(4,5) by (simp add: mux_find_def assms(3) cleanPath_id [OF assms(1,2)] p(1) Let_def split: option.split)
  then show ?thesis
    by (simp add: slash_redirect_path [OF assms(1,2)] p(2))
qed

lemma unescape_seg_escape [simp]: "unescape_seg (url_escape s) = s"
  by (simp add: unescape_seg_def url_PathUnescape_escape)

lemma EscapedPath_plain:
  "rq_RawPath r = [] \<Longrightarrow> rq_Path r = slash_path segs t \<Longrightarrow> segs = [] \<longrightarrow> t \<Longrightarrow>
   EscapedPath r = slash_path (map url_escape segs) t \<and> rq_Path r \<noteq> ''*''"
  by (cases segs) (auto simp: EscapedPath_def url_escape_path)

lemma mux_find_plain:
  assumes "list_all good_seg segs" and "segs = [] \<longrightarrow> t" and "rq_RawPath r = []"
    and "rq_Path r = slash_path segs t" and "rq_Method r \<noteq> ''CONNECT''"
  shows "mux_find r =
    (if \<not> t \<and> segs = [''debug'', ''pprof''] then Redirected (redirect_location ''/debug/pprof/'')
     else Served (mux_endpoint segs t))"
proof -
  have e: "EscapedPath r = slash_path (map url_escape segs) t" "rq_Path r \<noteq> ''*''"
    using EscapedPath_plain [OF assms(3,4,2)] by simp_all
  have "map (unescape_seg \<circ> url_escape) segs = segs" by (induction segs) auto
  moreover have "cleanPath ''/debug/pprof'' = ''/debug/pprof''" by code_simp
  ultimately show ?thesis
    using mux_find_clean [OF good_segs_escape [OF assms(1)] _ e(1) assms(5) e(2)] assms(2,4) by auto
qed



section \<open>The endpoints of Run\<close>


section \<open>The API through the mux\<close>

lemma good_seg_v1: "good_seg ''v1''" "good_seg ''tasks''"
  by (simp_all add: good_seg_def)

lemma demo_cleaned:
  "cleanPath ''/v1/tasks/.'' = ''/v1/tasks''" "cleanPath ''/v1/tasks/..'' = ''/v1''"
  "url_escape ''/v1/tasks/.'' = ''/v1/tasks/.''" "url_escape ''/v1/tasks/..'' = ''/v1/tasks/..''"
  "url_escape ''/v1/tasks'' = ''/v1/tasks''" "url_escape ''/v1'' = ''/v1''"
  "cleanPath ''/v1/tasks'' = ''/v1/tasks''" "cleanPath ''/v1'' = ''/v1''"
  by code_simp+

lemma mux_find_unclean:
  assumes "rq_RawPath r = []" and "rq_Method r \<noteq> ''CONNECT''" and "rq_Path r = q" and "q \<noteq> ''*''"
    and "url_escape q = q" and "cleanPath q = p" and "p \<noteq> q" and "slash_redirect p q = None"
    and "url_escape p = p" and "cleanPath p = p"
  shows "mux_find r = Redirected p"
  using assms by (simp add: mux_find_def EscapedPath_def redirect_location_def Let_def)

lemma mux_find_dots:
  assumes "rq_RawPath r = []" and "rq_Method r \<noteq> ''CONNECT''"
  shows "rq_Path r = ''/v1/tasks/.'' \<Longrightarrow> mux_find r = Redirected ''/v1/tasks''"
    "rq_Path r = ''/v1/tasks/..'' \<Longrightarrow> mux_find r = Redirected ''/v1''"
proof -
  have "unescape_seg ''v1'' = ''v1''" by code_simp
  then have "slash_redirect (slash_path [''v1'', ''tasks''] False) u = None"
    "slash_redirect (slash_path [''v1''] False) u = None" for u
    by (subst slash_redirect_path; simp add: good_seg_v1)+
  then have none: "slash_redirect ''/v1/tasks'' u = None" "slash_redirect ''/v1'' u = None" for u
    by simp_all
  show "mux_find r = Redirected ''/v1/tasks''" if "rq_Path r = ''/v1/tasks/.''"
    by (rule mux_find_unclean [OF assms that _ demo_cleaned(3,1) _ none(1) demo_cleaned(5,7)]) simp_all
  show "mux_find r = Redirected ''/v1''" if "rq_Path r = ''/v1/tasks/..''"
    by (rule mux_find_unclean [OF assms that _ demo_cleaned(4,2) _ none(2) demo_cleaned(6,8)]) simp_all
qed

lemma mux_finds_contract:
  assumes "rq_RawPath r = []" and "rq_Method r \<noteq> ''CONNECT''" and "serve_route L [] r \<noteq> CallNotFound"
  shows "rq_Path r \<in> {''/v1/tasks/.'', ''/v1/tasks/..''} \<or> mux_find r = Served ApiServer"
proof -
  have path: "routed_path L r = rq_Path r" using assms(1) by (simp add: routed_path_def serve_elem_def)
  have plain: "mux_find r = Served ApiServer"
    if "rq_Path r = slash_path segs t" "list_all good_seg segs" "hd segs = ''v1''" "segs \<noteq> []" for segs t
    using mux_find_plain [OF that(2) _ assms(1) that(1) assms(2)] that(3,4)
    by (cases segs; cases t) (auto simp: mux_endpoint_def split: list.splits)
  consider "rq_Path r = ''/v1/tasks''" | a where "rq_Path r = ''/v1/tasks/'' @ a" "CHR ''/'' \<notin> set a"
    using assms(3) path target_of_iff(3) [of "[]" "rq_Path r"]
    by (auto simp: serve_route_spec spec_call_def)
  then show ?thesis
  proof cases
    case 1
    with plain [of "[''v1'', ''tasks'']" False] show ?thesis by (simp add: good_seg_v1)
  next
    case (2 a)
    then consider "a = []" | "a \<in> {''.'', ''..''}" | "good_seg a" by (auto simp: good_seg_def)
    then show ?thesis
    proof cases
      case 1
      with 2 plain [of "[''v1'', ''tasks'']" True] show ?thesis by (simp add: good_seg_v1)
    next
      case 2
      with \<open>rq_Path r = ''/v1/tasks/'' @ a\<close> show ?thesis by auto
    next
      case 3
      with 2 plain [of "[''v1'', ''tasks'', a]" False] show ?thesis by (simp add: good_seg_v1)
    qed
  qed
qed

lemma unescape_seg_v1 [simp]: "unescape_seg ''v1'' = ''v1''"
  by code_simp

text \<open>
  C31. Through the mux of \<open>Run\<close>, for every method but \<open>CONNECT\<close>: a request whose path
  is one of the contract's, in its default encoding, reaches the generated server, behind the
  instrumentation alone; the two exceptions are the ids \<open>.\<close> and \<open>..\<close>, which the mux
  cleans away before the server could refuse them. A path in another encoding reaches it whenever
  its escaped form lies below \<open>/v1/\<close> and is clean; so the two ids do, written
  \<open>%2e\<close> and \<open>%2e%2e\<close>.
\<close>

theorem mux_passes_contract:
  assumes "rq_Method r \<noteq> ''CONNECT''"
  shows "(rq_RawPath r = [] \<and> serve_route L [] r \<noteq> CallNotFound \<longrightarrow>
      (if rq_Path r = ''/v1/tasks/.'' then root_handler E L srv ctx r = re_redirect E ''/v1/tasks'' ctx r
       else if rq_Path r = ''/v1/tasks/..'' then root_handler E L srv ctx r = re_redirect E ''/v1'' ctx r
       else root_handler E L srv ctx r
         = re_otelhttp E ''flowhand.http'' span_name (ServeHTTP L srv) ctx r))
    \<and> (prefix ''/v1/'' (EscapedPath r) \<and> cleanPath (EscapedPath r) = EscapedPath r \<longrightarrow>
      root_handler E L srv ctx r
        = re_otelhttp E ''flowhand.http'' span_name (ServeHTTP L srv) ctx r)"
proof (intro conjI impI)
  assume r: "rq_RawPath r = [] \<and> serve_route L [] r \<noteq> CallNotFound"
  show "if rq_Path r = ''/v1/tasks/.'' then root_handler E L srv ctx r = re_redirect E ''/v1/tasks'' ctx r
       else if rq_Path r = ''/v1/tasks/..'' then root_handler E L srv ctx r = re_redirect E ''/v1'' ctx r
       else root_handler E L srv ctx r
         = re_otelhttp E ''flowhand.http'' span_name (ServeHTTP L srv) ctx r"
    using mux_finds_contract [OF conjunct1 [OF r] assms conjunct2 [OF r]]
      mux_find_dots [OF conjunct1 [OF r] assms]
    by (auto simp: root_handler_def)
next
  assume v1: "prefix ''/v1/'' (EscapedPath r) \<and> cleanPath (EscapedPath r) = EscapedPath r"
  obtain segs t where clean: "list_all good_seg segs" "segs = [] \<longrightarrow> t" "EscapedPath r = slash_path segs t"
    using cleanPath_form [of "EscapedPath r"] v1 by metis
  have "take 1 segs = [''v1'']"
    using slash_path_below [OF clean(1), of "[''v1'']" t] v1 clean(3) by (auto simp: prefix_def good_seg_def)
  then obtain rest where segs: "segs = ''v1'' # rest" by (cases segs) auto
  have "url_PathUnescape (''/v1/'' @ z) \<noteq> Inr ''*''" for z
    by (cases "url_PathUnescape z") simp_all
  then have "rq_Path r \<noteq> ''*''"
    using v1 by (auto simp: EscapedPath_def prefix_def simp del: url_PathUnescape.simps split: if_splits)
  from mux_find_clean [OF clean assms this] segs
  show "root_handler E L srv ctx r
      = re_otelhttp E ''flowhand.http'' span_name (ServeHTTP L srv) ctx r"
    by (cases rest; cases "tl rest"; cases t) (simp_all add: root_handler_def mux_endpoint_def split: list.splits)
qed

definition demo_root :: "(unit, unit) root_env" where
  "demo_root =
     \<lparr>re_otelhttp = (\<lambda>op f h ctx r ex. h ctx r ex), re_handler = (\<lambda>e ctx r. on_rw (rw_WriteHeader 200)),
      re_redirect = (\<lambda>u ctx r. on_rw (\<lambda>w. rw_WriteHeader 301 (header_Set ''Location'' u w)))\<rparr>"

lemma demo_http_simps [simp]:
  "rq_Method (demo_http m p) = m" "rq_Path (demo_http m p) = p" "rq_RawPath (demo_http m p) = []"
  by (simp_all add: demo_http_def)

theorem mux_passes_contract_witness:
  "root_handler demo_root (demo_lib demo_jx) (demo_srv demo_backend) () (demo_http ''GET'' ''/v1/tasks/xx'')
     = ServeHTTP (demo_lib demo_jx) (demo_srv demo_backend) () (demo_http ''GET'' ''/v1/tasks/xx'')
   \<and> root_handler demo_root (demo_lib demo_jx) (demo_srv demo_backend) ()
       ((demo_http ''GET'' ''/v1/tasks/..'')\<lparr>rq_RawPath := ''/v1/tasks/%2e%2e''\<rparr>)
     = ServeHTTP (demo_lib demo_jx) (demo_srv demo_backend) ()
         ((demo_http ''GET'' ''/v1/tasks/..'')\<lparr>rq_RawPath := ''/v1/tasks/%2e%2e''\<rparr>)"
proof
  let ?r = "(demo_http ''GET'' ''/v1/tasks/..'')\<lparr>rq_RawPath := ''/v1/tasks/%2e%2e''\<rparr>"
  have raw: "EscapedPath ?r = ''/v1/tasks/%2e%2e''" "cleanPath ''/v1/tasks/%2e%2e'' = ''/v1/tasks/%2e%2e''"
    by code_simp+
  show "root_handler demo_root (demo_lib demo_jx) (demo_srv demo_backend) () ?r
      = ServeHTTP (demo_lib demo_jx) (demo_srv demo_backend) () ?r"
    using mux_passes_contract [of ?r "demo_lib demo_jx" demo_root "demo_srv demo_backend" "()"]
    unfolding raw by (simp add: raw(2)) (simp add: demo_root_def)
  show "root_handler demo_root (demo_lib demo_jx) (demo_srv demo_backend) () (demo_http ''GET'' ''/v1/tasks/xx'')
     = ServeHTTP (demo_lib demo_jx) (demo_srv demo_backend) () (demo_http ''GET'' ''/v1/tasks/xx'')"
    using mux_passes_contract [of "demo_http ''GET'' ''/v1/tasks/xx''" "demo_lib demo_jx" demo_root
        "demo_srv demo_backend" "()"]
    by (simp add: demo_routes) (simp add: demo_root_def)
qed


section \<open>Redirects end\<close>

lemma split_slash_append_slash: "split_slash (p @ ''/'') = split_slash p @ [[]]"
  by (induction p) (auto split: list.splits)

lemma cleanPath_slash:
  assumes "list_all good_seg segs"
  shows "cleanPath (slash_path segs t @ ''/'') = slash_path segs True"
proof -
  let ?p = "slash_path segs t @ ''/''"
  have "path_Clean ?p = slash_path segs (segs = [])"
    by (simp add: path_Clean_def split_slash_append_slash split_slash_path [OF assms] Let_def
        clean_steps_id [OF assms] clean_step_def)
  moreover have "?p \<noteq> []" "hd ?p = CHR ''/''" by (cases segs; cases t; simp)+
  ultimately show ?thesis using cleanPath_rooted [OF _ _ assms] by simp
qed

text \<open>A redirect goes to the escaped form of a clean path, below which nothing is redirected.\<close>

lemma redirect_target:
  assumes "mux_find r = Redirected u" and "rq_Method r \<noteq> ''CONNECT''"
  obtains segs t where "list_all good_seg segs" "segs = [] \<longrightarrow> t" "u = url_escape (slash_path segs t)"
    "t \<or> segs \<noteq> [''debug'', ''pprof'']"
proof -
  obtain segs t where path: "list_all good_seg segs" "segs = [] \<longrightarrow> t"
    "cleanPath (EscapedPath r) = slash_path segs t"
    by (rule cleanPath_form)
  have find: "(case slash_redirect (slash_path segs t) (rq_Path r) of
      Some w \<Rightarrow> u = redirect_location w | None \<Rightarrow> u = redirect_location (slash_path segs t))"
    using assms
    by (auto simp: mux_find_def path(3) Let_def split: if_splits option.splits)
  show ?thesis
  proof (cases "slash_redirect (slash_path segs t) (rq_Path r)")
    case None
    then have "t \<or> map unescape_seg segs \<noteq> [''debug'', ''pprof'']"
      using slash_redirect_path [OF path(1,2), of "rq_Path r"] by (auto split: if_splits)
    moreover have "map unescape_seg [''debug'', ''pprof''] = [''debug'', ''pprof'']" by code_simp
    ultimately have "t \<or> segs \<noteq> [''debug'', ''pprof'']" by metis
    moreover have "u = url_escape (slash_path segs t)"
      using find None cleanPath_id [OF good_segs_escape [OF path(1)], of t] path(2)
      by (simp add: redirect_location_def url_escape_path)
    ultimately show ?thesis using that path(1,2) by blast
  next
    case (Some w)
    then have w: "w = cleanPath (rq_Path r) @ ''/''"
      using slash_redirect_path [OF path(1,2), of "rq_Path r"] by (auto split: if_splits)
    obtain segs' t' where up: "list_all good_seg segs'" "cleanPath (rq_Path r) = slash_path segs' t'"
      by (rule cleanPath_form)
    have "url_escape w = slash_path (map url_escape segs') t' @ ''/''"
      by (simp add: w up(2) url_escape_path)
    then have "u = url_escape (slash_path segs' True)"
      using find Some cleanPath_slash [OF good_segs_escape [OF up(1)], of t']
      by (simp add: redirect_location_def url_escape_path)
    with that up(1) show ?thesis by blast
  qed
qed

text \<open>
  A redirect is followed at most once: whatever path a request has, where the mux redirects
  it (to clean its path or to add the slash of a directory), the location parses to a path in its
  default encoding, and a request for it, of any method but \<open>CONNECT\<close>, is served by one of
  the endpoints.
\<close>

lemma redirects_end:
  assumes "mux_find r = Redirected u" and "rq_Method r \<noteq> ''CONNECT''"
  shows "\<exists>p. parse_path u = Inr (p, []) \<and> cleanPath p = p
    \<and> (m = ''CONNECT'' \<or> (\<exists>e. mux_find (r\<lparr>rq_Method := m, rq_Path := p, rq_RawPath := []\<rparr>) = Served e))"
proof -
  obtain segs t where to: "list_all good_seg segs" "segs = [] \<longrightarrow> t" "u = url_escape (slash_path segs t)"
    "t \<or> segs \<noteq> [''debug'', ''pprof'']"
    by (rule redirect_target [OF assms])
  let ?p = "slash_path segs t"
  have "mux_find (r\<lparr>rq_Method := m, rq_Path := ?p, rq_RawPath := []\<rparr>) = Served (mux_endpoint segs t)"
    if "m \<noteq> ''CONNECT''"
    using mux_find_plain [OF to(1,2), of "r\<lparr>rq_Method := m, rq_Path := ?p, rq_RawPath := []\<rparr>"] that to(4)
    by auto
  then show ?thesis
    using parse_path_escape [of ?p] cleanPath_id [OF to(1,2)] to(3) by blast
qed

lemma demo_redirect: "mux_find (demo_http ''GET'' ''//x/../debug/pprof'') = Redirected ''/debug/pprof/''"
  by code_simp

lemma redirects_end_example:
  "\<exists>p e. parse_path ''/debug/pprof/'' = Inr (p, [])
     \<and> mux_find ((demo_http ''GET'' ''//x/../debug/pprof'')
         \<lparr>rq_Method := ''GET'', rq_Path := p, rq_RawPath := []\<rparr>) = Served e"
  using redirects_end [OF demo_redirect, of "''GET''"] by auto

end
