(* ===== verification/Process_Life.thy ===== *)
theory Process_Life
  imports Cli_Commands Server_Mux
begin

text \<open>
  cmd/flowhand and internal/cli together: the life of the server process, from the flag that names
  its configuration file to its exit code, with the server \<open>Run\<close> builds over the handler of
  the object graph and an execution of \<open>Run\<close> itself.
\<close>

section \<open>The server of Run\<close>

text \<open>What \<open>Run\<close> builds before it listens: the settings and the root handler.\<close>

definition run_server ::
  "('c, 's) root_env \<Rightarrow> ('c, 's) server_env \<Rightarrow> config \<Rightarrow> ('c, 's) api_handler \<Rightarrow>
   gerr + net_server \<times> ('c, 's) http_handler" where
  "run_server R E cfg h =
     (case api_server E h of
        Inl err \<Rightarrow> Inl (WrapErrorf ''new oas server: %w'' [] err)
      | Inr oasSrv \<Rightarrow> Inr (run_net_server cfg, root_handler R (se_lib E) oasSrv))"

lemma Run_returns_server:
  "Run_returns E h r \<longleftrightarrow>
     (case run_server R E cfg h of
        Inl err \<Rightarrow> r = Some err
      | Inr _ \<Rightarrow> \<exists>s. run_reachable s \<and> rn_runner s = Returned r)"
  by (simp add: Run_returns_def run_server_def split: sum.split)

section \<open>The process\<close>

text \<open>A flag that is not registered is a programming error; \<open>mustString\<close> panics on it.\<close>

datatype panic = FlagPanic string gerr

definition mustString :: "(string \<Rightarrow> gerr + string) \<Rightarrow> string \<Rightarrow> panic + string" where
  "mustString GetString name =
     (case GetString name of Inl err \<Rightarrow> Inl (FlagPanic name err) | Inr v \<Rightarrow> Inr v)"

text \<open>
  The parts of a process that are given: the configuration library, the SDK, the pool library,
  the generated server's environment, the database's types and the flags of the command line.
\<close>

record ('k, 'f, 'r, 'p, 'pool, 'c) world =
  wo_koanf :: "('k, 'f) koanf"
  wo_sdk :: "'r otel_sdk"
  wo_pgxpool :: "('p, 'pool) pgxpool"
  wo_server :: "('c, process) server_env"
  wo_types :: pg_types
  wo_GetString :: "string \<Rightarrow> gerr + string"
  wo_flags :: 'f

inductive flowhand_exits ::
  "('k, 'f, 'r, 'p, 'pool, 'c) world \<Rightarrow> command \<Rightarrow> process_state \<Rightarrow> process_state \<Rightarrow> nat \<Rightarrow> bool"
  for W where
  panics: "mustString (wo_GetString W) ''config'' = Inl m \<Longrightarrow> flowhand_exits W ServerCmd p p 2"
| serves: "mustString (wo_GetString W) ''config'' = Inr path \<Longrightarrow>
    (\<And>cfg pool. Run_returns (wo_server W) (server_handler (wo_types W)) (run cfg pool)) \<Longrightarrow>
    run_command ServerCmd (serverCmd (wo_koanf W) (wo_sdk W) (wo_pgxpool W) run path (wo_flags W)) p
      = (p', r) \<Longrightarrow>
    flowhand_exits W ServerCmd p p' (exit_code r)"
| others: "c \<noteq> ServerCmd \<Longrightarrow> run_command c server p = (p', r) \<Longrightarrow> flowhand_exits W c p p' (exit_code r)"



section \<open>Its life\<close>

lemma Run_returns_some: "\<exists>r. Run_returns E h r"
proof (cases "api_server E h")
  case (Inr srv)
  have "run_reachable run_stopped" by (rule relpowp_imp_rtranclp [OF run_to_stop])
  moreover have "rn_runner run_stopped = Returned None" by (simp add: run_stopped_def)
  ultimately show ?thesis using Inr by (auto simp: Run_returns_def)
qed (simp add: Run_returns_def)

text \<open>Every command ends in some way, whatever the world is.\<close>

lemma flowhand_exits_some: "\<exists>p' code. flowhand_exits W c p p' code"
proof (cases "c = ServerCmd")
  case True
  show ?thesis
  proof (cases "mustString (wo_GetString W) ''config''")
    case (Inl m)
    with True flowhand_exits.panics [OF Inl] show ?thesis by blast
  next
    case (Inr path)
    obtain r where ret: "Run_returns (wo_server W) (server_handler (wo_types W)) r"
      using Run_returns_some by blast
    obtain p' res where run: "run_command ServerCmd (serverCmd (wo_koanf W) (wo_sdk W) (wo_pgxpool W)
        (\<lambda>cfg pool. r) path (wo_flags W)) p = (p', res)"
      by (rule prod.exhaust)
    from flowhand_exits.serves [OF Inr ret run] True show ?thesis by blast
  qed
next
  case False
  obtain p' r where "run_command c (\<lambda>p. (p, None)) p = (p', r)" by (rule prod.exhaust)
  from flowhand_exits.others [OF False this] show ?thesis by blast
qed

lemma Run_returns_nil:
  assumes "Run_returns E h None"
  obtains srv s where "api_server E h = Inr srv" "run_reachable s" "rn_runner s = Returned None"
    "rn_cancelled s" "rn_listener s = Finished"
proof (cases "api_server E h")
  case (Inr srv)
  with assms obtain s where s: "run_reachable s" "rn_runner s = Returned None"
    by (auto simp: Run_returns_def)
  have "run_inv s" by (rule run_reachable_inv [OF s(1)])
  with s(2) have "rn_cancelled s" "rn_listener s = Finished" by (simp_all add: run_inv_def)
  with that Inr s show ?thesis by blast
qed (use assms in \<open>simp add: Run_returns_def\<close>)

text \<open>The server command without an error, on a fresh process.\<close>

lemma serverCmd_nil:
  assumes "serverCmd KO K P run path flags new_process = (p', None)"
  obtains cfg tp pool fail where "Load KO path (Some flags) = Inr cfg"
    "newResource K cfg = Inr tp" "NewPool P (cf_DB cfg) = Inr pool" "run cfg pool = None"
    "pr_trace p' = [SignalsOn] @ init_prefix cfg @ tracer_events @ meter_events
       @ [MeterProviderSet, PoolOpened, proc_event.Served, PoolClosed, Shut TracerProvider, Shut MeterProvider]
       @ fail @ [SignalsOff]"
    "fail = [] \<or> (\<exists>e. fail = [ObsShutdownFailed e])"
proof (cases "Load KO path (Some flags)")
  case cfg: (Inr cfg)
  let ?p = "log_event SignalsOn new_process"
  obtain p1 res where init: "Init K cfg ?p = (p1, res)" by (cases "Init K cfg ?p")
  show ?thesis
  proof (cases res)
    case res: (Inr mp)
    show ?thesis
      using init [unfolded res]
    proof (cases rule: Init_cases)
      case (ready tp)
      show ?thesis
      proof (cases "NewPool P (cf_DB cfg)")
        case pool: (Inr pool)
        let ?p2 = "log_event PoolClosed (log_event proc_event.Served (log_event PoolOpened p1))"
        have "pr_funcs ?p2 = [TracerProvider, MeterProvider]" using ready(5) by simp
        then obtain fail where fail: "pr_trace (deferred_shutdown K ?p2) =
            pr_trace ?p2 @ [Shut TracerProvider, Shut MeterProvider] @ fail"
          "fail = [] \<or> (\<exists>e. fail = [ObsShutdownFailed e])"
          using deferred_shutdown_trace [of ?p2 K] by auto
        have p': "p' = log_event SignalsOff (deferred_shutdown K ?p2)" "run cfg pool = None"
          using assms cfg init res pool by (simp_all add: serverCmd_def Let_def)
        show ?thesis
          by (rule that [OF cfg ready(2) pool p'(2) _ fail(2)])
            (simp add: p'(1) fail(1) ready(4) new_process_def)
      qed (use assms cfg init res in \<open>simp add: serverCmd_def Let_def\<close>)
    qed simp_all
  qed (use assms cfg init in \<open>simp add: serverCmd_def Let_def\<close>)
qed (use assms in \<open>simp add: serverCmd_def\<close>)

text \<open>
  C38. The exit code tells how the server process ended: 2 is a missing flag, 1 an error, and 0
  comes only after a complete life: the configuration was loaded and its server built, the
  providers and the pool were started, \<open>Run\<close> was cancelled, shut its server down and
  returned nil with no goroutine left, and then the pool, both providers and the signals were
  released in this order; only a provider that fails to shut down is logged and changes nothing.
  Some exit is always possible.
\<close>

theorem clean_exit:
  assumes "flowhand_exits W ServerCmd new_process p' code"
  shows "(code = 2) = (\<exists>m. mustString (wo_GetString W) ''config'' = Inl m) \<and> code \<le> 2
    \<and> (code = 0 \<longrightarrow>
        (\<exists>path cfg tp pool built s fail.
           mustString (wo_GetString W) ''config'' = Inr path
           \<and> Load (wo_koanf W) path (Some (wo_flags W)) = Inr cfg
           \<and> newResource (wo_sdk W) cfg = Inr tp
           \<and> NewPool (wo_pgxpool W) (cf_DB cfg) = Inr pool
           \<and> run_server R (wo_server W) cfg (server_handler (wo_types W)) = Inr built
           \<and> run_reachable s \<and> rn_runner s = Returned None \<and> rn_cancelled s \<and> rn_listener s = Finished
           \<and> pr_trace p' = [SignalsOn] @ init_prefix cfg @ tracer_events @ meter_events
               @ [MeterProviderSet, PoolOpened, proc_event.Served, PoolClosed,
                  Shut TracerProvider, Shut MeterProvider] @ fail @ [SignalsOff]
           \<and> (fail = [] \<or> (\<exists>e. fail = [ObsShutdownFailed e]))))
    \<and> (\<exists>p'' code'. flowhand_exits W c p p'' code')"
  using assms
proof (cases rule: flowhand_exits.cases)
  case (panics m)
  then show ?thesis by (simp add: flowhand_exits_some)
next
  case (serves path run r)
  have code: "code \<le> 1" "code = 0 \<longleftrightarrow> r = None"
    using serves(1) by (auto simp: exit_code_def split: option.splits)
  have cmd: "serverCmd (wo_koanf W) (wo_sdk W) (wo_pgxpool W) run path (wo_flags W) new_process = (p', r)"
    using serves(4) by (simp add: run_command_def)
  show ?thesis
  proof (cases r)
    case None
    obtain cfg tp pool fail where life: "Load (wo_koanf W) path (Some (wo_flags W)) = Inr cfg"
      "newResource (wo_sdk W) cfg = Inr tp" "NewPool (wo_pgxpool W) (cf_DB cfg) = Inr pool"
      "run cfg pool = None"
      "pr_trace p' = [SignalsOn] @ init_prefix cfg @ tracer_events @ meter_events
         @ [MeterProviderSet, PoolOpened, proc_event.Served, PoolClosed, Shut TracerProvider, Shut MeterProvider]
         @ fail @ [SignalsOff]"
      "fail = [] \<or> (\<exists>e. fail = [ObsShutdownFailed e])"
      by (rule serverCmd_nil [OF cmd [unfolded None]])
    obtain srv s where s: "api_server (wo_server W) (server_handler (wo_types W)) = Inr srv"
      "run_reachable s" "rn_runner s = Returned None" "rn_cancelled s" "rn_listener s = Finished"
      by (rule Run_returns_nil [OF serves(3) [of cfg pool, unfolded life(4)]])
    have built: "run_server R (wo_server W) cfg (server_handler (wo_types W)) =
        Inr (run_net_server cfg, root_handler R (se_lib (wo_server W)) srv)"
      by (simp add: run_server_def s(1))
    show ?thesis
      using code serves(2) flowhand_exits_some life(1-3,5,6) s(2-) built by fastforce
  qed (use code serves(2) flowhand_exits_some in auto)
qed simp

text \<open>A world in which everything starts and the tracer provider fails to shut down.\<close>

definition demo_world :: "(unit, unit, unit, unit, unit, unit) world" where
  "demo_world =
     \<lparr>wo_koanf = \<lparr>ko_New = (), ko_LoadMap = (\<lambda>m. Inr), ko_LoadFile = (\<lambda>p. Inr),
        ko_LoadEnv = (\<lambda>p f. Inr), ko_LoadFlags = (\<lambda>fs f. Inr), ko_Int = (\<lambda>k key. 10),
        ko_String = (\<lambda>k key. if key = ''env'' then ''dev'' else []), ko_Duration = (\<lambda>k key. 1)\<rparr>,
      wo_sdk = demo_sdk,
      wo_pgxpool = \<lparr>pp_ParseConfig = (\<lambda>_. Inr \<lparr>pc_MaxConns = 4, pc_MinConns = 0,
        pc_MaxConnLifetime = 1, pc_Tracer = False, pc_Rest = ()\<rparr>), pp_NewWithConfig = (\<lambda>_. Inr ())\<rparr>,
      wo_server = demo_server_env demo_jx, wo_types = demo_types,
      wo_GetString = (\<lambda>_. Inr []), wo_flags = ()\<rparr>"

lemma demo_world_exits: "\<exists>p'. flowhand_exits demo_world ServerCmd new_process p' 0"
proof -
  let ?W = demo_world
  have ret: "Run_returns (wo_server ?W) (server_handler (wo_types ?W)) None"
    using relpowp_imp_rtranclp [OF run_to_stop]
    by (auto simp: Run_returns_def demo_world_def demo_srv run_stopped_def intro!: exI [of _ run_stopped])
  have str: "mustString (wo_GetString ?W) ''config'' = Inr []"
    by (simp add: mustString_def demo_world_def)
  obtain p' where "run_command ServerCmd (serverCmd (wo_koanf ?W) (wo_sdk ?W) (wo_pgxpool ?W)
      (\<lambda>cfg pool. None) [] (wo_flags ?W)) new_process = (p', None)"
    by (simp add: demo_world_def run_command_def serverCmd_def Load_def load_layers_def materialize_def
        MaxInt32_def Init_def NewTracerProvider_def NewMeterProvider_def newResource_def demo_sdk_def
        NewPool_def Let_def)
  from flowhand_exits.serves [OF str ret this] show ?thesis by (auto simp: exit_code_def)
qed

theorem clean_exit_witness:
  "\<exists>p'. flowhand_exits demo_world ServerCmd new_process p' 0 \<and> PoolClosed \<in> set (pr_trace p')"
proof -
  obtain p' where exits: "flowhand_exits demo_world ServerCmd new_process p' 0"
    using demo_world_exits by blast
  from clean_exit [OF this, where R = undefined and c = ServerCmd and p = new_process]
  have "PoolClosed \<in> set (pr_trace p')" by auto
  with exits show ?thesis by blast
qed

end
