(* ===== verification/Demo_Producer.thy ===== *)
theory Demo_Producer
  imports Oas_Client
begin

text \<open>
  cmd/flowhand-demo: the reference producer, which submits every idempotency key twice and
  compares the two task ids, and the counters it exposes.
\<close>

section \<open>Settings\<close>

definition envOr :: "(string \<Rightarrow> string) \<Rightarrow> string \<Rightarrow> string \<Rightarrow> string" where
  "envOr getenv env def = (let e = getenv env in if e = [] then def else e)"

definition envDur ::
  "(string \<Rightarrow> string) \<Rightarrow> (string \<Rightarrow> gerr + 64 word) \<Rightarrow> string \<Rightarrow> 64 word \<Rightarrow> 64 word" where
  "envDur getenv parse env def =
     (let ds = getenv env
      in if ds = [] then def
         else (case parse ds of Inl err \<Rightarrow> def | Inr d \<Rightarrow> d))"

section \<open>Keys\<close>

text \<open>\<open>%d\<close> of a number that is not negative.\<close>

function dec :: "nat \<Rightarrow> string" where
  "dec n = (if n < 10 then [char_of (n + 48)] else dec (n div 10) @ [char_of (n mod 10 + 48)])"
  by auto
termination by (relation "measure id") auto

declare dec.simps [simp del]

definition undec :: "string \<Rightarrow> nat" where
  "undec s = foldl (\<lambda>a c. 10 * a + (of_char c - 48)) 0 s"

lemma undec_dec [simp]: "undec (dec n) = n"
proof (induction n rule: dec.induct)
  case (1 n)
  show ?case
  proof (cases "n < 10")
    case True
    then show ?thesis by (simp add: dec.simps [of n] undec_def)
  next
    case False
    with 1 have "undec (dec (n div 10)) = n div 10" by simp
    moreover have "n mod 10 < 10" by simp
    ultimately show ?thesis using False by (simp add: dec.simps [of n] undec_def)
  qed
qed

lemma dec_inject [simp]: "dec m = dec n \<longleftrightarrow> m = n"
  by (metis undec_dec)

definition demo_key :: "string \<Rightarrow> nat \<Rightarrow> string" where
  "demo_key runID n = runID @ ''-'' @ dec (n div 2)"

section \<open>One submit\<close>

text \<open>
  \<open>createTaskRequest\<close> of the producer, payload values as JSON text. \<open>encoding/json\<close> and
  the client are parameters; the decoder returns the \<open>id\<close> member of the answer.
\<close>

record demo_task_request =
  dr_Handler :: string
  dr_Payload :: "(string \<times> string) list"
  dr_IdempotencyKey :: string

record 's demo_env =
  de_getenv :: "string \<Rightarrow> string"
  de_parseDuration :: "string \<Rightarrow> gerr + 64 word"
  de_joinPath :: "string \<Rightarrow> string \<Rightarrow> gerr + string"
  de_marshal :: "demo_task_request \<Rightarrow> gerr + bytes"
  de_newRequest :: "string \<Rightarrow> string \<Rightarrow> gerr + client_request"
  de_client :: "'s http_client"
  de_status :: "nat \<Rightarrow> string"
  de_decodeID :: "bytes \<Rightarrow> gerr + string"
  de_newUUID :: "gerr + string"
  de_shutdownErr :: "gerr option"

definition submitOne :: "'s demo_env \<Rightarrow> string \<Rightarrow> string \<Rightarrow> ('s, string) op_res" where
  "submitOne E endpoint idempotencyKey s =
     (case de_marshal E \<lparr>dr_Handler = ''echo'',
             dr_Payload = [(''msg'', ''\"hello\"''), (''n'', ''42'')],
             dr_IdempotencyKey = idempotencyKey\<rparr> of
        Inl err \<Rightarrow> (s, Inl (WrapErrorf ''marshal request: %w'' [] err))
      | Inr body \<Rightarrow>
          (case de_newRequest E ''POST'' endpoint of
             Inl err \<Rightarrow> (s, Inl (WrapErrorf ''new request: %w'' [] err))
           | Inr req \<Rightarrow>
               (let req = req\<lparr>cq_Body := body, cq_ContentType := ''application/json''\<rparr>
                in case de_client E req s of
                     (s1, Inl err) \<Rightarrow> (s1, Inl (WrapErrorf ''post task: %w'' [] err))
                   | (s1, Inr resp) \<Rightarrow>
                       (if rs_StatusCode resp \<noteq> 201 then
                          (s1, Inl (Errorf ''unexpected status %s'' [ArgStr (de_status E (rs_StatusCode resp))]))
                        else
                          (case (case rs_BodyErr resp of Some err \<Rightarrow> Inl err
                                 | None \<Rightarrow> de_decodeID E (rs_Body resp)) of
                             Inl err \<Rightarrow> (s1, Inl (WrapErrorf ''decode task: %w'' [] err))
                           | Inr i \<Rightarrow> (s1, Inr i))))))"

section \<open>The loop\<close>

text \<open>
  The counters, the two loop variables, and what the loop reported; \<open>d_answers\<close> keeps what
  every submit was sent and answered, for the statements.
\<close>

record demo_state =
  d_n :: nat
  d_lastID :: string
  d_created :: nat
  d_replayed :: nat
  d_error :: nat
  d_warned :: "(string \<times> string \<times> string) list"
  d_answers :: "(string \<times> (gerr + string)) list"

definition demo_start :: demo_state where
  "demo_start = \<lparr>d_n = 0, d_lastID = [], d_created = 0, d_replayed = 0, d_error = 0,
     d_warned = [], d_answers = []\<rparr>"

definition demo_tick :: "string \<Rightarrow> gerr + string \<Rightarrow> demo_state \<Rightarrow> demo_state" where
  "demo_tick key answer d =
     (let firstOfPair = (d_n d mod 2 = 0);
          d = d\<lparr>d_n := d_n d + 1, d_answers := d_answers d @ [(key, answer)]\<rparr>
      in case answer of
           Inl err \<Rightarrow> d\<lparr>d_error := d_error d + 1, d_lastID := []\<rparr>
         | Inr i \<Rightarrow>
             if firstOfPair then d\<lparr>d_created := d_created d + 1, d_lastID := i\<rparr>
             else if d_lastID d = [] then d\<lparr>d_created := d_created d + 1\<rparr>
             else if i = d_lastID d then d\<lparr>d_replayed := d_replayed d + 1\<rparr>
             else d\<lparr>d_warned := d_warned d @ [(key, d_lastID d, i)],
                    d_created := d_created d + 1, d_lastID := i\<rparr>)"

text \<open>The ticks until the signal: each submits under the key of its pair.\<close>

fun demo_loop ::
  "'s demo_env \<Rightarrow> string \<Rightarrow> string \<Rightarrow> nat \<Rightarrow> demo_state \<Rightarrow> 's \<Rightarrow> 's \<times> demo_state" where
  "demo_loop E endpoint runID 0 d s = (s, d)"
| "demo_loop E endpoint runID (Suc ticks) d s =
     (let key = demo_key runID (d_n d)
      in case submitOne E endpoint key s of
           (s1, answer) \<Rightarrow> demo_loop E endpoint runID ticks (demo_tick key answer d) s1)"

section \<open>The process\<close>

text \<open>
  The metrics server of the producer: a mux with one exact pattern, served by a goroutine that
  nothing waits for. What \<open>ListenAndServe\<close> returns is logged unless the server was closed;
  the loop never sees it.
\<close>

record demo_metrics_server =
  dm_Addr :: string
  dm_patterns :: "string list"
  dm_ReadHeaderTimeout :: "64 word"

datatype demo_event =
    DemoSignals bool
  | DemoMetrics demo_metrics_server
  | DemoListening string
  | DemoListenFailed gerr
  | DemoTicker "(64 word) option"
  | DemoSubmitting string "64 word" string
  | DemoLooped nat
  | DemoMetricsShutdown
  | DemoStoppedLogged
  | DemoErrorLogged gerr

definition metrics_server :: "string \<Rightarrow> demo_metrics_server" where
  "metrics_server addr =
     \<lparr>dm_Addr = addr, dm_patterns = [''/metrics''], dm_ReadHeaderTimeout = 10 * 1000000000\<rparr>"

definition metrics_goroutine :: "string \<Rightarrow> gerr option \<Rightarrow> demo_event list" where
  "metrics_goroutine addr returned =
     DemoListening addr #
     (case returned of
        Some err \<Rightarrow> if \<not> errors_Is err ErrServerClosed then [DemoListenFailed err] else []
      | None \<Rightarrow> [])"

datatype demo_exit = DemoStopped | DemoFailed gerr | DemoPanic string

text \<open>
  \<open>run\<close>, with the events of its own goroutine in order. \<open>time.NewTicker\<close> panics on an
  interval that is not positive and \<open>uuid.NewString\<close> when there are no random bytes; the
  deferred calls registered before run then too.
\<close>

definition demo_run ::
  "'s demo_env \<Rightarrow> nat \<Rightarrow> 's \<Rightarrow> 's \<times> demo_state \<times> demo_event list \<times> demo_exit" where
  "demo_run E ticks s =
     (let stop = [DemoSignals False];
          target = envOr (de_getenv E) ''FLOWHAND_URL'' ''http://host.docker.internal:8080'';
          interval = envDur (de_getenv E) (de_parseDuration E) ''DEMO_INTERVAL'' 1000000000;
          metricsAddr = envOr (de_getenv E) ''DEMO_METRICS_ADDR'' '':8081''
      in case de_joinPath E target ''/v1/tasks'' of
           Inl err \<Rightarrow>
             (s, demo_start, DemoSignals True # stop,
              DemoFailed (WrapErrorf ''bad FLOWHAND_URL %q: %w'' [ArgStr target] err))
         | Inr endpoint \<Rightarrow>
             (let begun = [DemoSignals True, DemoMetrics (metrics_server metricsAddr)]
              in if sint interval \<le> 0 then
                   (s, demo_start, begun @ stop, DemoPanic ''non-positive interval for NewTicker'')
                 else
                   (let ticking = begun @ [DemoTicker (Some interval)];
                        stop = DemoTicker None # stop
                    in case de_newUUID E of
                         Inl err \<Rightarrow> (s, demo_start, ticking @ stop, DemoPanic ''uuid'')
                       | Inr runID \<Rightarrow>
                           (case demo_loop E endpoint runID ticks demo_start s of
                              (s1, d) \<Rightarrow>
                                (let looped = ticking @ [DemoSubmitting endpoint interval runID,
                                       DemoLooped ticks, DemoMetricsShutdown]
                                 in case de_shutdownErr E of
                                      Some err \<Rightarrow>
                                        (s1, d, looped @ stop,
                                         DemoFailed (WrapErrorf ''metrics shutdown: %w'' [] err))
                                    | None \<Rightarrow>
                                        (s1, d, looped @ DemoStoppedLogged # stop, DemoStopped))))))"

text \<open>\<open>main\<close>: an error is logged and exits with 1; a panic ends a Go process with 2.\<close>

definition demo_main ::
  "'s demo_env \<Rightarrow> nat \<Rightarrow> 's \<Rightarrow> 's \<times> demo_event list \<times> nat" where
  "demo_main E ticks s =
     (case demo_run E ticks s of
        (s1, d, trace, DemoStopped) \<Rightarrow> (s1, trace, 0)
      | (s1, d, trace, DemoFailed err) \<Rightarrow> (s1, trace @ [DemoErrorLogged err], 1)
      | (s1, d, trace, DemoPanic m) \<Rightarrow> (s1, trace, 2))"

section \<open>What the counters say\<close>

fun pairs :: "'a list \<Rightarrow> ('a \<times> 'a) list" where
  "pairs (a # b # xs) = (a, b) # pairs xs"
| "pairs _ = []"

lemma pairs_snoc:
  "pairs (xs @ [x]) = (if even (length xs) then pairs xs else pairs xs @ [(last xs, x)])"
  by (induction xs rule: pairs.induct) auto

lemma demo_key_inject: "demo_key runID i = demo_key runID j \<longleftrightarrow> i div 2 = j div 2"
  by (simp add: demo_key_def)

text \<open>Both submits of a key succeeded: with the same task, or with two.\<close>

fun replayed_pair :: "(string \<times> (gerr + string)) \<times> (string \<times> (gerr + string)) \<Rightarrow> bool" where
  "replayed_pair ((_, Inr a), (_, Inr b)) = (a \<noteq> [] \<and> a = b)"
| "replayed_pair _ = False"

fun broken_pair ::
  "(string \<times> (gerr + string)) \<times> (string \<times> (gerr + string)) \<Rightarrow> (string \<times> string \<times> string) list" where
  "broken_pair ((_, Inr a), (k, Inr b)) = (if a \<noteq> [] \<and> a \<noteq> b then [(k, a, b)] else [])"
| "broken_pair _ = []"

text \<open>The submits of a run, one after the other.\<close>

fun submit_each ::
  "'s demo_env \<Rightarrow> string \<Rightarrow> string list \<Rightarrow> 's \<Rightarrow> 's \<times> (string \<times> (gerr + string)) list" where
  "submit_each E endpoint [] s = (s, [])"
| "submit_each E endpoint (k # ks) s =
     (case submitOne E endpoint k s of
        (s1, r) \<Rightarrow> (case submit_each E endpoint ks s1 of (s2, rs) \<Rightarrow> (s2, (k, r) # rs)))"

definition demo_inv :: "demo_state \<Rightarrow> bool" where
  "demo_inv d \<longleftrightarrow>
     d_n d = length (d_answers d)
     \<and> d_created d + d_replayed d + d_error d = d_n d
     \<and> d_error d = length (filter (isl \<circ> snd) (d_answers d))
     \<and> d_replayed d = length (filter replayed_pair (pairs (d_answers d)))
     \<and> d_warned d = concat (map broken_pair (pairs (d_answers d)))
     \<and> (odd (d_n d) \<longrightarrow> d_lastID d = (case snd (last (d_answers d)) of Inl _ \<Rightarrow> [] | Inr i \<Rightarrow> i))"

lemma demo_inv_start: "demo_inv demo_start"
  by (simp add: demo_inv_def demo_start_def)

lemma demo_inv_tick:
  assumes "demo_inv d"
  shows "demo_inv (demo_tick key answer d)"
proof (cases "even (d_n d)")
  case True
  with assms show ?thesis
    by (cases answer) (auto simp: demo_inv_def demo_tick_def Let_def pairs_snoc even_iff_mod_2_eq_zero)
next
  case False
  obtain k r where last: "last (d_answers d) = (k, r)" by (cases "last (d_answers d)")
  from False assms last show ?thesis
    by (cases answer; cases r)
      (auto simp: demo_inv_def demo_tick_def Let_def pairs_snoc odd_iff_mod_2_eq_one)
qed

lemma demo_loop_inv: "demo_inv d \<Longrightarrow> demo_inv (snd (demo_loop E endpoint runID ticks d s))"
  by (induction ticks arbitrary: d s) (auto simp: Let_def demo_inv_tick split: prod.split)

lemma demo_tick_simps [simp]:
  "d_n (demo_tick key answer d) = Suc (d_n d)"
  "d_answers (demo_tick key answer d) = d_answers d @ [(key, answer)]"
  by (simp_all add: demo_tick_def Let_def split: sum.split)

lemma demo_loop_answers:
  "demo_loop E endpoint runID ticks d s = (s', d') \<Longrightarrow>
     d_n d' = d_n d + ticks
     \<and> (\<exists>as. submit_each E endpoint (map (demo_key runID) [d_n d..<d_n d + ticks]) s = (s', as)
           \<and> d_answers d' = d_answers d @ as)"
proof (induction ticks arbitrary: d s)
  case (Suc ticks)
  let ?k = "demo_key runID (d_n d)"
  obtain s1 r where one: "submitOne E endpoint ?k s = (s1, r)" by (cases "submitOne E endpoint ?k s")
  with Suc.prems have "demo_loop E endpoint runID ticks (demo_tick ?k r d) s1 = (s', d')"
    by (simp add: Let_def)
  from Suc.IH [OF this] obtain as where
    "submit_each E endpoint (map (demo_key runID) [Suc (d_n d)..<Suc (d_n d + ticks)]) s1 = (s', as)"
    "d_n d' = Suc (d_n d + ticks)" "d_answers d' = d_answers d @ (?k, r) # as"
    by (auto simp del: upt_Suc)
  with one show ?case by (simp add: upt_conv_Cons del: upt_Suc)
qed simp

text \<open>
  C40. The producer tells the truth: after any number of ticks against any server, each key was
  submitted for two successive ticks and no other, every tick is counted exactly once, the errors
  are the failed submits, \<open>replayed\<close> counts the pairs whose two submits both succeeded with
  the same task id, and a warning is reported exactly for the pairs that both succeeded with
  different ids; so a server that answers equal keys with equal ids is never accused.
\<close>

theorem demo_reports_truth:
  "case demo_loop E endpoint runID ticks demo_start s of
     (s', d) \<Rightarrow>
       submit_each E endpoint (map (demo_key runID) [0..<ticks]) s = (s', d_answers d)
       \<and> (demo_key runID i = demo_key runID j) = (i div 2 = j div 2)
       \<and> d_created d + d_replayed d + d_error d = ticks
       \<and> d_error d = length (filter (isl \<circ> snd) (d_answers d))
       \<and> d_replayed d = length (filter replayed_pair (pairs (d_answers d)))
       \<and> d_warned d = concat (map broken_pair (pairs (d_answers d)))"
proof (cases "demo_loop E endpoint runID ticks demo_start s")
  case (Pair s' d)
  have "demo_inv d" using demo_loop_inv [OF demo_inv_start, of E endpoint runID ticks s] Pair by simp
  moreover have "d_n d = ticks"
    "submit_each E endpoint (map (demo_key runID) [0..<ticks]) s = (s', d_answers d)"
    using demo_loop_answers [OF Pair] by (auto simp: demo_start_def)
  ultimately show ?thesis
    unfolding Pair by (simp add: demo_inv_def demo_key_inject)
qed

text \<open>The run as a whole, by the branch it takes.\<close>

lemma demo_run_cases:
  obtains (url) err where "demo_run E ticks s = (s, demo_start, [DemoSignals True, DemoSignals False],
      DemoFailed (WrapErrorf ''bad FLOWHAND_URL %q: %w''
        [ArgStr (envOr (de_getenv E) ''FLOWHAND_URL'' ''http://host.docker.internal:8080'')] err))"
  | (interval) m where "sint (envDur (de_getenv E) (de_parseDuration E) ''DEMO_INTERVAL'' 1000000000) \<le> 0"
      "demo_run E ticks s = (s, demo_start, [DemoSignals True, DemoMetrics m, DemoSignals False],
        DemoPanic ''non-positive interval for NewTicker'')"
  | (uuid) m i where "demo_run E ticks s = (s, demo_start,
        [DemoSignals True, DemoMetrics m, DemoTicker (Some i), DemoTicker None, DemoSignals False],
        DemoPanic ''uuid'')"
  | (looped) m i endpoint runID s1 d logged exit where "0 < sint i"
      "demo_loop E endpoint runID ticks demo_start s = (s1, d)"
      "demo_run E ticks s = (s1, d,
        [DemoSignals True, DemoMetrics m, DemoTicker (Some i), DemoSubmitting endpoint i runID,
         DemoLooped ticks, DemoMetricsShutdown] @ logged @ [DemoTicker None, DemoSignals False], exit)"
      "(logged = [DemoStoppedLogged] \<and> exit = DemoStopped \<and> de_shutdownErr E = None)
       \<or> (\<exists>err. logged = [] \<and> exit = DemoFailed (WrapErrorf ''metrics shutdown: %w'' [] err)
            \<and> de_shutdownErr E = Some err)"
proof -
  let ?i = "envDur (de_getenv E) (de_parseDuration E) ''DEMO_INTERVAL'' 1000000000"
  let ?target = "envOr (de_getenv E) ''FLOWHAND_URL'' ''http://host.docker.internal:8080''"
  show thesis
  proof (cases "de_joinPath E ?target ''/v1/tasks''")
    case (Inl err)
    show ?thesis by (rule url [of err]) (simp add: demo_run_def Let_def Inl)
  next
    case (Inr endpoint)
    note url = Inr
    show ?thesis
    proof (cases "sint ?i \<le> 0")
      case True
      show ?thesis by (rule interval [OF True]) (simp add: demo_run_def Let_def url True)
    next
      case False
      show ?thesis
      proof (cases "de_newUUID E")
        case (Inl err)
        show ?thesis by (rule uuid) (simp add: demo_run_def Let_def url False Inl)
      next
        case (Inr runID)
        obtain s1 d where loop: "demo_loop E endpoint runID ticks demo_start s = (s1, d)"
          by (cases "demo_loop E endpoint runID ticks demo_start s")
        show ?thesis
          by (cases "de_shutdownErr E";
              rule looped [of ?i endpoint runID s1 d])
            (use False in \<open>auto simp: demo_run_def Let_def url Inr loop\<close>)
      qed
    qed
  qed
qed

text \<open>
  Whatever happens, the signals are given back last and exactly once, the ticker stops before them
  when it was started, and no submit is made unless the interval is positive; the process exits
  with 0 exactly when the loop ran and the metrics server was shut down without an error.
\<close>

lemma demo_main_releases:
  assumes "demo_main E ticks s = (s', trace, code)"
  shows "count_list trace (DemoSignals True) = 1" "count_list trace (DemoSignals False) = 1"
    "count_list trace (DemoTicker None) = length (filter (\<lambda>e. case e of DemoTicker (Some i) \<Rightarrow> True | _ \<Rightarrow> False) trace)"
    "s' = s \<or> list_ex (\<lambda>e. case e of DemoTicker (Some i) \<Rightarrow> 0 < sint i | _ \<Rightarrow> False) trace"
    "(code = 0) = List.member trace DemoStoppedLogged" "code \<le> 2"
    "(code = 1) = list_ex (\<lambda>e. case e of DemoErrorLogged err \<Rightarrow> True | _ \<Rightarrow> False) trace"
  using assms by (cases rule: demo_run_cases [of E ticks s]; auto simp: demo_main_def)+

text \<open>An interval of zero parses, so the default does not apply, and the ticker panics.\<close>

lemma demo_interval_panics:
  assumes "de_getenv E ''DEMO_INTERVAL'' = ds" and "ds \<noteq> []" and "de_parseDuration E ds = Inr 0"
    and "de_joinPath E (envOr (de_getenv E) ''FLOWHAND_URL'' ''http://host.docker.internal:8080'')
      ''/v1/tasks'' = Inr endpoint"
  shows "snd (snd (snd (demo_run E ticks s))) = DemoPanic ''non-positive interval for NewTicker''"
  using assms by (simp add: demo_run_def envDur_def Let_def)

end
