(* ===== verification/Demo_Props.thy ===== *)
theory Demo_Props
  imports Demo_Producer Client_Props
begin

text \<open>
  The producer of cmd/flowhand-demo against the modelled server: its submits are requests the
  server gets one after the other, so what holds for sequences of requests decides what the
  producer reports.
\<close>

section \<open>Submits as requests\<close>

text \<open>
  The request of a key: the marshalled body in a request for the endpoint, with its content type.
\<close>

definition demo_body :: "'s demo_env \<Rightarrow> string \<Rightarrow> gerr + bytes" where
  "demo_body E key =
     de_marshal E \<lparr>dr_Handler = ''echo'', dr_Payload = [(''msg'', ''\"hello\"''), (''n'', ''42'')],
       dr_IdempotencyKey = key\<rparr>"

definition demo_sends :: "'s demo_env \<Rightarrow> string \<Rightarrow> (string \<Rightarrow> client_request) \<Rightarrow> string \<Rightarrow> bool" where
  "demo_sends E endpoint q key \<longleftrightarrow>
     (\<exists>body r. demo_body E key = Inr body \<and> de_newRequest E ''POST'' endpoint = Inr r
        \<and> q key = r\<lparr>cq_Body := body, cq_ContentType := ''application/json''\<rparr>)"

definition demo_answer :: "'s demo_env \<Rightarrow> resp_writer \<Rightarrow> gerr + string" where
  "demo_answer E w =
     (let resp = response_of w
      in if rs_StatusCode resp \<noteq> 201
         then Inl (Errorf ''unexpected status %s'' [ArgStr (de_status E (rs_StatusCode resp))])
         else (case de_decodeID E (rs_Body resp) of
                 Inl err \<Rightarrow> Inl (WrapErrorf ''decode task: %w'' [] err)
               | Inr i \<Rightarrow> Inr i))"

lemma submitOne_loopback:
  assumes "demo_sends E endpoint q key" and "de_client E = loopback L srv ctx"
    and "ex' = ServeHTTP L srv ctx (request_of (q key)) \<lparr>ex_app = s, ex_rw = new_writer, ex_tel = []\<rparr>"
  shows "submitOne E endpoint key s = (ex_app ex', demo_answer E (ex_rw ex'))"
  using assms
  by (auto simp: demo_sends_def demo_body_def submitOne_def loopback_def demo_answer_def Let_def
      response_of_def split: sum.splits)

lemma submit_each_serves:
  assumes "list_all (demo_sends E endpoint q) ks" and "de_client E = loopback L srv ctx"
  shows "submit_each E endpoint ks s =
    (case serve_all L srv (map (\<lambda>k. (ctx, request_of (q k), new_writer)) ks) s of
       (s', ws) \<Rightarrow> (s', zip ks (map (demo_answer E) ws)))"
  using assms(1)
proof (induction ks arbitrary: s)
  case (Cons k ks)
  then have "demo_sends E endpoint q k" by simp
  from submitOne_loopback [OF this assms(2) refl, of s] Cons show ?case
    by (simp add: Let_def case_prod_beta)
qed simp

lemma pairs_nth:
  "p \<in> set (pairs xs) \<Longrightarrow> \<exists>i. Suc (2 * i) < length xs \<and> p = (xs ! (2 * i), xs ! Suc (2 * i))"
proof (induction xs rule: pairs.induct)
  case (1 a b xs)
  then consider "p = (a, b)" | "p \<in> set (pairs xs)" by auto
  then show ?case
  proof cases
    case 1
    then show ?thesis by (intro exI [of _ 0]) simp
  next
    case 2
    with "1.IH" obtain i where "Suc (2 * i) < length xs" "p = (xs ! (2 * i), xs ! Suc (2 * i))" by blast
    then show ?thesis by (intro exI [of _ "Suc i"]) simp
  qed
qed simp_all

section \<open>The producer and the server\<close>

lemma answer_201: "demo_answer E w = Inr i \<Longrightarrow>
    rw_status w = Some 201 \<and> de_decodeID E (rw_body w) = Inr i"
  by (auto simp: demo_answer_def response_of_def Let_def
      split: if_splits sum.splits option.splits)

text \<open>
  C36. The producer and the server together: over a transport that hands its requests to the
  server on the production wiring, with any database faults, a producer whose requests reach
  createTask under their keys and whose decoder reads the id of a task document never reports that
  a repeat was not replayed.
\<close>

theorem producer_never_accuses_server:
  assumes "api_server SE (server_handler T) = Inr srv" and "db_ok s"
    and "de_client E = loopback (se_lib SE) srv ctx"
    and "list_all (\<lambda>k. demo_sends E endpoint q k \<and> posts_key (se_lib SE) k (request_of (q k)) \<and> k \<noteq> [])
      (map (demo_key runID) [0..<ticks])"
    and "\<forall>t b. Task_MarshalJSON (lib_jx (se_lib SE)) t = Inr b \<longrightarrow>
      de_decodeID E b = Inr (lib_uuid_string (se_lib SE) (ot_ID t))"
  shows "d_warned (snd (demo_loop E endpoint runID ticks demo_start s)) = []"
proof -
  let ?L = "se_lib SE" and ?ks = "map (demo_key runID) [0..<ticks]"
  let ?rs = "map (\<lambda>k. (ctx, request_of (q k), new_writer)) ?ks"
  let ?ws = "snd (serve_all ?L srv ?rs s)"
  obtain s' d where run: "demo_loop E endpoint runID ticks demo_start s = (s', d)"
    by (cases "demo_loop E endpoint runID ticks demo_start s")
  have inv: "demo_inv d" using demo_loop_inv [OF demo_inv_start, of E endpoint runID ticks s] run by simp
  have sends: "list_all (demo_sends E endpoint q) ?ks" using assms(4) by (simp add: list_all_iff)
  have A: "d_answers d = zip ?ks (map (demo_answer E) ?ws)"
    using demo_loop_answers [OF run] submit_each_serves [OF sends assms(3), of s]
    by (auto simp: demo_start_def case_prod_beta)
  have "broken_pair p = []" if p: "p \<in> set (pairs (d_answers d))" for p
  proof (cases p rule: broken_pair.cases)
    case (1 k a k' b)
    obtain i where i: "Suc (2 * i) < ticks" "p = (d_answers d ! (2 * i), d_answers d ! Suc (2 * i))"
      using pairs_nth [OF p] by (auto simp: A)
    let ?k = "demo_key runID (2 * i)"
    have key: "demo_key runID (Suc (2 * i)) = ?k" by (simp add: demo_key_def)
    have ans: "demo_answer E (?ws ! (2 * i)) = Inr a" "demo_answer E (?ws ! Suc (2 * i)) = Inr b"
      using 1 i by (simp_all add: A)
    have posts: "posts_key ?L ?k (request_of (q ?k))" "?k \<noteq> []"
      using assms(4) i(1) by (simp_all add: list_all_iff)
    have "\<exists>t u. created ?L (?ws ! (2 * i)) t \<and> created ?L (?ws ! Suc (2 * i)) u \<and> ot_ID t = ot_ID u"
    proof (rule api.http_same_key_same_id [OF assms(1) [unfolded server_handler_eq] assms(2),
          where i = "2 * i" and j = "Suc (2 * i)" and k = ?k and w = new_writer and w' = new_writer
            and r = "request_of (q ?k)" and r' = "request_of (q ?k)"])
      show "rw_status (?ws ! (2 * i)) = Some 201" "rw_status (?ws ! Suc (2 * i)) = Some 201"
        using answer_201 [OF ans(1)] answer_201 [OF ans(2)] by simp_all
    qed (use i(1) key posts in \<open>simp_all add: list_all_iff\<close>)
    then obtain t u where "created ?L (?ws ! (2 * i)) t" "created ?L (?ws ! Suc (2 * i)) u" "ot_ID t = ot_ID u"
      by blast
    with answer_201 [OF ans(1)] answer_201 [OF ans(2)] assms(5) have "a = b"
      by (auto simp: created_def)
    with 1 show ?thesis by simp
  qed auto
  then show ?thesis using inv by (simp add: run demo_inv_def)
qed

text \<open>
  A codec for the witness: a body is read as a request for the key it spells, a document is
  written as the strokes of the id in it.
\<close>

fun id_strokes :: "encoder \<Rightarrow> bytes" where
  "id_strokes (JxUUID u # e) = replicate (unat u) (CHR ''x'')"
| "id_strokes (_ # e) = id_strokes e"
| "id_strokes [] = []"

definition key_jx :: jx_env where
  "key_jx =
     \<lparr>jx_DecodeBytes = (\<lambda>b. \<lparr>doc_root = node_of id (VObj [(''handler'', VStr ''echo''),
          (''idempotency_key'', VStr b)]), doc_rest = Some (Sentinel ErrEOF)\<rparr>),
      jx_Bytes = id_strokes, jx_callback = id, go_range = id\<rparr>"

definition demo_request_for :: "string \<Rightarrow> client_request" where
  "demo_request_for key =
     \<lparr>cq_Method = ''POST'', cq_URL = \<lparr>u_Path = ''/v1/tasks'', u_RawPath = [], u_Rest = []\<rparr>,
      cq_ContentType = ''application/json'', cq_Body = key\<rparr>"

definition demo_producer_env :: "lib \<Rightarrow> ('c, 's) server \<Rightarrow> 'c \<Rightarrow> 's demo_env" where
  "demo_producer_env L srv ctx =
     \<lparr>de_getenv = (\<lambda>_. []), de_parseDuration = (\<lambda>_. Inl (Plain ''bad duration'')),
      de_joinPath = (\<lambda>_ p. Inr p), de_marshal = (\<lambda>r. Inr (dr_IdempotencyKey r)),
      de_newRequest = (\<lambda>m u. Inr \<lparr>cq_Method = m, cq_URL = \<lparr>u_Path = u, u_RawPath = [], u_Rest = []\<rparr>,
                                   cq_ContentType = [], cq_Body = []\<rparr>),
      de_client = loopback L srv ctx, de_status = (\<lambda>_. ''status''), de_decodeID = Inr,
      de_newUUID = Inr ''run'', de_shutdownErr = None\<rparr>"

lemma key_jx_decode:
  "CreateTaskRequest_Decode key_jx (doc_root (jx_DecodeBytes key_jx b)) (Some zero_create_task_request) =
     (Some \<lparr>cr_Handler = ''echo'', cr_Payload = \<lparr>op_Value = None, op_Set = False\<rparr>,
            cr_IdempotencyKey = NewOptString b\<rparr>, None)"
proof -
  let ?r = "\<lparr>cr_Handler = ''echo'', cr_Payload = \<lparr>op_Value = None, op_Set = False\<rparr>,
      cr_IdempotencyKey = NewOptString b\<rparr>"
  have val: "request_val key_jx ?r = VObj [(''handler'', VStr ''echo''), (''idempotency_key'', VStr b)]"
    by (simp add: request_val_def NewOptString_def)
  have "CreateTaskRequest_Decode key_jx (doc_root (jx_DecodeBytes key_jx b)) (Some zero_create_task_request) =
      (Some (read_request key_jx ?r), None)"
    by (rule request_decode_reads [where tm = id]) (simp_all add: val, simp add: key_jx_def)
  then show ?thesis by (simp add: read_request_def NewOptString_def)
qed

lemma key_jx_posts:
  assumes "1 \<le> length key" and "length key \<le> 128"
  shows "posts_key (demo_lib key_jx) key (request_of (demo_request_for key))"
proof -
  let ?L = "demo_lib key_jx" and ?r = "request_of (demo_request_for key)"
  let ?q = "\<lparr>cr_Handler = ''echo'', cr_Payload = \<lparr>op_Value = None, op_Set = False\<rparr>,
      cr_IdempotencyKey = NewOptString key\<rparr>"
  have jx: "lib_jx ?L = key_jx" by (simp add: demo_lib_def)
  have "CreateTaskRequest_Validate (lib_validate ?L) (Some ?q) = None"
    using assms by (simp add: CreateTaskRequest_Validate_ok [OF demo_lib_validate] NewOptString_def)
  moreover have "doc_rest (jx_DecodeBytes key_jx key) = Some (Sentinel ErrEOF)" by (simp add: key_jx_def)
  ultimately have "decode_body ?L ?r = (Some ?q, key, None)"
    using assms demo_json_media [of key_jx]
    by (auto simp: decode_body_def request_of_def demo_request_for_def jx key_jx_decode
        json_media_def Let_def)
  moreover have "serve_route ?L [] ?r = CallCreateTask False"
    by (simp add: serve_route_def serve_elem_def request_of_def demo_request_for_def cutPrefix_def)
  ultimately show ?thesis
    by (simp add: posts_key_def decodeCreateTaskRequest_def OptString_Get_def NewOptString_def)
qed

theorem producer_never_accuses_server_witness:
  "\<exists>srv. api_server (demo_server_env key_jx) (server_handler demo_types) = Inr srv
     \<and> d_warned (snd (demo_loop (demo_producer_env (demo_lib key_jx) srv ()) ''/v1/tasks'' ''r'' 2
          demo_start (demo_process (\<lambda>n. if n = 0 then FailAfter ''reset'' else NoFault)))) = []"
proof -
  let ?L = "demo_lib key_jx" and ?E = "\<lambda>srv. demo_producer_env (demo_lib key_jx) srv ()"
  obtain srv where srv: "api_server (demo_server_env key_jx) (server_handler demo_types) =
      Inr (srv :: (unit, process) server)"
    by (rule demo_server)
  have keys: "map (demo_key ''r'') [0..<2] = [''r-0'', ''r-0'']"
    by code_simp
  have sends: "demo_sends (?E srv) ''/v1/tasks'' demo_request_for key" for key
    by (simp add: demo_sends_def demo_body_def demo_producer_env_def demo_request_for_def)
  have dec: "\<forall>t b. Task_MarshalJSON (lib_jx ?L) t = Inr b \<longrightarrow>
      de_decodeID (?E srv) b = Inr (lib_uuid_string ?L (ot_ID t))"
    by (simp add: Task_MarshalJSON_def marshal_def Task_Encode_emit task_val_def demo_lib_def
        key_jx_def demo_producer_env_def)
  have "list_all (\<lambda>k. demo_sends (?E srv) ''/v1/tasks'' demo_request_for k
      \<and> posts_key ?L k (request_of (demo_request_for k)) \<and> k \<noteq> []) (map (demo_key ''r'') [0..<2])"
    unfolding keys by (simp add: sends key_jx_posts)
  from producer_never_accuses_server [OF srv demo_db_ok _ _ _, unfolded demo_server_lib,
      OF _ this dec, of "()"] srv
  show ?thesis by (auto simp: demo_producer_env_def)
qed

end
