(* ===== verification/Interleaved_Steps.thy ===== *)
theory Interleaved_Steps
  imports Go_Prelude
begin

text \<open>
  Goroutines over one state: each has a local part that only its own steps change, and a schedule
  names, step by step, the one that moves. What every step keeps, every schedule keeps.
\<close>

fun interleave ::
  "('x \<Rightarrow> 's \<Rightarrow> 's \<times> 'x) \<Rightarrow> nat list \<Rightarrow> 'x list \<times> 's \<Rightarrow> 'x list \<times> 's" where
  "interleave step [] (xs, s) = (xs, s)"
| "interleave step (i # is) (xs, s) =
     (if i < length xs then
        (case step (xs ! i) s of (s1, x1) \<Rightarrow> interleave step is (xs[i := x1], s1))
      else interleave step is (xs, s))"

text \<open>
  The contract of a step: \<open>ok\<close> is the invariant of the state, \<open>grows\<close> how the others may
  change it, \<open>holds\<close> what a goroutine relies on, which no growth takes away, and \<open>fixed\<close>
  the part of it that stays.
\<close>

locale interleaved =
  fixes step :: "'x \<Rightarrow> 's \<Rightarrow> 's \<times> 'x" and ok :: "'s \<Rightarrow> bool" and grows :: "'s \<Rightarrow> 's \<Rightarrow> bool"
    and holds :: "'s \<Rightarrow> 'x \<Rightarrow> bool" and fixed :: "'x \<Rightarrow> 'k"
  assumes grows_refl: "grows s s"
    and grows_trans: "grows s s' \<Longrightarrow> grows s' s'' \<Longrightarrow> grows s s''"
    and holds_mono: "holds s x \<Longrightarrow> grows s s' \<Longrightarrow> holds s' x"
    and step_law: "ok s \<Longrightarrow> holds s x \<Longrightarrow> step x s = (s', x') \<Longrightarrow>
      ok s' \<and> grows s s' \<and> holds s' x' \<and> fixed x' = fixed x"
begin

lemma interleave_law:
  assumes "ok s" and "\<And>x. x \<in> set xs \<Longrightarrow> holds s x" and "interleave step schedule (xs, s) = (xs', s')"
  shows "ok s' \<and> grows s s' \<and> (\<forall>x\<in>set xs'. holds s' x) \<and> map fixed xs' = map fixed xs"
  using assms
proof (induction schedule arbitrary: xs s)
  case Nil
  then show ?case by (auto simp: grows_refl)
next
  case (Cons i schedule)
  show ?case
  proof (cases "i < length xs")
    case True
    obtain s1 x1 where st: "step (xs ! i) s = (s1, x1)" by (cases "step (xs ! i) s")
    note eff = step_law [OF Cons.prems(1) Cons.prems(2) [OF nth_mem [OF True]] st]
    let ?xs = "xs[i := x1]"
    have keep: "holds s1 x" if "x \<in> set ?xs" for x
      using that set_update_subset_insert [of xs i x1] eff holds_mono [OF Cons.prems(2)] by blast
    have rest: "interleave step schedule (?xs, s1) = (xs', s')"
      using Cons.prems(3) True st by simp
    have "map fixed ?xs = map fixed xs"
      using True eff by (metis list_update_id map_update nth_map)
    with Cons.IH [OF conjunct1 [OF eff] keep rest] eff grows_trans show ?thesis by metis
  next
    case False
    with Cons.prems(3) Cons.IH [OF Cons.prems(1,2)] show ?thesis by simp
  qed
qed

end

end
