(* ===== verification/Submit_Concurrent.thy ===== *)
theory Submit_Concurrent
  imports Submit_Props Interleaved_Steps
begin

text \<open>
  Concurrent submits: the HTTP server runs every request in its own goroutine, so submits
  interleave between their calls on the shared process. \<open>Submit\<close> is cut where it touches it:
  minting id and time, the transaction, the decision with its replay read. Under the stub manager
  each of the last two is at most one SQL statement, which the database executes atomically.
\<close>

section \<open>Submit in stages\<close>

datatype submit_pc =
    Called
  | Minted task gotime
  | Ran task "gerr option"
  | Answered_with "gerr + task"

fun submit_stage ::
  "('c, 's) commander \<Rightarrow> 'c \<Rightarrow> submit_command \<Rightarrow> submit_pc \<Rightarrow> 's \<Rightarrow> 's \<times> submit_pc" where
  "submit_stage cm ctx cmd Called s =
     (case cm_newID cm s of
        (s1, Inl e) \<Rightarrow> (s1, Answered_with (Inl (Wrapf ''new id'' e)))
      | (s1, Inr i) \<Rightarrow>
          (case cm_now cm s1 of
             (s2, n) \<Rightarrow> (s2, Minted (tasks_Submit i (sc_Handler cmd) (sc_Payload cmd) (time_UTC n))
                            (time_UTC n))))"
| "submit_stage cm ctx cmd (Minted t now) s =
     (case cm_tx cm ctx (submit_tx cm t (key_of_command cmd) now) s of (s1, err) \<Rightarrow> (s1, Ran t err))"
| "submit_stage cm ctx cmd (Ran t err) s =
     (case submit_result cm ctx cmd t err s of (s1, r) \<Rightarrow> (s1, Answered_with r))"
| "submit_stage cm ctx cmd (Answered_with r) s = (s, Answered_with r)"

text \<open>Without interference the stages are \<open>Submit\<close>.\<close>

lemma submit_stages:
  "(case submit_stage cm ctx cmd Called s of (s1, p1) \<Rightarrow>
      case submit_stage cm ctx cmd p1 s1 of (s2, p2) \<Rightarrow> submit_stage cm ctx cmd p2 s2) =
   (case Submit cm ctx cmd s of (s', r) \<Rightarrow> (s', Answered_with r))"
  by (auto simp: Submit_def Let_def split: prod.split sum.split)

type_synonym 'c call = "'c \<times> submit_command \<times> submit_pc"

text \<open>A call with its arguments and how far it is.\<close>

fun submit_step :: "('c, 's) commander \<Rightarrow> 'c call \<Rightarrow> 's \<Rightarrow> 's \<times> 'c call" where
  "submit_step cm (ctx, cmd, pc) s =
     (case submit_stage cm ctx cmd pc s of (s1, pc1) \<Rightarrow> (s1, (ctx, cmd, pc1)))"

definition called :: "('c \<times> submit_command) list \<Rightarrow> 'c call list" where
  "called cmds = map (\<lambda>(ctx, cmd). (ctx, cmd, Called)) cmds"

text \<open>What a call at a point of its execution can rely on, in a store that only grows.\<close>

fun pc_ok :: "stored list \<Rightarrow> submit_command \<Rightarrow> submit_pc \<Rightarrow> bool" where
  "pc_ok rs cmd Called = True"
| "pc_ok rs cmd (Minted t now) = fresh_task cmd t"
| "pc_ok rs cmd (Ran t err) =
     (err = None \<longrightarrow> (\<exists>d. (key_of_command cmd, d) \<in> set rs \<and> t_id d = t_id t))"
| "pc_ok rs cmd (Answered_with r) =
     (case r of Inl _ \<Rightarrow> True
      | Inr t \<Rightarrow> \<exists>d. (key_of_command cmd, d) \<in> set rs \<and> t_id d = t_id t)"

lemma pc_ok_mono: "pc_ok rs cmd pc \<Longrightarrow> set rs \<subseteq> set rs' \<Longrightarrow> pc_ok rs' cmd pc"
  by (cases pc) (fastforce split: sum.splits)+

context submit_service
begin

lemma submit_stage_ok:
  assumes ok: "ok s" and pc: "pc_ok (rows s) cmd pc" and run: "submit_stage C ctx cmd pc s = (s', pc')"
  shows "ok s' \<and> set (rows s) \<subseteq> set (rows s') \<and> pc_ok (rows s') cmd pc'"
proof (cases pc)
  case Called
  obtain s1 ri where nid: "cm_newID C s = (s1, ri)" by (cases "cm_newID C s")
  have s1: "ok s1" "rows s1 = rows s" using id_ok [OF ok] id_rows [of s] nid by simp_all
  obtain s2 n where now: "cm_now C s1 = (s2, n)" by (cases "cm_now C s1")
  have s2: "ok s2" "rows s2 = rows s" using now_ok [OF s1(1)] now_rows [of s1] now s1 by simp_all
  show ?thesis
    using run Called nid now s1 s2 fresh_task_Submit by (cases ri) auto
next
  case (Minted t now)
  obtain err where tx: "cm_tx C ctx (submit_tx C t (key_of_command cmd) now) s = (s', err)"
    "pc' = Ran t err"
    using run Minted by (auto split: prod.splits)
  note eff = within_tx_effect [OF ok tx(1)]
  have "set (rows s) \<subseteq> set (rows s')" using eff(3) by auto
  moreover have "pc_ok (rows s') cmd pc'"
    using eff(2) by (fastforce simp: tx(2) stored_from_def)
  ultimately show ?thesis using eff(1) by blast
next
  case (Ran t err)
  obtain r where fin: "submit_result C ctx cmd t err s = (s', r)" "pc' = Answered_with r"
    using run Ran by (auto split: prod.splits)
  show ?thesis
  proof (cases "\<exists>e. err = Some e \<and> errors_Is e ErrConflict \<and> sc_IdempotencyKey cmd \<noteq> []")
    case True
    then obtain e where e: "err = Some e" "errors_Is e ErrConflict" "sc_IdempotencyKey cmd \<noteq> []"
      by blast
    obtain s1 g where get:
      "repo_GetByIdempotencyKey (cm_tasks C) ctx (sc_IdempotencyKey cmd) s = (s1, g)"
      by (cases "repo_GetByIdempotencyKey (cm_tasks C) ctx (sc_IdempotencyKey cmd) s")
    have s1: "ok s1" "rows s1 = rows s"
      using get_key_ok [OF ok] get_key_rows [OF ok] get by (metis fst_conv)+
    have "s' = s1" "r = Inr u \<Longrightarrow> g = Inr u" for u
      using fin(1) e get by (cases g; auto simp: submit_result_def)+
    then show ?thesis
      using s1 get_key_found [OF ok] get e(3)
      by (fastforce simp: fin(2) key_of_command_def split: sum.splits)
  next
    case False
    then have "s' = s" "\<forall>u. r = Inr u \<longrightarrow> u = t \<and> err = None"
      using fin(1) by (auto simp: submit_result_def split: option.splits if_splits)
    with pc Ran ok show ?thesis by (auto simp: fin(2) split: sum.splits)
  qed
next
  case (Answered_with r)
  with run pc ok show ?thesis by auto
qed

end

sublocale submit_service \<subseteq> calls: interleaved "submit_step C" ok
    "\<lambda>s s'. set (rows s) \<subseteq> set (rows s')" "\<lambda>s (ctx, cmd, pc). pc_ok (rows s) cmd pc"
    "\<lambda>(ctx, cmd, pc). (ctx, cmd)"
  by unfold_locales (auto intro: pc_ok_mono dest: submit_stage_ok split: prod.splits)

section \<open>On the production wiring\<close>

lemma called_Called: "(ctx, cmd, pc) \<in> set (called cmds) \<Longrightarrow> pc = Called"
  by (auto simp: called_def)

lemma interleave_server:
  assumes "db_ok s" and "interleave (submit_step (server_commander T)) schedule (called cmds, s) = (calls, s')"
  shows "db_ok s'" "(ctx, cmd, pc) \<in> set calls \<Longrightarrow> pc_ok (db_rows s') cmd pc"
    "map (\<lambda>(ctx, cmd, pc). (ctx, cmd)) calls = cmds"
proof -
  have inv: "db_ok s' \<and> set (db_rows s) \<subseteq> set (db_rows s')
      \<and> (\<forall>(ctx, cmd, pc)\<in>set calls. pc_ok (db_rows s') cmd pc)
      \<and> map (\<lambda>(ctx, cmd, pc). (ctx, cmd)) calls = map (\<lambda>(ctx, cmd, pc). (ctx, cmd)) (called cmds)"
    by (rule app.calls.interleave_law [OF assms(1) _ assms(2)]) (auto dest: called_Called)
  then show "db_ok s'" by blast
  show "pc_ok (db_rows s') cmd pc" if "(ctx, cmd, pc) \<in> set calls" using inv that by blast
  show "map (\<lambda>(ctx, cmd, pc). (ctx, cmd)) calls = cmds"
    using inv by (simp add: called_def case_prod_beta comp_def)
qed

text \<open>
  Idempotency under concurrency: however the steps of any number of submits interleave, and
  whatever connections fail, at every moment the table has at most one row per key, every call
  that has answered with a task has its row stored, and two calls under one key that have both
  answered with a task have answered with the same task id.
\<close>

lemma concurrent_submits_agree:
  assumes "db_ok s" and "interleave (submit_step (server_commander T)) schedule (called cmds, s) = (calls, s')"
    and "(ctx, cmd, Answered_with (Inr t)) \<in> set calls"
    and "(ctx', cmd', Answered_with (Inr u)) \<in> set calls"
    and "sc_IdempotencyKey cmd = k" and "sc_IdempotencyKey cmd' = k" and "k \<noteq> []"
  shows "t_id t = t_id u \<and> length (key_rows k' (db_rows s')) \<le> 1
    \<and> (\<exists>d. (Some k, d) \<in> set (db_rows s') \<and> t_id d = t_id t)"
proof -
  note inv = interleave_server [OF assms(1,2)]
  obtain d e where rows: "(Some k, d) \<in> set (db_rows s')" "t_id d = t_id t"
    "(Some k, e) \<in> set (db_rows s')" "t_id e = t_id u"
    using inv(2) [OF assms(3)] inv(2) [OF assms(4)] assms(5-7) by (auto simp: key_of_command_def)
  have uniq: "uniq_rows (db_rows s')" using inv(1) by (rule db_ok_uniq)
  from uniq_rows_key [OF uniq rows(1,3)] uniq_rows_key_count [OF uniq] rows show ?thesis by auto
qed

text \<open>Two clients whose inserts race, the loser's replay read last.\<close>

definition demo_race :: "unit call list \<times> process" where
  "demo_race = interleave (submit_step (server_commander demo_types)) [0, 1, 1, 0, 1, 0]
     (called [((), demo_command ''k''), ((), demo_command ''k'')], demo_process (\<lambda>_. NoFault))"

definition answered_id :: "submit_pc \<Rightarrow> uuid option" where
  "answered_id pc = (case pc of Answered_with (Inr t) \<Rightarrow> Some (t_id t) | _ \<Rightarrow> None)"

lemma answered_id_Some: "answered_id pc = Some n \<Longrightarrow> \<exists>t. pc = Answered_with (Inr t)"
  by (auto simp: answered_id_def split: submit_pc.splits sum.splits)

lemma demo_race_answers:
  "map (\<lambda>(ctx, cmd, pc). answered_id pc) (fst demo_race) = [Some 2, Some 2]"
  by code_simp

lemma concurrent_submits_agree_example:
  "\<exists>t u. map (\<lambda>(ctx, cmd, pc). pc) (fst demo_race) = [Answered_with (Inr t), Answered_with (Inr u)]
     \<and> t_id t = t_id u"
proof -
  obtain calls s' where race: "demo_race = (calls, s')" by (cases demo_race)
  have run: "interleave (submit_step (server_commander demo_types)) [0, 1, 1, 0, 1, 0]
      (called [((), demo_command ''k''), ((), demo_command ''k'')], demo_process (\<lambda>_. NoFault)) = (calls, s')"
    using race by (simp add: demo_race_def)
  have cmds: "map (\<lambda>(ctx, cmd, pc). (ctx, cmd)) calls = [((), demo_command ''k''), ((), demo_command ''k'')]"
    by (rule interleave_server(3) [OF demo_db_ok run])
  obtain p q where pq: "calls = [((), demo_command ''k'', p), ((), demo_command ''k'', q)]"
    using cmds by (auto simp: map_eq_Cons_conv)
  have "answered_id p = Some 2 \<and> answered_id q = Some 2"
    using demo_race_answers unfolding race pq by simp
  then obtain t u where "p = Answered_with (Inr t)" "q = Answered_with (Inr u)"
    using answered_id_Some by blast
  note calls = pq [unfolded this]
  have "t_id t = t_id u"
    using concurrent_submits_agree [OF demo_db_ok run, of "()" "demo_command ''k''" t "()"
        "demo_command ''k''" u "''k''"]
    by (simp add: calls demo_command_def)
  then show ?thesis unfolding race calls by simp
qed

end
