(* ===== verification/Http_Concurrent.thy ===== *)
theory Http_Concurrent
  imports Submit_Concurrent Api_Wiring
begin

text \<open>
  Concurrent requests: each runs in its own goroutine and touches the shared process only inside
  the one service call its handler makes. A request is cut there: what it asks of the service, the
  stages of the call, and the response, which depends on the state through the result alone.
\<close>

section \<open>A request in stages\<close>

text \<open>The command a request submits and the id it looks up, if it gets that far.\<close>

definition submits :: "lib \<Rightarrow> http_request \<Rightarrow> submit_command option" where
  "submits L r =
     (case serve_route L [] r of
        CallCreateTask _ \<Rightarrow>
          (case decodeCreateTaskRequest L r of
             (Some q, _, _, None) \<Rightarrow>
               (case request_payload L q of Inr b \<Rightarrow> Some (command_of_request b q) | Inl _ \<Rightarrow> None)
           | _ \<Rightarrow> None)
      | _ \<Rightarrow> None)"

definition looks_up :: "lib \<Rightarrow> http_request \<Rightarrow> uuid option" where
  "looks_up L r =
     (case serve_route L [] r of
        CallGetTask arg esc \<Rightarrow>
          (case decodeGetTaskParams L arg esc of Inr params \<Rightarrow> Some (gp_ID params) | Inl _ \<Rightarrow> None)
      | _ \<Rightarrow> None)"

text \<open>The server with a service whose answers are given.\<close>

definition answering :: "gerr + task \<Rightarrow> gerr + task_view \<Rightarrow> ('c, 's) api_handler" where
  "answering rt rv = NewHandler (\<lambda>ctx cmd s. (s, rt)) (\<lambda>ctx i s. (s, rv))"

definition with_answers ::
  "lib \<Rightarrow> ('c, 's) server \<Rightarrow> gerr + task \<Rightarrow> gerr + task_view \<Rightarrow> ('c, 's) server" where
  "with_answers L srv rt rv = srv\<lparr>sv_h := as_oas_handler L (answering rt rv)\<rparr>"

abbreviation uncalled :: gerr where "uncalled \<equiv> Plain ''not called''"

lemma with_answers_server:
  "api_server E h = Inr srv \<Longrightarrow>
   api_server E (answering rt rv) = Inr (with_answers (se_lib E) srv rt rv)"
  by (auto simp: api_server_def NewServer_def with_answers_def split: sum.splits)

lemma exchange_app_simps [simp]:
  "emit_tel t (ex\<lparr>ex_app := s\<rparr>) = (emit_tel t ex)\<lparr>ex_app := s\<rparr>"
  "on_rw f (ex\<lparr>ex_app := s\<rparr>) = (on_rw f ex)\<lparr>ex_app := s\<rparr>"
  "recorder_status (ex\<lparr>ex_app := s\<rparr>) = recorder_status ex"
  by (simp_all add: emit_tel_def on_rw_def recorder_status_def)

lemma run_handler_simps [simp]:
  "run_handler h ex = (ex\<lparr>ex_app := fst (h (ex_app ex))\<rparr>, snd (h (ex_app ex)))"
  by (simp add: run_handler_def case_prod_beta)

lemma create_factor:
  assumes "api_server E (NewHandler cmd qry) = Inr srv"
    and "serve_route (se_lib E) [] r = CallCreateTask esc"
  shows "ServeHTTP (se_lib E) srv ctx r ex =
    (case submits (se_lib E) r of
       None \<Rightarrow> ServeHTTP (se_lib E) (with_answers (se_lib E) srv rt rv) ctx r ex
     | Some c \<Rightarrow>
         (case cmd ctx c (ex_app ex) of
            (s', res) \<Rightarrow>
              ServeHTTP (se_lib E) (with_answers (se_lib E) srv res rv) ctx r (ex\<lparr>ex_app := s'\<rparr>)))"
proof -
  let ?L = "se_lib E"
  note cfg = api_server_cfg [OF assms(1)]
  obtain req raw cl de where dec: "decodeCreateTaskRequest ?L r = (req, raw, cl, de)"
    by (cases "decodeCreateTaskRequest ?L r")
  note shape = decode_shape [OF dec]
  show ?thesis
  proof (cases de)
    case (Some d)
    then show ?thesis
      using assms(2) dec
      by (cases req) (simp_all add: submits_def ServeHTTP_def handleCreateTaskRequest_def cfg
          with_answers_def Let_def)
  next
    case None
    with shape obtain q where q: "req = Some q" "cl = None" by blast
    show ?thesis
    proof (cases "request_payload ?L q")
      case (Inl err)
      then show ?thesis
        using assms(2) dec None q
        by (simp add: submits_def ServeHTTP_def handleCreateTaskRequest_def cfg with_answers_def
            as_oas_handler_def Handler_CreateTask_def Let_def)
    next
      case (Inr b)
      obtain s' res where call: "cmd ctx (command_of_request b q) (ex_app ex) = (s', res)"
        by (cases "cmd ctx (command_of_request b q) (ex_app ex)")
      then have run: "Handler_CreateTask ?L (NewHandler cmd qry) ctx q (ex_app ex) =
          (s', snd (Handler_CreateTask ?L (answering res rv) ctx q s'))"
        "fst (Handler_CreateTask ?L (answering res rv) ctx q s') = s'"
        using Inr
        by (simp_all add: Handler_CreateTask_def NewHandler_def answering_def command_of_request_def
            case_prod_beta split: sum.split)
      then show ?thesis
        using assms(2) dec None q Inr call
        by (simp add: submits_def ServeHTTP_def handleCreateTaskRequest_def cfg with_answers_def
            as_oas_handler_def Let_def cong: sum.case_cong prod.case_cong)
    qed
  qed
qed

lemma get_factor:
  assumes "api_server E (NewHandler cmd qry) = Inr srv"
    and "serve_route (se_lib E) [] r = CallGetTask arg esc"
  shows "ServeHTTP (se_lib E) srv ctx r ex =
    (case looks_up (se_lib E) r of
       None \<Rightarrow> ServeHTTP (se_lib E) (with_answers (se_lib E) srv rt rv) ctx r ex
     | Some i \<Rightarrow>
         (case qry ctx i (ex_app ex) of
            (s', res) \<Rightarrow>
              ServeHTTP (se_lib E) (with_answers (se_lib E) srv rt res) ctx r (ex\<lparr>ex_app := s'\<rparr>)))"
proof -
  let ?L = "se_lib E"
  note cfg = api_server_cfg [OF assms(1)]
  show ?thesis
  proof (cases "decodeGetTaskParams ?L arg esc")
    case (Inl d)
    then show ?thesis
      using assms(2)
      by (simp add: looks_up_def ServeHTTP_def handleGetTaskRequest_def cfg with_answers_def Let_def)
  next
    case (Inr params)
    obtain s' res where call: "qry ctx (gp_ID params) (ex_app ex) = (s', res)"
      by (cases "qry ctx (gp_ID params) (ex_app ex)")
    then have run: "Handler_GetTask (NewHandler cmd qry) ctx params (ex_app ex) =
        (s', snd (Handler_GetTask (answering rt res) ctx params s'))"
      "fst (Handler_GetTask (answering rt res) ctx params s') = s'"
      by (simp_all add: Handler_GetTask_def NewHandler_def answering_def split: sum.split)
    then show ?thesis
      using assms(2) Inr call
      by (simp add: looks_up_def ServeHTTP_def handleGetTaskRequest_def cfg with_answers_def
          as_oas_handler_def Let_def cong: sum.case_cong prod.case_cong)
  qed
qed

text \<open>The response depends on the state only through the answer of the one call.\<close>

lemma serve_factor:
  assumes "api_server E (NewHandler cmd qry) = Inr srv"
  shows "ServeHTTP (se_lib E) srv ctx r ex =
    (case submits (se_lib E) r of
       Some c \<Rightarrow>
         (case cmd ctx c (ex_app ex) of
            (s', res) \<Rightarrow>
              ServeHTTP (se_lib E) (with_answers (se_lib E) srv res rv) ctx r (ex\<lparr>ex_app := s'\<rparr>))
     | None \<Rightarrow>
         (case looks_up (se_lib E) r of
            Some i \<Rightarrow>
              (case qry ctx i (ex_app ex) of
                 (s', res) \<Rightarrow>
                   ServeHTTP (se_lib E) (with_answers (se_lib E) srv rt res) ctx r (ex\<lparr>ex_app := s'\<rparr>))
          | None \<Rightarrow> ServeHTTP (se_lib E) (with_answers (se_lib E) srv rt rv) ctx r ex))"
proof (cases "serve_route (se_lib E) [] r")
  case (CallCreateTask esc)
  then have "looks_up (se_lib E) r = None" by (simp add: looks_up_def)
  with create_factor [OF assms CallCreateTask, of ctx ex rt rv] show ?thesis
    by (simp split: option.split)
next
  case (CallGetTask arg esc)
  then have "submits (se_lib E) r = None" by (simp add: submits_def)
  with get_factor [OF assms CallGetTask, of ctx ex rt rv] show ?thesis
    by (simp split: option.split)
next
  case (CallNotAllowed p)
  then show ?thesis
    by (simp add: submits_def looks_up_def ServeHTTP_def api_server_cfg [OF assms] with_answers_def)
next
  case CallNotFound
  then show ?thesis
    by (simp add: submits_def looks_up_def ServeHTTP_def api_server_cfg [OF assms] with_answers_def)
qed

text \<open>
  A connection's progress: not read yet, in the service call, or answered. Reading the request
  and writing the response touch the connection only, so each is one stage.
\<close>

datatype http_pc =
    Arrived
  | Submitting submit_command submit_pc
  | Looking uuid
  | Replied resp_writer

definition reply ::
  "lib \<Rightarrow> ('c, 's) server \<Rightarrow> 'c \<Rightarrow> http_request \<Rightarrow> resp_writer \<Rightarrow> gerr + task \<Rightarrow> gerr + task_view \<Rightarrow>
   's \<Rightarrow> resp_writer" where
  "reply L srv ctx r w rt rv s =
     ex_rw (ServeHTTP L (with_answers L srv rt rv) ctx r \<lparr>ex_app = s, ex_rw = w, ex_tel = []\<rparr>)"

fun http_stage ::
  "lib \<Rightarrow> ('c, 's) server \<Rightarrow> ('c, 's) commander \<Rightarrow> ('c \<Rightarrow> uuid \<Rightarrow> ('s, task_view) op_res) \<Rightarrow>
   'c \<Rightarrow> http_request \<Rightarrow> resp_writer \<Rightarrow> http_pc \<Rightarrow> 's \<Rightarrow> 's \<times> http_pc" where
  "http_stage L srv cm qry ctx r w Arrived s =
     (s, case submits L r of
           Some cmd \<Rightarrow> Submitting cmd Called
         | None \<Rightarrow>
             (case looks_up L r of
                Some i \<Rightarrow> Looking i
              | None \<Rightarrow> Replied (reply L srv ctx r w (Inl uncalled) (Inl uncalled) s)))"
| "http_stage L srv cm qry ctx r w (Submitting cmd (Answered_with res)) s =
     (s, Replied (reply L srv ctx r w res (Inl uncalled) s))"
| "http_stage L srv cm qry ctx r w (Submitting cmd pc) s =
     (case submit_stage cm ctx cmd pc s of (s1, pc1) \<Rightarrow> (s1, Submitting cmd pc1))"
| "http_stage L srv cm qry ctx r w (Looking i) s =
     (case qry ctx i s of
        (s1, res) \<Rightarrow> (s1, Replied (reply L srv ctx r w (Inl uncalled) res s1)))"
| "http_stage L srv cm qry ctx r w (Replied w') s = (s, Replied w')"

type_synonym 'c conn = "'c \<times> http_request \<times> resp_writer \<times> http_pc"

fun http_step ::
  "lib \<Rightarrow> ('c, 's) server \<Rightarrow> ('c, 's) commander \<Rightarrow> ('c \<Rightarrow> uuid \<Rightarrow> ('s, task_view) op_res) \<Rightarrow>
   'c conn \<Rightarrow> 's \<Rightarrow> 's \<times> 'c conn" where
  "http_step L srv cm qry (ctx, r, w, pc) s =
     (case http_stage L srv cm qry ctx r w pc s of (s1, pc1) \<Rightarrow> (s1, (ctx, r, w, pc1)))"

definition arriving :: "('c \<times> http_request \<times> resp_writer) list \<Rightarrow> 'c conn list" where
  "arriving rs = map (\<lambda>(ctx, r, w). (ctx, r, w, Arrived)) rs"

lemma encode_app [simp]:
  "ex_app (fst (encodeCreateTaskResponse L res ex)) = ex_app ex"
  "ex_app (fst (encodeGetTaskResponse L res' ex)) = ex_app ex"
  by (cases res; simp add: encodeCreateTaskResponse_def)
    (cases res'; simp add: encodeGetTaskResponse_def)

lemma answering_state [simp]:
  "fst (h_CreateTask (sv_h (with_answers L srv rt rv)) ctx q s) = s"
  "fst (h_GetTask (sv_h (with_answers L srv rt rv)) ctx p s) = s"
  by (simp_all add: with_answers_def as_oas_handler_def answering_def NewHandler_def
      Handler_CreateTask_def Handler_GetTask_def Let_def case_prod_beta split: sum.split)

lemma with_answers_app:
  assumes "cfg_Middleware (sv_cfg srv) = None"
  shows "ex_app (ServeHTTP L (with_answers L srv rt rv) ctx r ex) = ex_app ex"
proof (cases "serve_route L (cfg_Prefix (sv_cfg (with_answers L srv rt rv))) r")
  case (CallCreateTask esc)
  obtain req raw cl de where dec: "decodeCreateTaskRequest L r = (req, raw, cl, de)"
    by (cases "decodeCreateTaskRequest L r")
  note shape = decode_shape [OF dec]
  have mw: "cfg_Middleware (sv_cfg (with_answers L srv rt rv)) = None"
    using assms by (simp add: with_answers_def)
  show ?thesis
  proof (cases de)
    case (Some d)
    then show ?thesis
      using CallCreateTask dec by (cases req) (simp_all add: ServeHTTP_def handleCreateTaskRequest_def Let_def)
  next
    case None
    with shape obtain q where "req = Some q" "cl = None" by blast
    with CallCreateTask dec None mw show ?thesis
      by (auto simp: ServeHTTP_def handleCreateTaskRequest_def Let_def case_prod_beta split: sum.split option.split)
  qed
next
  case (CallGetTask arg esc)
  have mw: "cfg_Middleware (sv_cfg (with_answers L srv rt rv)) = None"
    using assms by (simp add: with_answers_def)
  with CallGetTask show ?thesis
    by (cases "decodeGetTaskParams L arg esc")
      (auto simp: ServeHTTP_def handleGetTaskRequest_def Let_def case_prod_beta split: sum.split option.split)
qed (simp_all add: ServeHTTP_def)

text \<open>Alone, a request is answered in at most five stages, as \<open>ServeHTTP\<close> answers it.\<close>

lemma http_stages_alone:
  assumes "api_server E (NewHandler (Submit cm) qry) = Inr srv"
    and "ex' = ServeHTTP (se_lib E) srv ctx r \<lparr>ex_app = s, ex_rw = w, ex_tel = []\<rparr>"
  shows "interleave (http_step (se_lib E) srv cm qry) [0, 0, 0, 0, 0] ([(ctx, r, w, Arrived)], s) =
    ([(ctx, r, w, Replied (ex_rw ex'))], ex_app ex')"
proof -
  let ?L = "se_lib E"
  note app = with_answers_app [OF api_server_cfg(3) [OF assms(1)], of ?L _ _ ctx r]
  note ex' = assms(2) [unfolded serve_factor [OF assms(1), of ctx r _ "Inl uncalled" "Inl uncalled"]]
  show ?thesis
  proof (cases "submits ?L r")
    case (Some c)
    obtain s1 p1 where st1: "submit_stage cm ctx c Called s = (s1, p1)" by (cases "submit_stage cm ctx c Called s")
    obtain s2 p2 where st2: "submit_stage cm ctx c p1 s1 = (s2, p2)" by (cases "submit_stage cm ctx c p1 s1")
    obtain s3 p3 where st3: "submit_stage cm ctx c p2 s2 = (s3, p3)" by (cases "submit_stage cm ctx c p2 s2")
    obtain t res where sub: "Submit cm ctx c s = (t, res)" by (cases "Submit cm ctx c s")
    have "s3 = t \<and> p3 = Answered_with res"
      using submit_stages [of cm ctx c s] st1 st2 st3 sub by simp
    then have fin: "ex_app ex' = t" "reply ?L srv ctx r w res (Inl uncalled) t = ex_rw ex'"
      "s3 = t" "p3 = Answered_with res"
      using Some sub ex' by (simp_all add: reply_def app)
    consider (failed) e where "p1 = Answered_with (Inl e)" | (minted) u n where "p1 = Minted u n"
      using st1 by (auto split: prod.splits sum.splits)
    then show ?thesis
    proof cases
      case failed
      with st2 st3 fin have "s1 = t" "res = Inl e" by auto
      with failed fin Some st1 show ?thesis by simp
    next
      case (minted u n)
      moreover from this st2 obtain err where "p2 = Ran u err" by (auto split: prod.splits)
      moreover note fin Some st1 st2 st3
      ultimately show ?thesis by (simp del: submit_stage.simps)
    qed
  next
    case None
    then show ?thesis
      using ex' by (cases "looks_up ?L r") (auto simp: reply_def app split: prod.split)
  qed
qed

section \<open>What a connection can rely on\<close>

text \<open>The response of a created task: the answer of the service, whose row is in the store.\<close>

lemma reply_created:
  assumes "api_server E (NewHandler cmd qry) = Inr srv" and "fresh_writer w" and "rw_werr w = None"
    and "posts_key (se_lib E) k r" and "rw_status (reply (se_lib E) srv ctx r w rt rv s) = Some 201"
  shows "\<exists>t u. rt = Inr t \<and> created (se_lib E) (reply (se_lib E) srv ctx r w rt rv s) u \<and> ot_ID u = t_id t"
proof -
  let ?L = "se_lib E" and ?ex = "\<lparr>ex_app = s, ex_rw = w, ex_tel = []\<rparr>"
  let ?ex' = "ServeHTTP ?L (with_answers ?L srv rt rv) ctx r ?ex"
  have fresh: "fresh_writer (ex_rw ?ex)" using assms(2) by simp
  obtain esc where route: "serve_route ?L [] r = CallCreateTask esc"
    using assms(4) by (auto simp: posts_key_def split: route_call.splits)
  obtain e where e: "ended ?L CreateTaskOperation w [] e ?ex'"
    "create_ends ?L (answering rt rv) ctx r s (ex_app ?ex') e"
    by (rule serve_operation [OF with_answers_server [OF assms(1), of rt rv] fresh refl, of r ctx])
      (simp_all add: route is_operation_def op_of_call_def)
  have st: "ending_status ?L e = 201"
    using ended_status [OF e(1)] assms(5) by (simp add: reply_def)
  from e(2) show ?thesis
  proof (cases rule: create_endsE)
    case (answered q raw cl u)
    have "e = Answered 201 (Task_Encode u [])"
      using answered(3) e(1) assms(3) by (auto simp: ended_def)
    then have "created ?L (ex_rw ?ex') u"
      using e(1) by (simp add: ended_def created_def Task_MarshalJSON_def marshal_def)
    moreover obtain t where "rt = Inr t" "toOASTask t = Inr u"
      using answered(2)
      by (auto simp: Handler_CreateTask_def answering_def NewHandler_def Let_def case_prod_beta
          split: sum.splits)
    ultimately show ?thesis by (auto simp: reply_def toOASTask_def split: sum.splits)
  qed (use st classify_error_not_201 in \<open>auto simp: ending_status_def\<close>)
qed

lemma posts_key_submits:
  assumes "posts_key L k r" and "submits L r = Some cmd"
  shows "sc_IdempotencyKey cmd = k"
  using assms
  by (auto simp: posts_key_def submits_def command_of_request_def
      split: route_call.splits prod.splits option.splits sum.splits)

lemma posts_key_not_looked_up: "posts_key L k r \<Longrightarrow> looks_up L r = None"
  by (auto simp: posts_key_def looks_up_def split: route_call.splits)

definition replied_ok :: "lib \<Rightarrow> stored list \<Rightarrow> http_request \<Rightarrow> resp_writer \<Rightarrow> resp_writer \<Rightarrow> bool" where
  "replied_ok L rs r w v \<longleftrightarrow>
     (\<forall>k. posts_key L k r \<and> k \<noteq> [] \<and> fresh_writer w \<and> rw_werr w = None \<and> rw_status v = Some 201 \<longrightarrow>
        (\<exists>u d. created L v u \<and> (Some k, d) \<in> set rs \<and> t_id d = ot_ID u))"

fun conn_ok :: "lib \<Rightarrow> stored list \<Rightarrow> 'c conn \<Rightarrow> bool" where
  "conn_ok L rs (ctx, r, w, Arrived) = True"
| "conn_ok L rs (ctx, r, w, Submitting cmd pc) = (submits L r = Some cmd \<and> pc_ok rs cmd pc)"
| "conn_ok L rs (ctx, r, w, Looking i) = (looks_up L r = Some i)"
| "conn_ok L rs (ctx, r, w, Replied v) = replied_ok L rs r w v"

lemma conn_ok_mono: "conn_ok L rs c \<Longrightarrow> set rs \<subseteq> set rs' \<Longrightarrow> conn_ok L rs' c"
proof (induction L rs c rule: conn_ok.induct)
  case (4 L rs ctx r w v)
  then show ?case unfolding conn_ok.simps replied_ok_def by blast
qed (auto intro: pc_ok_mono)

locale http_backend =
  svc: submit_service C rows ok + rd: api_backend "Submit C" qry rows ok
  for C :: "('c, 's) commander" and qry :: "'c \<Rightarrow> uuid \<Rightarrow> ('s, task_view) op_res"
    and rows :: "'s \<Rightarrow> stored list" and ok :: "'s \<Rightarrow> bool"
begin

lemma reply_ok:
  assumes srv: "api_server E (NewHandler (Submit C) qry) = Inr srv"
    and answer: "\<And>cmd t. submits (se_lib E) r = Some cmd \<Longrightarrow> rt = Inr t \<Longrightarrow>
      \<exists>d. (key_of_command cmd, d) \<in> set rs \<and> t_id d = t_id t"
    and none: "submits (se_lib E) r = None \<Longrightarrow> rt = Inl uncalled"
  shows "replied_ok (se_lib E) rs r w (reply (se_lib E) srv ctx r w rt rv s)"
  unfolding replied_ok_def
proof (intro allI impI, elim conjE)
  fix k
  assume k: "posts_key (se_lib E) k r" "k \<noteq> []" and w: "fresh_writer w" "rw_werr w = None"
    and st: "rw_status (reply (se_lib E) srv ctx r w rt rv s) = Some 201"
  obtain t u where t: "rt = Inr t" "created (se_lib E) (reply (se_lib E) srv ctx r w rt rv s) u"
    "ot_ID u = t_id t"
    using reply_created [OF srv w k(1) st] by blast
  then obtain cmd where cmd: "submits (se_lib E) r = Some cmd" using none by fastforce
  obtain d where "(key_of_command cmd, d) \<in> set rs" "t_id d = t_id t" using answer [OF cmd t(1)] by blast
  moreover have "key_of_command cmd = Some k"
    using posts_key_submits [OF k(1) cmd] k(2) by (simp add: key_of_command_def)
  ultimately show "\<exists>u d. created (se_lib E) (reply (se_lib E) srv ctx r w rt rv s) u
      \<and> (Some k, d) \<in> set rs \<and> t_id d = ot_ID u"
    using t by metis
qed

lemma http_stage_ok:
  assumes srv: "api_server E (NewHandler (Submit C) qry) = Inr srv" and ok: "ok s"
    and conn: "conn_ok (se_lib E) (rows s) (ctx, r, w, pc)"
    and run: "http_stage (se_lib E) srv C qry ctx r w pc s = (s', pc')"
  shows "ok s' \<and> set (rows s) \<subseteq> set (rows s') \<and> conn_ok (se_lib E) (rows s') (ctx, r, w, pc')"
proof (cases pc)
  case Arrived
  with run ok show ?thesis
    by (auto simp: intro!: reply_ok [OF srv] split: option.splits)
next
  case (Submitting cmd spc)
  with conn have cmd: "submits (se_lib E) r = Some cmd" "pc_ok (rows s) cmd spc" by simp_all
  show ?thesis
  proof (cases "\<exists>res. spc = Answered_with res")
    case True
    then obtain res where res: "spc = Answered_with res" by blast
    with run Submitting have "s' = s" "pc' = Replied (reply (se_lib E) srv ctx r w res (Inl uncalled) s)"
      by auto
    moreover have "replied_ok (se_lib E) (rows s) r w (reply (se_lib E) srv ctx r w res (Inl uncalled) s)"
      by (rule reply_ok [OF srv]) (use cmd res in auto)
    ultimately show ?thesis using ok by simp
  next
    case False
    obtain s1 pc1 where st: "submit_stage C ctx cmd spc s = (s1, pc1)"
      by (cases "submit_stage C ctx cmd spc s")
    with False run Submitting have "s' = s1" "pc' = Submitting cmd pc1" by (cases spc; simp)+
    with svc.submit_stage_ok [OF ok cmd(2) st] cmd(1) show ?thesis by simp
  qed
next
  case (Looking i)
  obtain s1 res where q: "qry ctx i s = (s1, res)" by (cases "qry ctx i s")
  have "submits (se_lib E) r = None"
    using conn Looking by (auto simp: looks_up_def submits_def split: route_call.splits)
  then have "replied_ok (se_lib E) (rows s1) r w (reply (se_lib E) srv ctx r w (Inl uncalled) res s1)"
    by (intro reply_ok [OF srv]) auto
  with run Looking q rd.qry_frame [OF ok q] show ?thesis by auto
next
  case (Replied v)
  with run conn ok show ?thesis by simp
qed

lemma http_steps:
  assumes "api_server E (NewHandler (Submit C) qry) = Inr srv"
  shows "interleaved (http_step (se_lib E) srv C qry) ok (\<lambda>s s'. set (rows s) \<subseteq> set (rows s'))
    (\<lambda>s. conn_ok (se_lib E) (rows s)) (\<lambda>(ctx, r, w, pc). (ctx, r, w))"
proof unfold_locales
  fix s x s' x'
  assume ok: "ok s" and x: "conn_ok (se_lib E) (rows s) x" and run: "http_step (se_lib E) srv C qry x s = (s', x')"
  obtain ctx r w pc where x': "x = (ctx, r, w, pc)" by (cases x)
  with run obtain pc' where "http_stage (se_lib E) srv C qry ctx r w pc s = (s', pc')" "x' = (ctx, r, w, pc')"
    by (auto split: prod.splits)
  with http_stage_ok [OF assms ok x [unfolded x']] x'
  show "ok s' \<and> set (rows s) \<subseteq> set (rows s') \<and> conn_ok (se_lib E) (rows s') x'
      \<and> (case x' of (ctx, r, w, pc) \<Rightarrow> (ctx, r, w)) = (case x of (ctx, r, w, pc) \<Rightarrow> (ctx, r, w))"
    by simp
qed (auto intro: conn_ok_mono)

lemma http_interleaved:
  assumes "api_server E (NewHandler (Submit C) qry) = Inr srv" and "ok s"
    and "interleave (http_step (se_lib E) srv C qry) schedule (arriving rs, s) = (conns, s')"
  shows "ok s' \<and> (\<forall>c\<in>set conns. conn_ok (se_lib E) (rows s') c)
    \<and> map (\<lambda>(ctx, r, w, pc). (ctx, r, w)) conns = rs"
proof -
  have "conn_ok (se_lib E) (rows s) c" if "c \<in> set (arriving rs)" for c
    using that by (auto simp: arriving_def)
  from interleaved.interleave_law [OF http_steps [OF assms(1)] assms(2) this assms(3)]
  show ?thesis by (auto simp: arriving_def comp_def case_prod_beta)
qed

lemma http_concurrent_same_id:
  assumes "api_server E (NewHandler (Submit C) qry) = Inr srv" and "ok s"
    and "interleave (http_step (se_lib E) srv C qry) schedule (arriving rs, s) = (conns, s')"
    and "\<forall>(ctx, r, w)\<in>set rs. fresh_writer w \<and> rw_werr w = None"
    and "(ctx, r, w, Replied v) \<in> set conns" and "posts_key (se_lib E) k r" and "rw_status v = Some 201"
    and "(ctx', r', w', Replied v') \<in> set conns" and "posts_key (se_lib E) k r'" and "rw_status v' = Some 201"
    and "k \<noteq> []"
  shows "\<exists>t u. created (se_lib E) v t \<and> created (se_lib E) v' u \<and> ot_ID t = ot_ID u
    \<and> length (key_rows k (rows s')) = 1"
proof -
  note run = http_interleaved [OF assms(1-3)]
  have fresh: "fresh_writer w0 \<and> rw_werr w0 = None" if "(c0, r0, w0, p0) \<in> set conns" for c0 r0 w0 p0
  proof -
    have "(c0, r0, w0) \<in> set (map (\<lambda>(ctx, r, w, pc). (ctx, r, w)) conns)" using that by force
    with run have "(c0, r0, w0) \<in> set rs" by metis
    with assms(4) show ?thesis by blast
  qed
  have row: "\<exists>t d. created (se_lib E) v0 t \<and> (Some k, d) \<in> set (rows s') \<and> t_id d = ot_ID t"
    if "(c0, r0, w0, Replied v0) \<in> set conns" "posts_key (se_lib E) k r0" "rw_status v0 = Some 201" for c0 r0 w0 v0
  proof -
    have "conn_ok (se_lib E) (rows s') (c0, r0, w0, Replied v0)" using run that(1) by blast
    with that(2,3) fresh [OF that(1)] assms(11) show ?thesis by (auto simp: replied_ok_def)
  qed
  obtain t d where t: "created (se_lib E) v t" "(Some k, d) \<in> set (rows s')" "t_id d = ot_ID t"
    using row [OF assms(5-7)] by blast
  obtain u e where u: "created (se_lib E) v' u" "(Some k, e) \<in> set (rows s')" "t_id e = ot_ID u"
    using row [OF assms(8-10)] by blast
  have uniq: "uniq_rows (rows s')" using run rd.rows_uniq by blast
  have "length (key_rows k (rows s')) \<le> 1" by (rule uniq_rows_key_count [OF uniq])
  moreover have "key_rows k (rows s') \<noteq> []" using t(2) by (force simp: key_rows_def filter_empty_conv)
  ultimately have "length (key_rows k (rows s')) = 1" by (cases "key_rows k (rows s')") auto
  moreover have "ot_ID t = ot_ID u" using uniq_rows_key [OF uniq t(2) u(2)] t(3) u(3) by simp
  ultimately show ?thesis using t(1) u(1) by blast
qed

end

section \<open>On the production wiring\<close>

interpretation http: http_backend "server_commander T" "Querier_Get (server_repo T)" db_rows db_ok for T
  by (intro http_backend.intro app.submit_service_axioms api.api_backend_axioms)

text \<open>
  C24. Idempotency on the wire, under concurrency: however the goroutines of any requests
  interleave between the statements of their submits and reads, and whatever connections to the
  database fail, two requests that create a task under the same idempotency key and have both
  been answered with 201 carry the same task id in their bodies, and the table has exactly one row
  for the key.
\<close>

theorem http_concurrent_same_key:
  assumes "api_server E (server_handler T) = Inr srv" and "db_ok s"
    and "interleave (http_step (se_lib E) srv (server_commander T) (Querier_Get (server_repo T)))
      schedule (arriving rs, s) = (conns, s')"
    and "\<forall>(ctx, r, w)\<in>set rs. fresh_writer w \<and> rw_werr w = None"
    and "(ctx, r, w, Replied v) \<in> set conns" and "posts_key (se_lib E) k r" and "rw_status v = Some 201"
    and "(ctx', r', w', Replied v') \<in> set conns" and "posts_key (se_lib E) k r'" and "rw_status v' = Some 201"
    and "k \<noteq> []"
  shows "\<exists>t u. created (se_lib E) v t \<and> created (se_lib E) v' u \<and> ot_ID t = ot_ID u
    \<and> length (key_rows k (db_rows s')) = 1"
  using assms unfolding server_handler_eq by (rule http.http_concurrent_same_id)

text \<open>Two posts whose inserts race.\<close>

definition demo_http_race :: "unit conn list \<times> process" where
  "demo_http_race =
     interleave (http_step (demo_lib demo_jx) (demo_srv (server_handler demo_types))
         (server_commander demo_types) (Querier_Get (server_repo demo_types)))
       [0, 1, 0, 1, 1, 0, 0, 1, 1, 0] (arriving demo_posts, demo_process (\<lambda>_. NoFault))"

definition replied_status :: "'c conn \<Rightarrow> nat option" where
  "replied_status c = (case c of (ctx, r, w, pc) \<Rightarrow> (case pc of Replied v \<Rightarrow> rw_status v | _ \<Rightarrow> None))"

lemma replied_status_Some:
  "replied_status (ctx, r, w, pc) = Some n \<Longrightarrow> \<exists>v. pc = Replied v \<and> rw_status v = Some n"
  by (auto simp: replied_status_def split: http_pc.splits)

lemma demo_http_race_status: "map replied_status (fst demo_http_race) = [Some 201, Some 201]"
  by code_simp

theorem http_concurrent_same_key_witness:
  "\<exists>ctx r w v ctx' r' w' v' t u.
     fst demo_http_race = [(ctx, r, w, Replied v), (ctx', r', w', Replied v')]
     \<and> created (demo_lib demo_jx) v t \<and> created (demo_lib demo_jx) v' u \<and> ot_ID t = ot_ID u"
proof -
  let ?step = "http_step (demo_lib demo_jx) (demo_srv (server_handler demo_types))
      (server_commander demo_types) (Querier_Get (server_repo demo_types))"
  let ?r = "demo_http ''POST'' ''/v1/tasks''"
  obtain conns s' where race: "demo_http_race = (conns, s')" by (cases demo_http_race)
  note run = race [unfolded demo_http_race_def]
  have "map (\<lambda>(ctx, r, w, pc). (ctx, r, w)) conns = demo_posts"
    using http.http_interleaved [of "demo_server_env demo_jx" demo_types, unfolded demo_server_lib,
      folded server_handler_eq, OF demo_srv demo_db_ok run] by blast
  then obtain p q where pq: "conns = [((), ?r, demo_writer, p), ((), ?r, demo_writer, q)]"
    by (auto simp: demo_posts_def map_eq_Cons_conv)
  have "replied_status ((), ?r, demo_writer, p) = Some 201 \<and> replied_status ((), ?r, demo_writer, q) = Some 201"
    using demo_http_race_status unfolding race pq by simp
  then obtain v v' where v: "p = Replied v" "rw_status v = Some 201" "q = Replied v'" "rw_status v' = Some 201"
    using replied_status_Some [of "()" ?r demo_writer p] replied_status_Some [of "()" ?r demo_writer q]
    by auto
  have "\<forall>(ctx, r, w)\<in>set demo_posts. fresh_writer w \<and> rw_werr w = None" by (simp add: demo_posts_def)
  note agree = http_concurrent_same_key [of "demo_server_env demo_jx" demo_types, unfolded demo_server_lib,
      OF demo_srv demo_db_ok run this, of "()" ?r demo_writer v "''k''" "()" ?r demo_writer v']
  have "\<exists>t u. created (demo_lib demo_jx) v t \<and> created (demo_lib demo_jx) v' u \<and> ot_ID t = ot_ID u"
    using agree demo_posts_key v by (auto simp: pq)
  then show ?thesis unfolding race pq v by auto
qed

end
