(* ===== verification/Http_Spec.thy ===== *)
theory Http_Spec
  imports Http_Concurrent
begin

text \<open>
  The service as its clients see it: an abstract specification of the answers to requests over the
  abstract store of \<open>App_Wiring\<close>, and its refinement by the whole server, from the router down
  to the rows of the tasks table.
\<close>

section \<open>The specification\<close>

text \<open>
  An answer is a status and, for an operation, the document in the body. Errors are rendered by
  their class; the class of an error is the error handler's.
\<close>

type_synonym answer = "nat \<times> encoder option"

definition error_answer :: "lib \<Rightarrow> gerr \<Rightarrow> answer" where
  "error_answer L err =
     (case classify_error L err of
        (c, symbol, msg) \<Rightarrow> (c, Some (Error_Encode \<lparr>oe_Code = symbol, oe_Message = msg\<rparr> [])))"

definition task_answer :: "lib \<Rightarrow> nat \<Rightarrow> gerr + oas_task \<Rightarrow> answer" where
  "task_answer L c r =
     (case r of Inl err \<Rightarrow> error_answer L err | Inr t \<Rightarrow> (c, Some (Task_Encode t [])))"

text \<open>
  What a request is answered, by the result of the submit or the read it leads to; a request that
  leads to neither is refused.
\<close>

definition submit_answer :: "lib \<Rightarrow> gerr + task \<Rightarrow> answer" where
  "submit_answer L res =
     (case res of
        Inl err \<Rightarrow> error_answer L (Wrapf ''submit task'' err)
      | Inr t \<Rightarrow> task_answer L 201 (toOASTask t))"

definition lookup_answer :: "lib \<Rightarrow> task option \<Rightarrow> answer" where
  "lookup_answer L found =
     (case found of
        None \<Rightarrow> (404, Some (GetTaskNotFound_Encode
                  \<lparr>oe_Code = ErrorCodeTaskNotFound, oe_Message = ''task ID not found''\<rparr> []))
      | Some t \<Rightarrow> task_answer L 200 (toOASTask t))"

definition refusal :: "lib \<Rightarrow> http_request \<Rightarrow> answer" where
  "refusal L r =
     (case serve_route L [] r of
        CallNotFound \<Rightarrow> (404, None)
      | CallNotAllowed p \<Rightarrow> (if rq_Method r = ''OPTIONS'' then 204 else 405, None)
      | CallCreateTask esc \<Rightarrow>
          (case decodeCreateTaskRequest L r of
             (_, _, _, Some d) \<Rightarrow> error_answer L (DecodeRequestError ''createTask'' d)
           | (q, _, _, None) \<Rightarrow>
               (case request_payload L (the q) of
                  Inl err \<Rightarrow> error_answer L err
                | Inr b \<Rightarrow> (0, None)))
      | CallGetTask arg esc \<Rightarrow>
          (case decodeGetTaskParams L arg esc of
             Inl d \<Rightarrow> error_answer L (DecodeParamsError ''getTask'' d)
           | Inr params \<Rightarrow> (0, None)))"

text \<open>A read takes one statement and finds the stored task with the id.\<close>

definition spec_get :: "uuid \<Rightarrow> spec_state \<Rightarrow> spec_state \<times> task option" where
  "spec_get i a =
     (a\<lparr>ss_stmt := Suc (ss_stmt a)\<rparr>,
      map_option snd (List.find (\<lambda>x. t_id (snd x) = i) (ss_rows a)))"

definition spec_request ::
  "lib \<Rightarrow> pg_types \<Rightarrow> (nat \<Rightarrow> int) \<Rightarrow> (nat \<Rightarrow> gotime) \<Rightarrow> (nat \<Rightarrow> uuid) \<Rightarrow> http_request \<Rightarrow>
   spec_state \<Rightarrow> spec_state \<times> answer" where
  "spec_request L T dbnow clock ids r a =
     (case submits L r of
        Some cmd \<Rightarrow>
          (case spec_submit T dbnow clock ids cmd a of (a1, res) \<Rightarrow> (a1, submit_answer L res))
      | None \<Rightarrow>
          (case looks_up L r of
             Some i \<Rightarrow> (case spec_get i a of (a1, found) \<Rightarrow> (a1, lookup_answer L found))
           | None \<Rightarrow> (a, refusal L r)))"

fun spec_requests ::
  "lib \<Rightarrow> pg_types \<Rightarrow> (nat \<Rightarrow> int) \<Rightarrow> (nat \<Rightarrow> gotime) \<Rightarrow> (nat \<Rightarrow> uuid) \<Rightarrow> http_request list \<Rightarrow>
   spec_state \<Rightarrow> spec_state \<times> answer list" where
  "spec_requests L T dbnow clock ids [] a = (a, [])"
| "spec_requests L T dbnow clock ids (r # rs) a =
     (case spec_request L T dbnow clock ids r a of
        (a1, x) \<Rightarrow>
          (case spec_requests L T dbnow clock ids rs a1 of (a2, xs) \<Rightarrow> (a2, x # xs)))"

text \<open>A response gives an answer: its status, and its body the answer's document.\<close>

definition gives :: "lib \<Rightarrow> answer \<Rightarrow> resp_writer \<Rightarrow> bool" where
  "gives L x w \<longleftrightarrow> rw_status w = Some (fst x)
     \<and> (case snd x of None \<Rightarrow> True | Some e \<Rightarrow> rw_body w = jx_Bytes (lib_jx L) e)"

section \<open>One request\<close>

text \<open>The values of a request that creates a task are ones the database accepts.\<close>

definition acceptable :: "lib \<Rightarrow> pg_types \<Rightarrow> http_request \<Rightarrow> bool" where
  "acceptable L T r = (case submits L r of None \<Rightarrow> True | Some cmd \<Rightarrow> accepts T cmd)"

lemma ended_gives:
  assumes "ended L op w ts e ex" and "rw_werr w = None"
  shows "e = Failed err \<Longrightarrow> gives L (error_answer L err) (ex_rw ex)"
    and "e = Answered c enc \<Longrightarrow> gives L (c, Some enc) (ex_rw ex)"
    and "e \<noteq> Broken c err"
  using assms by (auto simp: ended_def gives_def error_answer_def case_prod_beta)

lemma view_of_task:
  "toOASTaskView \<lparr>tv_ID = t_id t, tv_Status = t_status t, tv_Handler = t_handler t,
     tv_CreatedAt = t_createdAt t\<rparr> = toOASTask t"
  by (simp add: toOASTaskView_def toOASTask_def split: sum.split)

text \<open>The response to the answer of the service: the same for every state.\<close>

lemma answering_create:
  "Handler_CreateTask L (answering rt rv) ctx q s =
     (s, case request_payload L q of
           Inl err \<Rightarrow> Inl err
         | Inr b \<Rightarrow> (case rt of
             Inl err \<Rightarrow> Inl (Wrapf ''submit task'' err)
           | Inr t \<Rightarrow> (case toOASTask t of
               Inl err \<Rightarrow> Inl err | Inr dto \<Rightarrow> Inr (CreateTaskResTask dto))))"
  by (simp add: Handler_CreateTask_def NewHandler_def answering_def Let_def case_prod_beta split: sum.split)

lemma submitsE:
  assumes "submits L r = Some cmd"
  obtains esc q raw cl b where "serve_route L [] r = CallCreateTask esc"
    "decodeCreateTaskRequest L r = (Some q, raw, cl, None)" "request_payload L q = Inr b"
proof (cases "serve_route L [] r")
  case (CallCreateTask esc)
  obtain req raw cl de where dec: "decodeCreateTaskRequest L r = (req, raw, cl, de)"
    by (cases "decodeCreateTaskRequest L r")
  with assms CallCreateTask obtain q where q: "req = Some q" "de = None"
    by (cases req; cases de) (simp_all add: submits_def)
  with assms CallCreateTask dec obtain b where "request_payload L q = Inr b"
    by (cases "request_payload L q") (simp_all add: submits_def)
  with that CallCreateTask dec q show ?thesis by blast
qed (use assms in \<open>simp_all add: submits_def\<close>)

lemma reply_gives:
  assumes "api_server E h = Inr srv" and "fresh_writer w" and "rw_werr w = None"
  shows "submits (se_lib E) r = Some cmd \<Longrightarrow>
      gives (se_lib E) (submit_answer (se_lib E) rt) (reply (se_lib E) srv ctx r w rt rv s)"
    and "looks_up (se_lib E) r = Some i \<Longrightarrow>
      (case found of None \<Rightarrow> \<exists>e. rv = Inl e \<and> errors_Is e ErrNotFound
       | Some t \<Rightarrow> rv = Inr \<lparr>tv_ID = t_id t, tv_Status = t_status t, tv_Handler = t_handler t,
           tv_CreatedAt = t_createdAt t\<rparr>) \<Longrightarrow>
      gives (se_lib E) (lookup_answer (se_lib E) found) (reply (se_lib E) srv ctx r w rt rv s)"
    and "submits (se_lib E) r = None \<Longrightarrow> looks_up (se_lib E) r = None \<Longrightarrow>
      gives (se_lib E) (refusal (se_lib E) r) (reply (se_lib E) srv ctx r w rt rv s)"
proof -
  let ?L = "se_lib E" and ?h = "answering rt rv"
  let ?ex = "\<lparr>ex_app = s, ex_rw = w, ex_tel = []\<rparr>"
  let ?ex' = "ServeHTTP ?L (with_answers ?L srv rt rv) ctx r ?ex"
  have fresh: "fresh_writer (ex_rw ?ex)" using assms(2) by simp
  have srv: "api_server E ?h = Inr (with_answers ?L srv rt rv)" by (rule with_answers_server [OF assms(1)])
  have create: "\<exists>e. ended ?L CreateTaskOperation w [] e ?ex' \<and> create_ends ?L ?h ctx r s (ex_app ?ex') e"
    if "serve_route ?L [] r = CallCreateTask esc" for esc
    by (rule serve_operation [OF srv fresh refl, of r ctx]) (auto simp: that is_operation_def op_of_call_def)
  have get: "\<exists>e. ended ?L GetTaskOperation w [] e ?ex' \<and> get_ends ?L ?h ctx arg esc s (ex_app ?ex') e"
    if "serve_route ?L [] r = CallGetTask arg esc" for arg esc
    by (rule serve_operation [OF srv fresh refl, of r ctx]) (auto simp: that is_operation_def op_of_call_def)
  show "gives ?L (submit_answer ?L rt) (reply ?L srv ctx r w rt rv s)" if sub: "submits ?L r = Some cmd"
  proof -
    obtain esc q raw cl b where q: "serve_route ?L [] r = CallCreateTask esc"
      "decodeCreateTaskRequest ?L r = (Some q, raw, cl, None)" "request_payload ?L q = Inr b"
      by (rule submitsE [OF sub])
    obtain e where e: "ended ?L CreateTaskOperation w [] e ?ex'" "create_ends ?L ?h ctx r s (ex_app ?ex') e"
      using create [OF q(1)] by blast
    show ?thesis
      using e(2) q(2,3) ended_gives [OF e(1) assms(3)]
      by (auto simp: reply_def create_ends_def answering_create submit_answer_def task_answer_def
          split: sum.splits)
  qed
  show "gives ?L (lookup_answer ?L found) (reply ?L srv ctx r w rt rv s)"
    if look: "looks_up ?L r = Some i" and rv: "case found of None \<Rightarrow> \<exists>e. rv = Inl e \<and> errors_Is e ErrNotFound
       | Some t \<Rightarrow> rv = Inr \<lparr>tv_ID = t_id t, tv_Status = t_status t, tv_Handler = t_handler t,
           tv_CreatedAt = t_createdAt t\<rparr>"
  proof -
    obtain arg esc params where p: "serve_route ?L [] r = CallGetTask arg esc"
      "decodeGetTaskParams ?L arg esc = Inr params"
      using look by (auto simp: looks_up_def split: route_call.splits sum.splits)
    obtain e where e: "ended ?L GetTaskOperation w [] e ?ex'" "get_ends ?L ?h ctx arg esc s (ex_app ?ex') e"
      using get [OF p(1)] by blast
    show ?thesis
      using e(2) p(2) rv ended_gives [OF e(1) assms(3)]
      by (cases found)
        (auto simp: reply_def get_ends_def Handler_GetTask_def NewHandler_def answering_def view_of_task
          lookup_answer_def task_answer_def split: sum.splits)
  qed
  show "gives ?L (refusal ?L r) (reply ?L srv ctx r w rt rv s)"
    if none: "submits ?L r = None" "looks_up ?L r = None"
  proof (cases "serve_route ?L [] r")
    case (CallCreateTask esc)
    obtain req raw cl de where dec: "decodeCreateTaskRequest ?L r = (req, raw, cl, de)"
      by (cases "decodeCreateTaskRequest ?L r")
    obtain e where e: "ended ?L CreateTaskOperation w [] e ?ex'" "create_ends ?L ?h ctx r s (ex_app ?ex') e"
      using create [OF CallCreateTask] by blast
    show ?thesis
      using e(2) dec none(1) decode_shape [OF dec] ended_gives [OF e(1) assms(3)]
      by (cases de)
        (auto simp: reply_def create_ends_def answering_create refusal_def submits_def CallCreateTask
          split: sum.splits)
  next
    case (CallGetTask arg esc)
    obtain e where e: "ended ?L GetTaskOperation w [] e ?ex'" "get_ends ?L ?h ctx arg esc s (ex_app ?ex') e"
      using get [OF CallGetTask] by blast
    show ?thesis
      using e(2) none(2) ended_gives [OF e(1) assms(3)]
      by (auto simp: reply_def get_ends_def refusal_def looks_up_def CallGetTask split: sum.splits)
  next
    case (CallNotAllowed p)
    then show ?thesis
      using assms(2) by (auto simp: reply_def refusal_def ServeHTTP_def api_server_cfg [OF srv] gives_def
          notAllowed_def fresh_writer_def set_unless_empty_def Let_def split: option.split)
  next
    case CallNotFound
    then show ?thesis
      using assms(2) by (auto simp: reply_def refusal_def ServeHTTP_def api_server_cfg [OF srv] gives_def
          http_NotFound_def fresh_writer_def)
  qed
qed

text \<open>A read on a working database, for any number of statements before it.\<close>

lemma get_working:
  assumes "db_ok s" and "snd (pg_env s (pg_count s)) = NoFault"
    and "Querier_Get (server_repo T) ctx i s = (s', res)"
  shows "s' = s\<lparr>pg_count := Suc (pg_count s)\<rparr>"
    "case map_option snd (List.find (\<lambda>x. t_id (snd x) = i) (db_rows s)) of
       None \<Rightarrow> \<exists>e. res = Inl e \<and> errors_Is e ErrNotFound
     | Some t \<Rightarrow> res = Inr \<lparr>tv_ID = t_id t, tv_Status = t_status t,
         tv_Handler = t_handler t, tv_CreatedAt = t_createdAt t\<rparr>"
  using assms(3)
  by (auto simp: Querier_Get_def server_repo_pg Repo_Get_pg [OF assms(1)] assms(2)
        errors_Is_def split: option.splits)

lemma request_refines:
  assumes "api_server E (server_handler T) = Inr srv" and "db_ok s" and "calm dbnow clock ids s"
    and "fresh_writer w" and "rw_werr w = None" and "acceptable (se_lib E) T r"
    and "ex' = ServeHTTP (se_lib E) srv ctx r \<lparr>ex_app = s, ex_rw = w, ex_tel = []\<rparr>"
  obtains x where "spec_request (se_lib E) T dbnow clock ids r (abs_process s) = (abs_process (ex_app ex'), x)"
    "gives (se_lib E) x (ex_rw ex')" "db_ok (ex_app ex')" "calm dbnow clock ids (ex_app ex')"
proof -
  let ?L = "se_lib E"
  note gives = reply_gives [OF assms(1,4,5)]
  note app = with_answers_app [OF api_server_cfg(3) [OF assms(1)], of ?L _ _ ctx r]
  note ex' = assms(7) [unfolded serve_factor [OF assms(1) [unfolded server_handler_eq],
        of ctx r _ "Inl uncalled" "Inl uncalled"]]
  show ?thesis
  proof (cases "submits ?L r")
    case (Some cmd)
    obtain s' res where sub: "Submit (server_commander T) ctx cmd s = (s', res)"
      by (cases "Submit (server_commander T) ctx cmd s")
    have "accepts T cmd" using assms(6) by (simp add: acceptable_def Some)
    from submit_spec [OF assms(2) this assms(3) sub] app.submit_ok [OF assms(2) sub] gives(1) [OF Some]
    show ?thesis using ex' by (intro that) (simp_all add: Some sub app spec_request_def reply_def)
  next
    case submits: None
    show ?thesis
    proof (cases "looks_up ?L r")
      case (Some i)
      obtain s' res where get: "Querier_Get (server_repo T) ctx i s = (s', res)"
        by (cases "Querier_Get (server_repo T) ctx i s")
      have "snd (pg_env s (pg_count s)) = NoFault" using assms(3) by (simp add: calm_def)
      note get' = get_working [OF assms(2) this get]
      show ?thesis
        using ex' gives(2) [OF Some get'(2)] assms(2,3)
        by (intro that) (simp_all add: submits Some get app spec_request_def reply_def spec_get_def
            get'(1) abs_process_def db_rows_def db_ok_def calm_def)
    next
      case None
      show ?thesis
        using ex' gives(3) [OF submits None] assms(2,3)
        by (intro that) (simp_all add: submits None app spec_request_def reply_def)
    qed
  qed
qed

section \<open>Every history\<close>

text \<open>
  C6. The service refines its specification: while the database and the id generator work, the
  responses to any sequence of requests (of any method, on any path, with any body that decodes to
  values the database accepts or does not decode) have the status and the document that the
  abstract store answers, and the store it leaves is the one the abstract store describes.
\<close>

theorem http_refines:
  assumes "api_server E (server_handler T) = Inr srv" and "db_ok s" and "calm dbnow clock ids s"
    and "list_all (\<lambda>(ctx, r, w). fresh_writer w \<and> rw_werr w = None \<and> acceptable (se_lib E) T r) rs"
    and "serve_all (se_lib E) srv rs s = (s', ws)"
  shows "\<exists>xs. spec_requests (se_lib E) T dbnow clock ids (map (\<lambda>(ctx, r, w). r) rs) (abs_process s)
      = (abs_process s', xs) \<and> list_all2 (gives (se_lib E)) xs ws"
  using assms(2-)
proof (induction rs arbitrary: s ws)
  case (Cons y rs)
  obtain ctx r w where y: "y = (ctx, r, w)" by (cases y)
  let ?ex' = "ServeHTTP (se_lib E) srv ctx r \<lparr>ex_app = s, ex_rw = w, ex_tel = []\<rparr>"
  obtain ws' where ws: "serve_all (se_lib E) srv rs (ex_app ?ex') = (s', ws')" "ws = ex_rw ?ex' # ws'"
    using Cons.prems(4) by (auto simp: y Let_def split: prod.splits)
  obtain x where x: "spec_request (se_lib E) T dbnow clock ids r (abs_process s) = (abs_process (ex_app ?ex'), x)"
    "gives (se_lib E) x (ex_rw ?ex')" "db_ok (ex_app ?ex')" "calm dbnow clock ids (ex_app ?ex')"
    by (rule request_refines [OF assms(1) Cons.prems(1,2) _ _ _ refl, of w r])
      (use Cons.prems(3) in \<open>simp_all add: y\<close>)
  from Cons.IH [OF x(3,4) _ ws(1)] Cons.prems(3) obtain xs where
    "spec_requests (se_lib E) T dbnow clock ids (map (\<lambda>(ctx, r, w). r) rs) (abs_process (ex_app ?ex'))
      = (abs_process s', xs)" "list_all2 (gives (se_lib E)) xs ws'"
    by auto
  with x show ?case by (simp add: y ws(2))
qed simp

lemma demo_acceptable: "acceptable L demo_types r"
proof -
  have "accepts demo_types (command_of_request b q)" for b q
    by (simp add: accepts_def demo_types_def command_of_request_def)
  then show ?thesis
    by (simp add: acceptable_def submits_def split: route_call.split prod.split option.split sum.split)
qed

definition demo_requests :: "(unit \<times> http_request \<times> resp_writer) list" where
  "demo_requests =
     [((), demo_http ''GET'' ''/v1/tasks/x'', demo_writer), ((), demo_http ''POST'' ''/v1/tasks'', demo_writer),
      ((), demo_http ''GET'' ''/v1/tasks/x'', demo_writer), ((), demo_http ''PUT'' ''/v1/tasks'', demo_writer)]"

lemma demo_requests_statuses:
  "map rw_status (snd (serve_all (demo_lib demo_jx) (demo_srv (server_handler demo_types)) demo_requests
     (demo_process (\<lambda>_. NoFault)))) = [Some 404, Some 201, Some 200, Some 405]"
  by code_simp

theorem http_refines_witness:
  "\<exists>a xs. spec_requests (demo_lib demo_jx) demo_types (\<lambda>n. 1000 + int n)
       (\<lambda>n. \<lparr>wall = 5000 + int n, mono = Some 7, zone = ''Local''\<rparr>) (\<lambda>n. of_nat (Suc n))
       (map (\<lambda>(ctx, r, w). r) demo_requests) (abs_process (demo_process (\<lambda>_. NoFault))) = (a, xs)
     \<and> map fst xs = [404, 201, 200, 405]"
proof -
  obtain s' ws where run: "serve_all (demo_lib demo_jx) (demo_srv (server_handler demo_types)) demo_requests
      (demo_process (\<lambda>_. NoFault)) = (s', ws)"
    by (rule prod.exhaust)
  then have st: "map rw_status ws = [Some 404, Some 201, Some 200, Some 405]"
    using demo_requests_statuses by simp
  have "list_all (\<lambda>(ctx, r, w). fresh_writer w \<and> rw_werr w = None
      \<and> acceptable (se_lib (demo_server_env demo_jx)) demo_types r) demo_requests"
    by (simp add: demo_requests_def demo_acceptable)
  from http_refines [OF demo_srv demo_db_ok demo_calm this, unfolded demo_server_lib, OF run]
  obtain xs where xs: "spec_requests (demo_lib demo_jx) demo_types (\<lambda>n. 1000 + int n)
       (\<lambda>n. \<lparr>wall = 5000 + int n, mono = Some 7, zone = ''Local''\<rparr>) (\<lambda>n. of_nat (Suc n))
       (map (\<lambda>(ctx, r, w). r) demo_requests) (abs_process (demo_process (\<lambda>_. NoFault))) = (abs_process s', xs)"
    "list_all2 (gives (demo_lib demo_jx)) xs ws"
    by blast
  from xs(2) have "map (Some \<circ> fst) xs = map rw_status ws"
    by (induction xs ws rule: list_all2_induct) (simp_all add: gives_def)
  with st have "map Some (map fst xs) = map Some [404, 201, 200, 405]" by simp
  then have codes: "map fst xs = [404, 201, 200, 405]" by (simp only: inj_map_eq_map [OF inj_Some])
  show ?thesis by (intro exI conjI) (rule xs(1), rule codes)
qed

end
