(* ===== verification/Submit_Linear.thy ===== *)
theory Submit_Linear
  imports Submit_Concurrent
begin

text \<open>
  Linearizability of concurrent submits: whatever the database does, every interleaving of calls
  is a sequential execution of an atomic operation on the stored rows, at most one per call, each
  taking effect at one step of its call. A call whose operation never took effect answers an error;
  a call whose operation took effect and whose connection then failed answers that failure.
\<close>

section \<open>The atomic operation\<close>

text \<open>A submit in one step, given the task it has minted and the database's time.\<close>

definition lin_submit ::
  "pg_types \<Rightarrow> submit_command \<Rightarrow> task \<Rightarrow> int \<Rightarrow> stored list \<Rightarrow> stored list \<times> (gerr + task)" where
  "lin_submit T cmd t us rs =
     (let k = key_of_command cmd
      in case (if k = None then None else List.find (\<lambda>x. fst x = k) rs) of
           Some x \<Rightarrow> (rs, Inr (snd x))
         | None \<Rightarrow>
             if \<not> list_ex (\<lambda>x. t_id (snd x) = t_id t) rs
             then (rs @ [(k, stored_task T (t_id t) cmd us)], Inr t)
             else if k = None
             then (rs, Inl (Wrapf ''idempotency conflict without a key''
                         (WrapErrorf ''insert task %s: %w'' [ArgUuid (t_id t)] (Sentinel ErrConflict))))
             else (rs, Inl (Wrapf ''replay idempotent task''
                         (Wrapf ''get task by idempotency key'' (Sentinel ErrNotFound)))))"

text \<open>
  Operations one after the other, each under the index of its call, with their answers. The last
  component is the error with which the connection lost the answer of an operation that committed.
\<close>

type_synonym lin_entry = "nat \<times> submit_command \<times> task \<times> int \<times> gerr option"

definition lin_answer :: "gerr option \<Rightarrow> gerr + task \<Rightarrow> gerr + task" where
  "lin_answer lost r = (case lost of None \<Rightarrow> r | Some e \<Rightarrow> Inl (Wrapf ''submit task'' e))"

lemma lin_answer_simps [simp]:
  "lin_answer None r = r" "lin_answer (Some e) r = Inl (Wrapf ''submit task'' e)"
  by (simp_all add: lin_answer_def)

fun lin_run ::
  "pg_types \<Rightarrow> lin_entry list \<Rightarrow> stored list \<Rightarrow> stored list \<times> (nat \<times> submit_command \<times> (gerr + task)) list" where
  "lin_run T [] rs = (rs, [])"
| "lin_run T ((i, cmd, t, us, lost) # es) rs =
     (case lin_submit T cmd t us rs of
        (rs1, r) \<Rightarrow>
          (case lin_run T es rs1 of (rs2, as) \<Rightarrow> (rs2, (i, cmd, lin_answer lost r) # as)))"

lemma lin_run_append:
  "lin_run T (es @ es') rs =
     (case lin_run T es rs of
        (rs1, as) \<Rightarrow> (case lin_run T es' rs1 of (rs2, as') \<Rightarrow> (rs2, as @ as')))"
  by (induction T es rs rule: lin_run.induct) (simp_all split: prod.split)

lemma lin_run_fst: "lin_run T es rs = (rs', as) \<Longrightarrow> map fst as = map fst es"
  by (induction T es rs arbitrary: as rule: lin_run.induct) (auto split: prod.splits)

text \<open>
  A call takes effect when its insert adds a row, whether or not the answer arrives; or, when the
  insert found its key or id taken, at the decision, by the read of the stored task if it needs one.
\<close>

definition reads_answered :: "submit_command \<Rightarrow> process \<Rightarrow> bool" where
  "reads_answered cmd s \<longleftrightarrow> sc_IdempotencyKey cmd = [] \<or> snd (pg_env s (pg_count s)) = NoFault"

fun lin_point :: "nat \<Rightarrow> submit_command \<Rightarrow> submit_pc \<Rightarrow> submit_pc \<Rightarrow> process \<Rightarrow> process \<Rightarrow> lin_entry list" where
  "lin_point i cmd (Minted t now) (Ran t' err) s s' =
     (if length (tbl s') = length (tbl s) then [] else [(i, cmd, t, fst (pg_env s (pg_count s)), err)])"
| "lin_point i cmd (Ran t (Some e)) pc s s' =
     (if errors_Is e ErrConflict \<and> reads_answered cmd s
      then [(i, cmd, t, fst (pg_env s (pg_count s)), None)] else [])"
| "lin_point i cmd _ _ s s' = []"

fun linearization ::
  "('c, process) commander \<Rightarrow> nat list \<Rightarrow> 'c call list \<times> process \<Rightarrow> lin_entry list" where
  "linearization cm [] (xs, s) = []"
| "linearization cm (i # is) (xs, s) =
     (if i < length xs then
        (case (xs ! i, submit_step cm (xs ! i) s) of
           ((_, cmd, pc), (s1, (ctx, _, pc1))) \<Rightarrow>
             lin_point i cmd pc pc1 s s1 @ linearization cm is (xs[i := (ctx, cmd, pc1)], s1))
      else linearization cm is (xs, s))"

text \<open>
  It is the operation of the abstract store of \<open>App_Wiring\<close>, with the id and the times that
  store would have taken.
\<close>

lemma spec_submit_lin:
  "spec_submit T dbnow clock ids cmd a =
     (case lin_submit T cmd
             (tasks_Submit (ids (ss_id a)) (sc_Handler cmd) (sc_Payload cmd) (time_UTC (clock (ss_tick a))))
             (dbnow (ss_stmt a)) (ss_rows a) of
        (rs, r) \<Rightarrow>
          (fst (spec_submit T dbnow clock ids cmd a)
             \<lparr>ss_rows := rs, ss_id := Suc (ss_id a), ss_tick := Suc (ss_tick a)\<rparr>, r))"
  by (auto simp: spec_submit_def lin_submit_def Let_def split: option.splits)

section \<open>The invariant\<close>

text \<open>
  Where a call is, against the operations that have taken effect: \<open>done\<close> are the indices of
  the calls among them, \<open>as\<close> their answers.
\<close>

definition lin_pc ::
  "pg_types \<Rightarrow> bool \<Rightarrow> nat list \<Rightarrow> (nat \<times> submit_command \<times> (gerr + task)) list \<Rightarrow> stored list \<Rightarrow> nat \<Rightarrow>
   submit_command \<Rightarrow> submit_pc \<Rightarrow> bool" where
  "lin_pc T clean ds as rs i cmd pc \<longleftrightarrow>
     (case pc of
        Called \<Rightarrow> i \<notin> set ds
      | Minted t now \<Rightarrow> i \<notin> set ds \<and> t_handler t = sc_Handler cmd \<and> t_payload t = sc_Payload cmd
      | Ran t None \<Rightarrow> i \<in> set ds \<and> (i, cmd, Inr t) \<in> set as
      | Ran t (Some e) \<Rightarrow>
          if errors_Is e ErrConflict
          then i \<notin> set ds \<and> e = WrapErrorf ''insert task %s: %w'' [ArgUuid (t_id t)] (Sentinel ErrConflict)
            \<and> taken t (key_of_command cmd) rs
            \<and> (sc_IdempotencyKey cmd \<noteq> [] \<longrightarrow> text_in T (sc_IdempotencyKey cmd))
          else \<not> clean \<and> (i \<in> set ds \<longrightarrow> (i, cmd, Inl (Wrapf ''submit task'' e)) \<in> set as)
      | Answered_with r \<Rightarrow> if i \<in> set ds then (i, cmd, r) \<in> set as else isl r \<and> \<not> clean)"

text \<open>From here on nothing fails, neither the database nor the id generator.\<close>

definition working :: "process \<Rightarrow> bool" where
  "working s \<longleftrightarrow> (\<forall>n\<ge>pg_count s. snd (pg_env s n) = NoFault) \<and> (\<forall>n\<ge>p_ids s. \<not> isl (p_uuids s n))"

lemma taken_mono: "taken t k rs \<Longrightarrow> taken t k (rs @ rs')"
  by (auto simp: taken_def)

lemma lin_submit_untaken:
  "\<not> taken t (key_of_command cmd) rs \<Longrightarrow>
   lin_submit T cmd t us rs = (rs @ [(key_of_command cmd, stored_task T (t_id t) cmd us)], Inr t)"
  unfolding taken_iff_spec
  by (cases "key_of_command cmd"; cases "List.find (\<lambda>x. fst x = key_of_command cmd) rs")
    (auto simp: lin_submit_def Let_def)

text \<open>The decision after a conflict: when its read is answered, the answer of the atomic operation.\<close>

lemma conflict_decided:
  assumes ok: "db_ok s" and t: "taken t (key_of_command cmd) (db_rows s)"
    and utf: "sc_IdempotencyKey cmd \<noteq> [] \<longrightarrow> text_in T (sc_IdempotencyKey cmd)"
    and run: "submit_result (server_commander T) ctx cmd t
      (Some (WrapErrorf ''insert task %s: %w'' [ArgUuid (t_id t)] (Sentinel ErrConflict))) s = (s', r)"
  shows "s' = s \<or> s' = s\<lparr>pg_count := Suc (pg_count s)\<rparr>"
    and "reads_answered cmd s \<Longrightarrow> lin_submit T cmd t us (db_rows s) = (db_rows s, r)"
    and "\<not> reads_answered cmd s \<Longrightarrow> isl r"
  using run t [unfolded taken_iff_spec] utf
  by (auto simp: submit_result_def Repo_GetByIdempotencyKey_pg [OF ok] lin_submit_def Let_def
      reads_answered_def key_of_command_def split: option.splits if_splits fault.splits)

text \<open>One step of a call: what it does to the rows, and where it leaves the call.\<close>

lemma lin_stage:
  assumes ok: "db_ok s" and clean: "clean \<Longrightarrow> working s \<and> accepts T cmd"
    and pc: "lin_pc T clean ds as (db_rows s) i cmd pc"
    and run: "submit_stage (server_commander T) ctx cmd pc s = (s', pc')"
    and es: "es = lin_point i cmd pc pc' s s'"
    and lin: "lin_run T es (db_rows s) = (rs', as')"
  shows "rs' = db_rows s' \<and> db_ok s' \<and> (working s \<longrightarrow> working s')
    \<and> lin_pc T clean (ds @ map fst es) (as @ as') rs' i cmd pc'
    \<and> map fst es = (if es = [] then [] else [i]) \<and> (es \<noteq> [] \<longrightarrow> i \<notin> set ds)
    \<and> set (db_rows s) \<subseteq> set (db_rows s')"
proof (cases pc)
  case Called
  have "s' = s\<lparr>p_ids := Suc (p_ids s), p_ticks := Suc (p_ticks s)\<rparr>
      \<and> (\<exists>t now. pc' = Minted t now \<and> t_handler t = sc_Handler cmd \<and> t_payload t = sc_Payload cmd)
    \<or> s' = s\<lparr>p_ids := Suc (p_ids s)\<rparr> \<and> \<not> working s \<and> (\<exists>e. pc' = Answered_with (Inl e))"
    using run
    by (auto simp: Called uuid_NewV7_def time_Now_def working_def split: sum.splits prod.splits)
  with ok pc es lin clean show ?thesis
    by (auto simp: Called lin_pc_def db_ok_def db_rows_def working_def)
next
  case (Minted t now)
  have new: "i \<notin> set ds" "t_handler t = sc_Handler cmd" "t_payload t = sc_Payload cmd"
    using pc by (simp_all add: Minted lin_pc_def)
  have tx: "submit_tx (server_commander T) t k n ctx x = Repo_Insert (pg_repo T) ctx t k x" for k n x
    by (cases "Repo_Insert (pg_repo T) ctx t k x") (simp add: submit_tx_def Outbox_Append_def split: option.splits)
  obtain err where ins: "Repo_Insert (pg_repo T) ctx t (key_of_command cmd) s = (s', err)" "pc' = Ran t err"
    using run by (auto simp: Minted Manager_WithinTx_def tx split: prod.splits)
  have ok': "db_ok s'" using Repo_Insert_effect(1) [OF ok ins(1)] .
  have work': "working s'" if "working s" "s' = s\<lparr>pg_count := Suc (pg_count s), tbl := tbl s'\<rparr>"
    by (subst that(2)) (use that(1) in \<open>simp add: working_def\<close>)
  have nf: "clean \<Longrightarrow> snd (pg_env s (pg_count s)) = NoFault" using clean by (simp add: working_def)
  from ok new(2,3) ins(1) show ?thesis
  proof (cases rule: insert_effect)
    case (kept e)
    then have same: "db_rows s' = db_rows s" by (simp add: db_rows_def)
    have "es = []" by (simp add: es Minted ins(2) kept(2))
    with kept(3-5) ok' work' [OF _ kept(1)] new nf clean lin show ?thesis
      by (auto simp: ins(2) lin_pc_def same)
  next
    case conflict
    then have same: "db_rows s' = db_rows s" by (simp add: db_rows_def)
    have "es = []" by (simp add: es Minted ins(2) conflict(2))
    with conflict(3-5) ok' work' [OF _ conflict(1)] new lin show ?thesis
      by (auto simp: ins(2) lin_pc_def same accepts_def)
  next
    case stored
    have es': "es = [(i, cmd, t, fst (pg_env s (pg_count s)), err)]"
      by (simp add: es Minted ins(2) stored(2))
    with lin have lin': "rs' = db_rows s'" "as' = [(i, cmd, lin_answer err (Inr t))]"
      by (simp_all add: lin_submit_untaken [OF stored(3)] stored(4))
    have "lin_pc T clean (ds @ [i]) (as @ as') rs' i cmd pc'"
      using stored(5) nf by (auto simp: ins(2) lin_pc_def lin'(2))
    with es' lin' ok' work' [OF _ stored(1)] new(1) stored(4) show ?thesis by auto
  qed
next
  case (Ran t err)
  obtain r where fin: "submit_result (server_commander T) ctx cmd t err s = (s', r)" "pc' = Answered_with r"
    using run by (auto simp: Ran split: prod.splits)
  show ?thesis
  proof (cases "\<exists>e. err = Some e \<and> errors_Is e ErrConflict")
    case False
    with fin(1) have "s' = s" "r = (case err of None \<Rightarrow> Inr t | Some e \<Rightarrow> Inl (Wrapf ''submit task'' e))"
      by (auto simp: submit_result_def split: option.splits)
    moreover have "es = []" using False by (cases err) (auto simp: es Ran)
    ultimately show ?thesis
      using False ok pc lin by (auto simp: Ran fin(2) lin_pc_def split: option.splits)
  next
    case True
    then obtain e where err: "err = Some e" "errors_Is e ErrConflict" by blast
    have e: "i \<notin> set ds" "e = WrapErrorf ''insert task %s: %w'' [ArgUuid (t_id t)] (Sentinel ErrConflict)"
      "taken t (key_of_command cmd) (db_rows s)"
      "sc_IdempotencyKey cmd \<noteq> [] \<longrightarrow> text_in T (sc_IdempotencyKey cmd)"
      using pc err by (simp_all add: Ran lin_pc_def)
    note fin' = fin(1) [unfolded err(1) e(2)]
    note step = conflict_decided [OF ok e(3,4) fin']
    have same: "db_rows s' = db_rows s" "db_ok s'" "working s \<Longrightarrow> working s'"
      using ok step(1) by (auto simp: db_rows_def db_ok_def working_def)
    show ?thesis
    proof (cases "reads_answered cmd s")
      case True
      then have "es = [(i, cmd, t, fst (pg_env s (pg_count s)), None)]" using err by (simp add: es Ran)
      with lin step(2) [OF True] e(1) same show ?thesis by (auto simp: fin(2) lin_pc_def)
    next
      case False
      then have "es = []" using err by (simp add: es Ran)
      moreover have "\<not> clean" using False clean by (auto simp: reads_answered_def working_def)
      ultimately show ?thesis
        using lin step(3) [OF False] e(1) same by (auto simp: fin(2) lin_pc_def)
    qed
  qed
next
  case (Answered_with r)
  with run ok pc es lin show ?thesis by (auto simp: lin_pc_def)
qed

lemma lin_pc_mono:
  "lin_pc T clean ds as rs j cmd pc \<Longrightarrow> j \<notin> set ds' \<Longrightarrow> set rs \<subseteq> set rs' \<Longrightarrow>
   lin_pc T clean (ds @ ds') (as @ as') rs' j cmd pc"
  by (auto simp: lin_pc_def taken_def split: submit_pc.splits option.splits if_splits)

text \<open>\<open>w\<close> tells whether nothing fails from the beginning.\<close>

definition lin_inv :: "pg_types \<Rightarrow> bool \<Rightarrow> stored list \<Rightarrow> lin_entry list \<Rightarrow> 'c call list \<times> process \<Rightarrow> bool" where
  "lin_inv T w rs0 log = (\<lambda>(xs, s).
     db_ok s \<and> (w \<longrightarrow> working s) \<and> distinct (map fst log)
     \<and> (\<exists>as. lin_run T log rs0 = (db_rows s, as)
          \<and> (\<forall>i<length xs. case xs ! i of
               (ctx, cmd, pc) \<Rightarrow> lin_pc T (w \<and> accepts T cmd) (map fst log) as (db_rows s) i cmd pc)))"

lemma lin_inv_steps:
  assumes "lin_inv T w rs0 log (xs, s)"
    and "interleave (submit_step (server_commander T)) schedule (xs, s) = (xs', s')"
  shows "lin_inv T w rs0 (log @ linearization (server_commander T) schedule (xs, s)) (xs', s')"
  using assms
proof (induction schedule arbitrary: log xs s)
  case (Cons i schedule)
  show ?case
  proof (cases "i < length xs")
    case True
    obtain ctx cmd pc where x: "xs ! i = (ctx, cmd, pc)" by (cases "xs ! i")
    obtain s1 pc1 where st: "submit_stage (server_commander T) ctx cmd pc s = (s1, pc1)"
      by (cases "submit_stage (server_commander T) ctx cmd pc s")
    define es where "es = lin_point i cmd pc pc1 s s1"
    obtain as where as: "db_ok s" "w \<longrightarrow> working s" "distinct (map fst log)" "lin_run T log rs0 = (db_rows s, as)"
      "\<And>j. j < length xs \<Longrightarrow> case xs ! j of
          (ctx, cmd, pc) \<Rightarrow> lin_pc T (w \<and> accepts T cmd) (map fst log) as (db_rows s) j cmd pc"
      using Cons.prems(1) by (auto simp: lin_inv_def)
    obtain rs' as' where lin: "lin_run T es (db_rows s) = (rs', as')" by (cases "lin_run T es (db_rows s)")
    have xi: "lin_pc T (w \<and> accepts T cmd) (map fst log) as (db_rows s) i cmd pc"
      using as(5) [OF True] by (simp add: x)
    have "w \<and> accepts T cmd \<Longrightarrow> working s \<and> accepts T cmd" using as(2) by blast
    note eff = lin_stage [OF as(1) this xi st es_def lin]
    have keep: "case xs[i := (ctx, cmd, pc1)] ! j of
        (ctx, cmd, pc) \<Rightarrow> lin_pc T (w \<and> accepts T cmd) (map fst (log @ es)) (as @ as') (db_rows s1) j cmd pc"
      if "j < length xs" for j
    proof (cases "j = i")
      case True
      have "lin_pc T (w \<and> accepts T cmd) (map fst (log @ es)) (as @ as') (db_rows s1) i cmd pc1"
        using eff by (metis map_append)
      with True that show ?thesis by simp
    next
      case False
      obtain ctx' cmd' pc' where xj: "xs ! j = (ctx', cmd', pc')" by (cases "xs ! j")
      have "j \<notin> set (map fst es)" using False eff by (auto split: if_splits)
      moreover have "lin_pc T (w \<and> accepts T cmd') (map fst log) as (db_rows s) j cmd' pc'"
        using as(5) [OF that] by (simp add: xj)
      ultimately have "lin_pc T (w \<and> accepts T cmd') (map fst (log @ es)) (as @ as') (db_rows s1) j cmd' pc'"
        using eff lin_pc_mono by (metis map_append)
      with False show ?thesis by (simp only: nth_list_update_neq xj prod.case)
    qed
    have "lin_inv T w rs0 (log @ es) (xs[i := (ctx, cmd, pc1)], s1)"
      using as(2,3,4) eff lin keep
      by (auto simp: lin_inv_def lin_run_append split: if_splits)
    from Cons.IH [OF this] Cons.prems(2) True x st show ?thesis by (simp add: es_def)
  qed (use Cons in simp)
qed simp

lemma lin_inv_called:
  "db_ok s \<Longrightarrow> lin_inv T (working s) (db_rows s) [] (called cmds, s)"
  by (fastforce simp: lin_inv_def called_def lin_pc_def case_prod_beta)

text \<open>An answered call takes no further effect.\<close>

lemma lin_point_call: "e \<in> set (lin_point i cmd pc pc' s s') \<Longrightarrow> fst e = i"
  by (cases "(i, cmd, pc, pc', s, s')" rule: lin_point.cases) (auto split: if_splits)

lemma answered_no_effect:
  "i < length xs \<Longrightarrow> xs ! i = (ctx, cmd, Answered_with r) \<Longrightarrow>
   i \<notin> set (map fst (linearization cm schedule (xs, s)))"
proof (induction schedule arbitrary: xs s)
  case (Cons j schedule)
  show ?case
  proof (cases "j < length xs")
    case True
    obtain ctx' cmd' pc' where x: "xs ! j = (ctx', cmd', pc')" by (cases "xs ! j")
    obtain s1 pc1 where st: "submit_stage cm ctx' cmd' pc' s = (s1, pc1)" by (cases "submit_stage cm ctx' cmd' pc' s")
    have "lin_point j cmd' pc' pc1 s s1 = []" if "j = i"
      using Cons.prems(2) x that by auto
    then have "i \<notin> fst ` set (lin_point j cmd' pc' pc1 s s1)" using lin_point_call by fastforce
    moreover have "xs[j := (ctx', cmd', pc1)] ! i = (ctx, cmd, Answered_with r)"
      using Cons.prems x st by (cases "i = j") auto
    ultimately show ?thesis
      using Cons.IH [of "xs[j := (ctx', cmd', pc1)]" s1] Cons.prems(1) True x st by simp
  qed (use Cons in simp)
qed simp

section \<open>Linearizability\<close>

text \<open>
  C5. Concurrent submits are linearizable whatever fails: however the steps of any number of calls
  interleave, and whichever statements fail before or after they run, executing one atomic submit
  per call that took effect, in the order in which they took effect, leaves the rows that are stored
  and gives each of those calls that has answered its answer (or the failure that lost it); every
  other call that has answered answered an error, which on a working database happens to no call
  with values the database accepts. Each call takes effect at most once, and the order respects
  real time: calls that have not begun take effect later, calls that have answered never after.
\<close>

theorem submits_linearizable:
  assumes "db_ok s"
    and "interleave (submit_step (server_commander T)) schedule (called cmds, s) = (mid, s1)"
    and "interleave (submit_step (server_commander T)) schedule' (mid, s1) = (calls, s')"
    and "log = linearization (server_commander T) schedule (called cmds, s)"
    and "log' = linearization (server_commander T) schedule' (mid, s1)"
  shows "\<exists>answers. lin_run T (log @ log') (db_rows s) = (db_rows s', answers)
    \<and> distinct (map fst (log @ log'))
    \<and> (\<forall>i<length calls. case calls ! i of
         (ctx, cmd, Answered_with r) \<Rightarrow>
           (if i \<in> set (map fst (log @ log')) then (i, cmd, r) \<in> set answers
            else isl r \<and> \<not> (working s \<and> accepts T cmd))
       | _ \<Rightarrow> True)
    \<and> (\<forall>i<length mid. case mid ! i of
         (ctx, cmd, Answered_with r) \<Rightarrow> i \<notin> set (map fst log')
       | (ctx, cmd, Called) \<Rightarrow> i \<notin> set (map fst log) | _ \<Rightarrow> True)"
proof -
  have mid: "lin_inv T (working s) (db_rows s) log (mid, s1)"
    using lin_inv_steps [OF lin_inv_called [OF assms(1)] assms(2)] by (simp add: assms(4))
  have fin: "lin_inv T (working s) (db_rows s) (log @ log') (calls, s')"
    using lin_inv_steps [OF mid assms(3)] by (simp add: assms(5))
  have "case mid ! i of
         (ctx, cmd, Answered_with r) \<Rightarrow> i \<notin> set (map fst log')
       | (ctx, cmd, Called) \<Rightarrow> i \<notin> set (map fst log) | _ \<Rightarrow> True" if "i < length mid" for i
    using mid that answered_no_effect [OF that] unfolding assms(5)
    by (fastforce simp: lin_inv_def lin_pc_def split: prod.splits submit_pc.splits)
  with fin show ?thesis
    by (fastforce simp: lin_inv_def lin_pc_def split: prod.splits submit_pc.splits if_splits)
qed

text \<open>The race of \<open>demo_race\<close>, seen when the second client has inserted: it comes first.\<close>

lemma demo_race_order:
  "map fst (linearization (server_commander demo_types) [0, 1, 1, 0, 1, 0]
     (called [((), demo_command ''k''), ((), demo_command ''k'')], demo_process (\<lambda>_. NoFault))) = [1, 0]"
  by code_simp

text \<open>
  The first client's insert commits and its connection is reset: its call takes effect and answers
  the failure; the second client, with the same key, is answered the stored task.
\<close>

lemma demo_lost_order:
  "case lin_run demo_types (linearization (server_commander demo_types) [0, 0, 1, 1, 1, 0]
     (called [((), demo_command ''k''), ((), demo_command ''k'')],
      demo_process (\<lambda>n. if n = 0 then FailAfter ''reset'' else NoFault))) [] of
     (rs, as) \<Rightarrow> length rs = 1 \<and> map (\<lambda>(i, cmd, r). (i, isl r)) as = [(0, True), (1, False)]"
  by code_simp

lemma linearization_append:
  "interleave (submit_step cm) schedule (xs, s) = (mid, s1) \<Longrightarrow>
   linearization cm (schedule @ schedule') (xs, s) =
     linearization cm schedule (xs, s) @ linearization cm schedule' (mid, s1)"
  by (induction schedule arbitrary: xs s) (auto split: prod.splits if_splits)

theorem submits_linearizable_witness:
  "\<exists>log answers rs.
     log = linearization (server_commander demo_types) [0, 1, 1, 0, 1, 0]
       (called [((), demo_command ''k''), ((), demo_command ''k'')], demo_process (\<lambda>_. NoFault))
     \<and> map fst log = [1, 0] \<and> lin_run demo_types log [] = (rs, answers)"
proof -
  let ?C = "server_commander demo_types"
  let ?xs = "called [((), demo_command ''k''), ((), demo_command ''k'')]"
  let ?s = "demo_process (\<lambda>_. NoFault)"
  obtain mid s1 where one: "interleave (submit_step ?C) [0, 1, 1] (?xs, ?s) = (mid, s1)"
    by (rule prod.exhaust)
  obtain calls s' where two: "interleave (submit_step ?C) [0, 1, 0] (mid, s1) = (calls, s')"
    by (rule prod.exhaust)
  obtain answers where run:
    "lin_run demo_types (linearization ?C [0, 1, 1] (?xs, ?s) @ linearization ?C [0, 1, 0] (mid, s1)) (db_rows ?s)
      = (db_rows s', answers)"
    using submits_linearizable [OF demo_db_ok one two refl refl] by blast
  have "db_rows ?s = []" by (simp add: db_rows_def demo_process_def)
  with run demo_race_order linearization_append [OF one, of "[0, 1, 0]"] show ?thesis by auto
qed

end
