(* ===== verification/Http_Linear.thy ===== *)
theory Http_Linear
  imports Http_Spec Submit_Linear
begin

text \<open>
  Linearizability of the server: whatever the database does, concurrent requests are answered as if
  each submit and each read that took effect had been executed at once, at one moment between the
  arrival of its request and its response, and the others are answered an error.
\<close>

section \<open>Atomic operations of requests\<close>

datatype http_op = OpSubmit submit_command task int "gerr option" | OpLookup uuid
datatype http_ans = AnsSubmit submit_command "gerr + task" | AnsLookup uuid "task option"

definition http_op_run :: "pg_types \<Rightarrow> http_op \<Rightarrow> stored list \<Rightarrow> stored list \<times> http_ans" where
  "http_op_run T op rs =
     (case op of
        OpSubmit cmd t us lost \<Rightarrow>
          (case lin_submit T cmd t us rs of (rs1, res) \<Rightarrow> (rs1, AnsSubmit cmd (lin_answer lost res)))
      | OpLookup i \<Rightarrow> (rs, AnsLookup i (map_option snd (List.find (\<lambda>x. t_id (snd x) = i) rs))))"

fun http_lin_run ::
  "pg_types \<Rightarrow> (nat \<times> http_op) list \<Rightarrow> stored list \<Rightarrow> stored list \<times> (nat \<times> http_ans) list" where
  "http_lin_run T [] rs = (rs, [])"
| "http_lin_run T ((i, op) # es) rs =
     (case http_op_run T op rs of
        (rs1, a) \<Rightarrow> (case http_lin_run T es rs1 of (rs2, as) \<Rightarrow> (rs2, (i, a) # as)))"

lemma http_lin_run_append:
  "http_lin_run T (es @ es') rs =
     (case http_lin_run T es rs of
        (rs1, as) \<Rightarrow> (case http_lin_run T es' rs1 of (rs2, as') \<Rightarrow> (rs2, as @ as')))"
  by (induction T es rs rule: http_lin_run.induct) (simp_all split: prod.split)

lemma http_lin_run_fst: "http_lin_run T es rs = (rs', as) \<Longrightarrow> map fst as = map fst es"
  by (induction T es rs arbitrary: as rule: http_lin_run.induct) (auto split: prod.splits)

text \<open>When a connection's operation takes effect.\<close>

definition submit_op :: "lin_entry \<Rightarrow> nat \<times> http_op" where
  "submit_op e = (case e of (i, cmd, t, us, lost) \<Rightarrow> (i, OpSubmit cmd t us lost))"

fun http_point :: "nat \<Rightarrow> http_pc \<Rightarrow> http_pc \<Rightarrow> process \<Rightarrow> process \<Rightarrow> (nat \<times> http_op) list" where
  "http_point i (Submitting cmd pc) (Submitting _ pc') s s' = map submit_op (lin_point i cmd pc pc' s s')"
| "http_point i (Looking u) _ s s' =
     (if snd (pg_env s (pg_count s)) = NoFault then [(i, OpLookup u)] else [])"
| "http_point i _ _ s s' = []"

fun http_linearization ::
  "('c conn \<Rightarrow> process \<Rightarrow> process \<times> 'c conn) \<Rightarrow> nat list \<Rightarrow> 'c conn list \<times> process \<Rightarrow>
   (nat \<times> http_op) list" where
  "http_linearization step [] (xs, s) = []"
| "http_linearization step (i # is) (xs, s) =
     (if i < length xs then
        (case (xs ! i, step (xs ! i) s) of
           ((_, _, _, pc), (s1, (ctx, r, w, pc1))) \<Rightarrow>
             http_point i pc pc1 s s1 @ http_linearization step is (xs[i := (ctx, r, w, pc1)], s1))
      else http_linearization step is (xs, s))"

section \<open>The invariant\<close>

definition subs :: "(nat \<times> http_ans) list \<Rightarrow> (nat \<times> submit_command \<times> (gerr + task)) list" where
  "subs as = concat (map (\<lambda>(i, a). case a of AnsSubmit cmd res \<Rightarrow> [(i, cmd, res)] | AnsLookup _ _ \<Rightarrow> []) as)"

lemma subs_append [simp]: "subs (as @ as') = subs as @ subs as'"
  by (simp add: subs_def)

lemma subs_submits [simp]: "subs (map (\<lambda>(i, cmd, res). (i, AnsSubmit cmd res)) as) = as"
  by (induction as) (auto simp: subs_def)

lemma subs_mem: "(i, cmd, res) \<in> set (subs as) \<longleftrightarrow> (i, AnsSubmit cmd res) \<in> set as"
  by (induction as) (auto simp: subs_def split: http_ans.splits)

lemma http_run_submits:
  "lin_run T es rs = (rs', as) \<Longrightarrow>
   http_lin_run T (map submit_op es) rs = (rs', map (\<lambda>(i, cmd, res). (i, AnsSubmit cmd res)) as)"
  by (induction T es rs arbitrary: as rule: lin_run.induct)
    (auto simp: submit_op_def http_op_run_def split: prod.splits)

text \<open>
  The response of a request is the answer to its operation, if it has one. When the operation did
  not take effect it is an error; \<open>w\<close> tells that nothing fails, and then this happens to no
  request with values the database accepts.
\<close>

definition internal_error :: answer where
  "internal_error =
     (500, Some (Error_Encode \<lparr>oe_Code = ErrorCodeInternalError, oe_Message = ''internal server error''\<rparr> []))"

definition replied ::
  "lib \<Rightarrow> pg_types \<Rightarrow> bool \<Rightarrow> (nat \<times> http_ans) list \<Rightarrow> nat \<Rightarrow> http_request \<Rightarrow> resp_writer \<Rightarrow> bool" where
  "replied L T w as i r v =
     (case submits L r of
        Some cmd \<Rightarrow>
          if i \<in> set (map fst as)
          then \<exists>res. (i, AnsSubmit cmd res) \<in> set as \<and> gives L (submit_answer L res) v
          else (\<exists>e. gives L (submit_answer L (Inl e)) v) \<and> \<not> (w \<and> accepts T cmd)
      | None \<Rightarrow>
          (case looks_up L r of
             Some u \<Rightarrow>
               if i \<in> set (map fst as)
               then \<exists>found. (i, AnsLookup u found) \<in> set as \<and> gives L (lookup_answer L found) v
               else gives L internal_error v \<and> \<not> w
           | None \<Rightarrow> i \<notin> set (map fst as) \<and> gives L (refusal L r) v))"

definition conn_lin ::
  "lib \<Rightarrow> pg_types \<Rightarrow> bool \<Rightarrow> (nat \<times> http_ans) list \<Rightarrow> stored list \<Rightarrow> nat \<Rightarrow> 'c conn \<Rightarrow> bool" where
  "conn_lin L T w as rs i = (\<lambda>(ctx, r, rw, pc).
     fresh_writer rw \<and> rw_werr rw = None
     \<and> (case pc of
          Arrived \<Rightarrow> i \<notin> set (map fst as)
        | Submitting cmd spc \<Rightarrow> submits L r = Some cmd
            \<and> lin_pc T (w \<and> accepts T cmd) (map fst as) (subs as) rs i cmd spc
        | Looking u \<Rightarrow> submits L r = None \<and> looks_up L r = Some u \<and> i \<notin> set (map fst as)
        | Replied v \<Rightarrow> replied L T w as i r v))"

lemma replied_mono:
  "replied L T w as j r v \<Longrightarrow> j \<notin> set (map fst as') \<Longrightarrow> replied L T w (as @ as') j r v"
  by (cases "submits L r"; cases "looks_up L r"; cases "j \<in> set (map fst as)") (auto simp: replied_def)

lemma conn_lin_mono:
  assumes "conn_lin L T w as rs j x" and "j \<notin> set (map fst as')" and "set rs \<subseteq> set rs'"
  shows "conn_lin L T w (as @ as') rs' j x"
proof -
  obtain ctx r rw pc where x: "x = (ctx, r, rw, pc)" by (cases x)
  show ?thesis
  proof (cases pc)
    case (Submitting cmd spc)
    then have "lin_pc T (w \<and> accepts T cmd) (map fst as) (subs as) rs j cmd spc"
      using assms(1) by (simp add: conn_lin_def x)
    from lin_pc_mono [OF this assms(2,3), of "subs as'"] assms(1) Submitting show ?thesis
      by (simp add: conn_lin_def x)
  qed (use assms(1,2) in \<open>simp_all add: conn_lin_def x replied_mono\<close>)
qed

text \<open>A read whose statement failed is answered an internal error.\<close>

lemma reply_failed_read:
  assumes srv: "api_server E h = Inr srv" and w: "fresh_writer w" "rw_werr w = None"
    and look: "looks_up (se_lib E) r = Some i"
    and e: "rv = Inl (WrapErrorf ''get task %s: %w'' xs (Plain m))"
  shows "gives (se_lib E) internal_error (reply (se_lib E) srv ctx r w rt rv s)"
proof -
  let ?L = "se_lib E" and ?h = "answering rt rv"
  let ?ex = "\<lparr>ex_app = s, ex_rw = w, ex_tel = []\<rparr>"
  let ?ex' = "ServeHTTP ?L (with_answers ?L srv rt rv) ctx r ?ex"
  have srv': "api_server E ?h = Inr (with_answers ?L srv rt rv)" by (rule with_answers_server [OF srv])
  have fresh: "fresh_writer (ex_rw ?ex)" using w(1) by simp
  obtain arg esc params where p: "serve_route ?L [] r = CallGetTask arg esc"
    "decodeGetTaskParams ?L arg esc = Inr params"
    using look by (auto simp: looks_up_def split: route_call.splits sum.splits)
  have "\<exists>en. ended ?L GetTaskOperation w [] en ?ex' \<and> get_ends ?L ?h ctx arg esc s (ex_app ?ex') en"
    by (rule serve_operation [OF srv' fresh refl, of r ctx]) (auto simp: p(1) is_operation_def op_of_call_def)
  then obtain en where en: "ended ?L GetTaskOperation w [] en ?ex'"
    "get_ends ?L ?h ctx arg esc s (ex_app ?ex') en"
    by blast
  have "en = Failed (WrapErrorf ''get task %s: %w'' [ArgUuid (gp_ID params)]
      (WrapErrorf ''get task %s: %w'' xs (Plain m)))"
    using en(2) p(2) by (simp add: get_ends_def Handler_GetTask_def NewHandler_def answering_def e)
  from ended_gives(1) [OF en(1) w(2) this] show ?thesis
    by (simp add: reply_def internal_error_def error_answer_def classify_error_def errors_As_simps)
qed

text \<open>The read of a lookup, whatever the database does.\<close>

lemma get_lin:
  assumes "db_ok s" and "Querier_Get (server_repo T) ctx i s = (s', res)"
  shows "s' = s\<lparr>pg_count := Suc (pg_count s)\<rparr>"
    and "snd (pg_env s (pg_count s)) \<noteq> NoFault \<Longrightarrow>
      \<exists>m. res = Inl (WrapErrorf ''get task %s: %w'' [ArgUuid i] (Plain m))"
  using assms(2)
  by (auto simp: Querier_Get_def server_repo_pg Repo_Get_pg [OF assms(1)] split: fault.splits sum.splits)

lemma http_lin_stage:
  assumes srv: "api_server E (server_handler T) = Inr srv" and ok: "db_ok s" and work: "b \<Longrightarrow> working s"
    and conn: "conn_lin (se_lib E) T b as (db_rows s) i (ctx, r, w, pc)"
    and run: "http_stage (se_lib E) srv (server_commander T) (Querier_Get (server_repo T)) ctx r w pc s = (s', pc')"
    and es: "es = http_point i pc pc' s s'"
    and lin: "http_lin_run T es (db_rows s) = (rs', as')"
  shows "rs' = db_rows s' \<and> db_ok s' \<and> (working s \<longrightarrow> working s')
    \<and> conn_lin (se_lib E) T b (as @ as') rs' i (ctx, r, w, pc')
    \<and> set (map fst as') \<subseteq> {i} \<and> distinct (map fst as') \<and> (as' \<noteq> [] \<longrightarrow> i \<notin> set (map fst as))
    \<and> set (db_rows s) \<subseteq> set (db_rows s')"
proof -
  let ?L = "se_lib E"
  have w: "fresh_writer w" "rw_werr w = None"
    using conn by (simp_all add: conn_lin_def)
  note gives = reply_gives [OF srv w]
  show ?thesis
  proof (cases pc)
    case Arrived
    with run have "s' = s" by (auto split: option.splits)
    moreover have "conn_lin ?L T b as (db_rows s) i (ctx, r, w, pc')"
      using run conn gives(3)
      by (auto simp: Arrived conn_lin_def lin_pc_def replied_def split: option.splits)
    ultimately show ?thesis using es lin ok by (simp add: Arrived)
  next
    case (Submitting cmd spc)
    then have cmd: "submits ?L r = Some cmd"
      "lin_pc T (b \<and> accepts T cmd) (map fst as) (subs as) (db_rows s) i cmd spc"
      using conn by (simp_all add: conn_lin_def)
    show ?thesis
    proof (cases "\<exists>res. spc = Answered_with res")
      case True
      then obtain res where res: "spc = Answered_with res" by blast
      let ?v = "reply ?L srv ctx r w res (Inl uncalled) s"
      from run Submitting res have pc': "s' = s" "pc' = Replied ?v" by auto
      have "if i \<in> set (map fst as) then (i, AnsSubmit cmd res) \<in> set as
          else isl res \<and> \<not> (b \<and> accepts T cmd)"
        using cmd(2) unfolding res lin_pc_def submit_pc.case subs_mem .
      moreover have "gives ?L (submit_answer ?L res) ?v" by (rule gives(1) [OF cmd(1)])
      ultimately have "replied ?L T b as i r ?v"
        by (cases res) (auto simp: replied_def cmd(1) split: if_splits)
      with w have "conn_lin ?L T b as (db_rows s) i (ctx, r, w, pc')" by (simp add: conn_lin_def pc'(2))
      then show ?thesis using es lin ok by (simp add: Submitting pc' res)
    next
      case False
      obtain s1 pc1 where st: "submit_stage (server_commander T) ctx cmd spc s = (s1, pc1)"
        by (cases "submit_stage (server_commander T) ctx cmd spc s")
      with False run Submitting have pc': "s' = s1" "pc' = Submitting cmd pc1" by (cases spc; simp)+
      define ls where "ls = lin_point i cmd spc pc1 s s1"
      obtain rs1 as1 where ls: "lin_run T ls (db_rows s) = (rs1, as1)" by (cases "lin_run T ls (db_rows s)")
      have es': "es = map submit_op ls" by (simp add: es Submitting pc' ls_def)
      have as': "rs' = rs1" "subs as' = as1" "map fst as' = map fst ls"
        using lin http_run_submits [OF ls] http_lin_run_fst [OF lin] by (auto simp: es' submit_op_def)
      have "b \<and> accepts T cmd \<Longrightarrow> working s \<and> accepts T cmd" using work by blast
      note eff = lin_stage [OF ok this cmd(2) st ls_def ls]
      have ids: "set (map fst as') \<subseteq> {i}" "distinct (map fst as')" "as' \<noteq> [] \<longrightarrow> i \<notin> set (map fst as)"
        using eff map_is_Nil_conv [of fst as'] unfolding as'(3) by (auto split: if_splits)
      have "conn_lin ?L T b (as @ as') rs' i (ctx, r, w, pc')"
      proof -
        have "rs1 = db_rows s1"
          "lin_pc T (b \<and> accepts T cmd) (map fst as @ map fst ls) (subs as @ as1) (db_rows s1) i cmd pc1"
          using eff by blast+
        with w cmd(1) show ?thesis unfolding as'(1) by (simp add: conn_lin_def pc' as'(2,3))
      qed
      with eff ids show ?thesis unfolding as'(1) pc'(1) by blast
    qed
  next
    case (Looking u)
    then have u: "submits ?L r = None" "looks_up ?L r = Some u" "i \<notin> set (map fst as)"
      using conn by (simp_all add: conn_lin_def)
    obtain s1 res where get: "Querier_Get (server_repo T) ctx u s = (s1, res)"
      by (cases "Querier_Get (server_repo T) ctx u s")
    let ?v = "reply ?L srv ctx r w (Inl uncalled) res s1"
    have pc': "s' = s1" "pc' = Replied ?v" using run get by (auto simp: Looking)
    have s1: "db_rows s1 = db_rows s" "db_ok s1" "working s \<longrightarrow> working s1"
      using ok get_lin(1) [OF ok get] by (simp_all add: db_rows_def db_ok_def working_def)
    show ?thesis
    proof (cases "snd (pg_env s (pg_count s)) = NoFault")
      case True
      then have "es = [(i, OpLookup u)]" by (simp add: es Looking)
      with lin gives(2) [OF u(2) get_working(2) [OF ok True get], of ctx "Inl uncalled" s1] u w s1
      show ?thesis by (auto simp: pc' conn_lin_def replied_def http_op_run_def)
    next
      case False
      then have "\<not> b" using work by (auto simp: working_def)
      moreover obtain m where "res = Inl (WrapErrorf ''get task %s: %w'' [ArgUuid u] (Plain m))"
        using get_lin(2) [OF ok get False] by blast
      from reply_failed_read [OF srv w u(2) this, of ctx "Inl uncalled" s1]
      have "gives ?L internal_error ?v" .
      moreover have "es = []" using False by (simp add: es Looking)
      ultimately show ?thesis using lin u w s1 by (auto simp: pc' conn_lin_def replied_def)
    qed
  next
    case (Replied v)
    with run have same: "s' = s" "pc' = Replied v" by auto
    show ?thesis using es lin ok conn unfolding same Replied by simp
  qed
qed

definition http_inv ::
  "lib \<Rightarrow> pg_types \<Rightarrow> bool \<Rightarrow> stored list \<Rightarrow> (nat \<times> http_op) list \<Rightarrow> 'c conn list \<times> process \<Rightarrow> bool" where
  "http_inv L T b rs0 log = (\<lambda>(xs, s).
     db_ok s \<and> (b \<longrightarrow> working s) \<and> distinct (map fst log)
     \<and> (\<exists>as. http_lin_run T log rs0 = (db_rows s, as)
          \<and> (\<forall>i<length xs. conn_lin L T b as (db_rows s) i (xs ! i))))"

lemma http_inv_steps:
  fixes T :: pg_types
  assumes "api_server E (server_handler T) = Inr srv" and "http_inv (se_lib E) T b rs0 log (xs, s)"
  defines "step \<equiv> http_step (se_lib E) srv (server_commander T) (Querier_Get (server_repo T))"
  assumes "interleave step schedule (xs, s) = (xs', s')"
  shows "http_inv (se_lib E) T b rs0 (log @ http_linearization step schedule (xs, s)) (xs', s')"
  using assms(2,4)
proof (induction schedule arbitrary: log xs s)
  case (Cons i schedule)
  show ?case
  proof (cases "i < length xs")
    case True
    obtain ctx r w pc where x: "xs ! i = (ctx, r, w, pc)" by (cases "xs ! i")
    obtain s1 pc1 where st: "http_stage (se_lib E) srv (server_commander T) (Querier_Get (server_repo T))
        ctx r w pc s = (s1, pc1)"
      by (rule prod.exhaust)
    define es where "es = http_point i pc pc1 s s1"
    obtain as where as: "db_ok s" "b \<longrightarrow> working s" "distinct (map fst log)" "http_lin_run T log rs0 = (db_rows s, as)"
      "\<And>j. j < length xs \<Longrightarrow> conn_lin (se_lib E) T b as (db_rows s) j (xs ! j)"
      using Cons.prems(1) by (auto simp: http_inv_def)
    obtain rs' as' where lin: "http_lin_run T es (db_rows s) = (rs', as')"
      by (cases "http_lin_run T es (db_rows s)")
    note eff = http_lin_stage [OF assms(1) as(1) mp [OF as(2)] as(5) [OF True, unfolded x] st es_def lin]
    have keep: "conn_lin (se_lib E) T b (as @ as') (db_rows s1) j (xs[i := (ctx, r, w, pc1)] ! j)"
      if "j < length xs" for j
    proof (cases "j = i")
      case True
      moreover have "conn_lin (se_lib E) T b (as @ as') (db_rows s1) i (ctx, r, w, pc1)" using eff by blast
      ultimately show ?thesis using that by simp
    next
      case False
      then have "j \<notin> set (map fst as')" using eff by blast
      then have "conn_lin (se_lib E) T b (as @ as') (db_rows s1) j (xs ! j)"
        using conn_lin_mono [OF as(5) [OF that]] eff by blast
      with False show ?thesis by simp
    qed
    have "set (map fst as) \<inter> set (map fst as') = {}" using eff by (cases "as' = []") (simp, blast)
    then have "distinct (map fst (log @ es))"
      using as(3) eff by (simp only: map_append distinct_append http_lin_run_fst [OF as(4)] http_lin_run_fst [OF lin])
    then have "http_inv (se_lib E) T b rs0 (log @ es) (xs[i := (ctx, r, w, pc1)], s1)"
      using as(2,4) eff lin keep by (auto simp: http_inv_def http_lin_run_append)
    from Cons.IH [OF this] Cons.prems(2) True x st show ?thesis by (simp add: es_def step_def)
  qed (use Cons in simp)
qed simp

lemma http_inv_arriving:
  assumes "db_ok s" and "list_all (\<lambda>(ctx, r, w). fresh_writer w \<and> rw_werr w = None) rs"
  shows "http_inv L T (working s) (db_rows s) [] (arriving rs, s)"
  using assms by (fastforce simp: http_inv_def arriving_def conn_lin_def list_all_iff case_prod_beta)

text \<open>A request that has its response takes no further effect.\<close>

lemma replied_no_effect:
  fixes L srv cm qry
  defines "step \<equiv> http_step L srv cm qry"
  shows "i < length xs \<Longrightarrow> xs ! i = (ctx, r, w, Replied v) \<Longrightarrow>
   i \<notin> set (map fst (http_linearization step schedule (xs, s)))"
proof (induction schedule arbitrary: xs s)
  case (Cons j schedule)
  show ?case
  proof (cases "j < length xs")
    case True
    obtain ctx' r' w' pc' where x: "xs ! j = (ctx', r', w', pc')" by (cases "xs ! j")
    obtain s1 pc1 where st: "step (ctx', r', w', pc') s = (s1, (ctx', r', w', pc1))"
      by (cases "http_stage L srv cm qry ctx' r' w' pc' s") (simp add: step_def)
    have "fst e = j" if "e \<in> set (http_point j pc' pc1 s s1)" for e
      using that lin_point_call
      by (cases "(j, pc', pc1, s, s1)" rule: http_point.cases) (auto simp: submit_op_def split: if_splits)
    moreover have "http_point j pc' pc1 s s1 = []" if "j = i"
      using Cons.prems(2) x that by auto
    ultimately have "i \<notin> fst ` set (http_point j pc' pc1 s s1)" by fastforce
    moreover have "xs[j := (ctx', r', w', pc1)] ! i = (ctx, r, w, Replied v)"
      using Cons.prems x st by (cases "i = j") (auto simp: step_def)
    ultimately show ?thesis
      using Cons.IH [of "xs[j := (ctx', r', w', pc1)]" s1] Cons.prems(1) True x st by simp
  qed (use Cons in simp)
qed simp

section \<open>Linearizability\<close>

text \<open>
  C4. The server is linearizable whatever fails: however the goroutines of any requests interleave,
  and whichever statements fail before or after they run, executing each submit and read that took
  effect at once, in the order in which they took effect, leaves the rows that are stored, and every
  response that has been written has the status and the document of its operation's answer, or of
  the refusal of a request that has none; a request whose operation took no effect is answered the
  error of a failed submit, or 500 for a read, which on a working database happens to no request
  with values the database accepts. An operation takes effect at most once, not before its request
  is read and never after its response is written, so the order respects real time.
\<close>

theorem http_linearizable:
  fixes T :: pg_types
  assumes "api_server E (server_handler T) = Inr srv" and "db_ok s"
    and "list_all (\<lambda>(ctx, r, w). fresh_writer w \<and> rw_werr w = None) rs"
    and "step = http_step (se_lib E) srv (server_commander T) (Querier_Get (server_repo T))"
    and "interleave step schedule (arriving rs, s) = (mid, s1)"
    and "interleave step schedule' (mid, s1) = (conns, s')"
    and "log = http_linearization step schedule (arriving rs, s)"
    and "log' = http_linearization step schedule' (mid, s1)"
  shows "\<exists>answers. http_lin_run T (log @ log') (db_rows s) = (db_rows s', answers)
    \<and> distinct (map fst (log @ log'))
    \<and> (\<forall>i<length conns. case conns ! i of
         (ctx, r, w, Replied v) \<Rightarrow> replied (se_lib E) T (working s) answers i r v | _ \<Rightarrow> True)
    \<and> (\<forall>i<length mid. case mid ! i of
         (ctx, r, w, Replied v) \<Rightarrow> i \<notin> set (map fst log')
       | (ctx, r, w, Arrived) \<Rightarrow> i \<notin> set (map fst log) | _ \<Rightarrow> True)"
proof -
  have mid: "http_inv (se_lib E) T (working s) (db_rows s) log (mid, s1)"
    using http_inv_steps [OF assms(1) http_inv_arriving [OF assms(2,3)]] assms(4,5,7) by simp
  have fin: "http_inv (se_lib E) T (working s) (db_rows s) (log @ log') (conns, s')"
    using http_inv_steps [OF assms(1) mid] assms(4,6,8) by simp
  obtain as where as: "http_lin_run T log (db_rows s) = (db_rows s1, as)"
    "\<And>i. i < length mid \<Longrightarrow> conn_lin (se_lib E) T (working s) as (db_rows s1) i (mid ! i)"
    using mid by (auto simp: http_inv_def)
  have "case mid ! i of
         (ctx, r, w, Replied v) \<Rightarrow> i \<notin> set (map fst log')
       | (ctx, r, w, Arrived) \<Rightarrow> i \<notin> set (map fst log) | _ \<Rightarrow> True" if "i < length mid" for i
  proof -
    obtain ctx r w pc where x: "mid ! i = (ctx, r, w, pc)" by (cases "mid ! i")
    show ?thesis
    proof (cases pc)
      case Arrived
      with as(2) [OF that] show ?thesis
        by (simp add: x conn_lin_def http_lin_run_fst [OF as(1)] del: set_map)
    next
      case (Replied v)
      then show ?thesis using replied_no_effect [OF that, of ctx r w v] by (simp add: x assms(4,8))
    qed (simp_all add: x)
  qed
  moreover obtain answers where "http_lin_run T (log @ log') (db_rows s) = (db_rows s', answers)"
    "distinct (map fst (log @ log'))"
    "\<And>i. i < length conns \<Longrightarrow> conn_lin (se_lib E) T (working s) answers (db_rows s') i (conns ! i)"
    using fin by (auto simp: http_inv_def)
  ultimately show ?thesis
    by (intro exI [of _ answers]) (fastforce simp: conn_lin_def split: prod.splits http_pc.splits)
qed

lemma http_linearization_append:
  "interleave step schedule (xs, s) = (mid, s1) \<Longrightarrow>
   http_linearization step (schedule @ schedule') (xs, s) =
     http_linearization step schedule (xs, s) @ http_linearization step schedule' (mid, s1)"
  by (induction schedule arbitrary: xs s) (auto split: prod.splits if_splits)

text \<open>The race of \<open>demo_http_race\<close>: the second post stores its task, the first replays it.\<close>

abbreviation demo_http_step :: "unit conn \<Rightarrow> process \<Rightarrow> process \<times> unit conn" where
  "demo_http_step \<equiv> http_step (demo_lib demo_jx) (demo_srv (server_handler demo_types))
     (server_commander demo_types) (Querier_Get (server_repo demo_types))"

lemma demo_http_race_order:
  "map fst (http_linearization demo_http_step [0, 1, 0, 1, 1, 0, 0, 1, 1, 0]
     (arriving demo_posts, demo_process (\<lambda>_. NoFault))) = [1, 0]"
  by code_simp

theorem http_linearizable_witness:
  "\<exists>log answers rs.
     log = http_linearization demo_http_step [0, 1, 0, 1, 1, 0, 0, 1, 1, 0]
       (arriving demo_posts, demo_process (\<lambda>_. NoFault))
     \<and> map fst log = [1, 0] \<and> http_lin_run demo_types log [] = (rs, answers)"
proof -
  let ?s = "demo_process (\<lambda>_. NoFault)"
  obtain mid s1 where one: "interleave demo_http_step [0, 1, 0, 1, 1] (arriving demo_posts, ?s) = (mid, s1)"
    by (rule prod.exhaust)
  obtain conns s' where two: "interleave demo_http_step [0, 0, 1, 1, 0] (mid, s1) = (conns, s')"
    by (rule prod.exhaust)
  have fresh: "list_all (\<lambda>(ctx, r, w). fresh_writer w \<and> rw_werr w = None) demo_posts"
    by (simp add: demo_posts_def)
  obtain answers where run:
    "http_lin_run demo_types (http_linearization demo_http_step [0, 1, 0, 1, 1] (arriving demo_posts, ?s)
       @ http_linearization demo_http_step [0, 0, 1, 1, 0] (mid, s1)) (db_rows ?s) = (db_rows s', answers)"
    using http_linearizable [OF demo_srv demo_db_ok fresh, unfolded demo_server_lib, OF refl one two refl refl]
    by blast
  have "db_rows ?s = []" by (simp add: db_rows_def demo_process_def)
  with run demo_http_race_order http_linearization_append [OF one, of "[0, 0, 1, 1, 0]"]
  show ?thesis by auto
qed

end
