(* ===== verification/Handler_Reports.thy ===== *)
theory Handler_Reports
  imports Api_Wiring
begin

text \<open>
  What the operations of internal/api/handler.go report while they run: the span each opens and
  ends when it returns, and its error log lines. The state is paired with the reports so far;
  \<open>tr\<close> is the context \<open>tracer.Start\<close> derives. Without the reports they are the
  operations of \<open>Api_Handler\<close>.
\<close>

section \<open>Reports\<close>

datatype report = SpanStarted string | SpanEnded string | ErrorLogged string gerr

type_synonym 's reported = "'s \<times> report list"

definition add_report :: "report \<Rightarrow> 's reported \<Rightarrow> 's reported" where
  "add_report e st = (fst st, snd st @ [e])"

text \<open>A call to a component that reports nothing of its own.\<close>

definition quietly :: "('s \<Rightarrow> 's \<times> 'a) \<Rightarrow> 's reported \<Rightarrow> 's reported \<times> 'a" where
  "quietly f st = (case f (fst st) of (s1, r) \<Rightarrow> ((s1, snd st), r))"

text \<open>The span is opened first and ended by a deferred call.\<close>

definition within_span ::
  "(string \<Rightarrow> 'c \<Rightarrow> 'c) \<Rightarrow> string \<Rightarrow> ('c \<Rightarrow> ('s reported, 'a) op_res) \<Rightarrow> 'c \<Rightarrow> ('s reported, 'a) op_res" where
  "within_span tr name body ctx st =
     (case body (tr name ctx) (add_report (SpanStarted name) st) of
        (st1, r) \<Rightarrow> (add_report (SpanEnded name) st1, r))"

definition CreateTask_body ::
  "lib \<Rightarrow> ('c, 's) api_handler \<Rightarrow> create_task_request \<Rightarrow> 'c \<Rightarrow> ('s reported, create_task_res) op_res" where
  "CreateTask_body L h req ctx st =
     (case request_payload L req of
        Inl err \<Rightarrow> (st, Inl err)
      | Inr payloadJSON \<Rightarrow>
          (let (key, _) = OptString_Get (cr_IdempotencyKey req);
               cmd = \<lparr>sc_Handler = cr_Handler req, sc_Payload = Some payloadJSON,
                      sc_IdempotencyKey = key\<rparr>
           in case quietly (hd_cmd h ctx cmd) st of
                (st1, Inl err) \<Rightarrow>
                  (add_report (ErrorLogged ''create task failed'' err) st1,
                   Inl (Wrapf ''submit task'' err))
              | (st1, Inr t) \<Rightarrow>
                  (case toOASTask t of
                     Inl err \<Rightarrow>
                       (add_report (ErrorLogged ''map task to response failed'' err) st1, Inl err)
                   | Inr dto \<Rightarrow> (st1, Inr (CreateTaskResTask dto)))))"

definition CreateTask_reporting ::
  "lib \<Rightarrow> (string \<Rightarrow> 'c \<Rightarrow> 'c) \<Rightarrow> ('c, 's) api_handler \<Rightarrow> 'c \<Rightarrow> create_task_request \<Rightarrow>
   ('s reported, create_task_res) op_res" where
  "CreateTask_reporting L tr h ctx req = within_span tr ''createTask'' (CreateTask_body L h req) ctx"

definition GetTask_body ::
  "('c, 's) api_handler \<Rightarrow> get_task_params \<Rightarrow> 'c \<Rightarrow> ('s reported, get_task_res) op_res" where
  "GetTask_body h params ctx st =
     (case quietly (hd_q h ctx (gp_ID params)) st of
        (st1, Inl err) \<Rightarrow>
          if errors_Is err ErrNotFound then
            (st1, Inr (GetTaskNotFound
                    \<lparr>oe_Code = ErrorCodeTaskNotFound, oe_Message = ''task ID not found''\<rparr>))
          else (add_report (ErrorLogged ''get task failed'' err) st1,
                Inl (WrapErrorf ''get task %s: %w'' [ArgUuid (gp_ID params)] err))
      | (st1, Inr view) \<Rightarrow>
          (case toOASTaskView view of
             Inl err \<Rightarrow>
               (add_report (ErrorLogged ''map task view to response failed'' err) st1, Inl err)
           | Inr dto \<Rightarrow> (st1, Inr (GetTaskResTask dto))))"

definition GetTask_reporting ::
  "(string \<Rightarrow> 'c \<Rightarrow> 'c) \<Rightarrow> ('c, 's) api_handler \<Rightarrow> 'c \<Rightarrow> get_task_params \<Rightarrow>
   ('s reported, get_task_res) op_res" where
  "GetTask_reporting tr h ctx params = within_span tr ''getTask'' (GetTask_body h params) ctx"

lemmas report_defs = add_report_def quietly_def within_span_def

section \<open>What is reported\<close>

lemma err_tree_self: "e \<in> set (err_tree e)"
  by (cases e) auto

lemma within_spanE:
  assumes "within_span tr name body ctx (s, es) = ((s', es'), r)"
  obtains logs where "body (tr name ctx) (s, es @ [SpanStarted name]) = ((s', logs), r)"
    and "es' = logs @ [SpanEnded name]"
  using assms by (auto simp: report_defs split: prod.splits)

lemma CreateTask_body_logs:
  assumes "CreateTask_body L h req ctx (s, es) = ((s', es'), r)"
  shows "Handler_CreateTask L h ctx req s = (s', r)
    \<and> (\<exists>logs. es' = es @ logs
        \<and> (case r of
             Inr _ \<Rightarrow> logs = []
           | Inl err \<Rightarrow>
               if request_payload L req = Inl err then logs = []
               else \<exists>m cause. logs = [ErrorLogged m cause] \<and> cause \<in> set (err_tree err)))"
proof (cases "request_payload L req")
  case (Inl err)
  with assms show ?thesis by (auto simp: CreateTask_body_def Handler_CreateTask_def)
next
  case (Inr payload)
  obtain key b where key: "OptString_Get (cr_IdempotencyKey req) = (key, b)"
    by (cases "OptString_Get (cr_IdempotencyKey req)")
  let ?cmd = "\<lparr>sc_Handler = cr_Handler req, sc_Payload = Some payload, sc_IdempotencyKey = key\<rparr>"
  obtain s1 q where sub: "hd_cmd h ctx ?cmd s = (s1, q)" by (cases "hd_cmd h ctx ?cmd s")
  note run = assms [unfolded CreateTask_body_def Inr, simplified, unfolded key, simplified]
  show ?thesis
  proof (cases q)
    case (Inl err)
    with run sub Inr key show ?thesis
      by (auto simp: Handler_CreateTask_def report_defs err_tree_self)
  next
    case (Inr t)
    with run sub \<open>request_payload L req = Inr payload\<close> key show ?thesis
      by (cases "toOASTask t") (auto simp: Handler_CreateTask_def report_defs err_tree_self)
  qed
qed

lemma GetTask_body_logs:
  assumes "GetTask_body h params ctx (s, es) = ((s', es'), r)"
  shows "Handler_GetTask h ctx params s = (s', r)
    \<and> (\<exists>logs. es' = es @ logs
        \<and> (case r of
             Inr _ \<Rightarrow> logs = []
           | Inl err \<Rightarrow> \<exists>m cause. logs = [ErrorLogged m cause] \<and> cause \<in> set (err_tree err)))"
proof -
  obtain s1 q where get: "hd_q h ctx (gp_ID params) s = (s1, q)"
    by (cases "hd_q h ctx (gp_ID params) s")
  show ?thesis
  proof (cases q)
    case (Inl err)
    with assms get show ?thesis
      by (auto simp: GetTask_body_def Handler_GetTask_def report_defs err_tree_self split: if_splits)
  next
    case (Inr v)
    with assms get show ?thesis
      by (cases "toOASTaskView v") (auto simp: GetTask_body_def Handler_GetTask_def report_defs err_tree_self)
  qed
qed

text \<open>
  C22. Reports of an operation: it opens its span first and ends it last, whatever it returns, and
  in between logs an error exactly once where it returns one, with the cause the returned error
  wraps; a task that does not exist is not logged, and neither is a payload that does not marshal,
  the one error the handler returns without a line of its own.
\<close>

theorem handler_reports_failures:
  "(case CreateTask_reporting L tr h ctx req (s, es) of
      ((s', es'), r) \<Rightarrow>
        Handler_CreateTask L h (tr ''createTask'' ctx) req s = (s', r)
        \<and> (\<exists>logs. es' = es @ SpanStarted ''createTask'' # logs @ [SpanEnded ''createTask'']
            \<and> (case r of
                 Inr _ \<Rightarrow> logs = []
               | Inl err \<Rightarrow>
                   if request_payload L req = Inl err then logs = []
                   else \<exists>m cause. logs = [ErrorLogged m cause] \<and> cause \<in> set (err_tree err))))
   \<and> (case GetTask_reporting tr h ctx params (s, es) of
        ((s', es'), r) \<Rightarrow>
          Handler_GetTask h (tr ''getTask'' ctx) params s = (s', r)
          \<and> (\<exists>logs. es' = es @ SpanStarted ''getTask'' # logs @ [SpanEnded ''getTask'']
              \<and> (case r of
                   Inr _ \<Rightarrow> logs = []
                 | Inl err \<Rightarrow> \<exists>m cause. logs = [ErrorLogged m cause] \<and> cause \<in> set (err_tree err))))"
proof (intro conjI)
  obtain s' es' r where run: "CreateTask_reporting L tr h ctx req (s, es) = ((s', es'), r)"
    by (cases "CreateTask_reporting L tr h ctx req (s, es)") (metis surj_pair)
  obtain logs where body: "CreateTask_body L h req (tr ''createTask'' ctx) (s, es @ [SpanStarted ''createTask''])
      = ((s', logs), r)" "es' = logs @ [SpanEnded ''createTask'']"
    using run unfolding CreateTask_reporting_def by (rule within_spanE)
  show "case CreateTask_reporting L tr h ctx req (s, es) of
      ((s', es'), r) \<Rightarrow>
        Handler_CreateTask L h (tr ''createTask'' ctx) req s = (s', r)
        \<and> (\<exists>logs. es' = es @ SpanStarted ''createTask'' # logs @ [SpanEnded ''createTask'']
            \<and> (case r of
                 Inr _ \<Rightarrow> logs = []
               | Inl err \<Rightarrow>
                   if request_payload L req = Inl err then logs = []
                   else \<exists>m cause. logs = [ErrorLogged m cause] \<and> cause \<in> set (err_tree err)))"
    unfolding run prod.case using CreateTask_body_logs [OF body(1)] body(2)
    by (auto split: sum.splits if_splits)
  obtain s' es' r where run: "GetTask_reporting tr h ctx params (s, es) = ((s', es'), r)"
    by (cases "GetTask_reporting tr h ctx params (s, es)") (metis surj_pair)
  obtain logs where body: "GetTask_body h params (tr ''getTask'' ctx) (s, es @ [SpanStarted ''getTask''])
      = ((s', logs), r)" "es' = logs @ [SpanEnded ''getTask'']"
    using run unfolding GetTask_reporting_def by (rule within_spanE)
  show "case GetTask_reporting tr h ctx params (s, es) of
      ((s', es'), r) \<Rightarrow>
        Handler_GetTask h (tr ''getTask'' ctx) params s = (s', r)
        \<and> (\<exists>logs. es' = es @ SpanStarted ''getTask'' # logs @ [SpanEnded ''getTask'']
            \<and> (case r of
                 Inr _ \<Rightarrow> logs = []
               | Inl err \<Rightarrow> \<exists>m cause. logs = [ErrorLogged m cause] \<and> cause \<in> set (err_tree err)))"
    unfolding run prod.case using GetTask_body_logs [OF body(1)] body(2)
    by (auto split: sum.splits)
qed

end
