(* ===== verification/Oas_Accessors.thy ===== *)
theory Oas_Accessors
  imports Oas_Types
begin

text \<open>
  The getters and setters of the generated types in oas_schemas_gen.go. A setter takes the
  receiver behind its pointer and returns it changed. What a caller relies on is a locale, kept
  by every field, and fields that are independent of each other.
\<close>

section \<open>Getters and setters\<close>

definition CreateTaskRequest_GetHandler :: "create_task_request \<Rightarrow> string" where
  "CreateTaskRequest_GetHandler s = cr_Handler s"

definition CreateTaskRequest_GetPayload :: "create_task_request \<Rightarrow> opt_payload" where
  "CreateTaskRequest_GetPayload s = cr_Payload s"

definition CreateTaskRequest_GetIdempotencyKey :: "create_task_request \<Rightarrow> opt_string" where
  "CreateTaskRequest_GetIdempotencyKey s = cr_IdempotencyKey s"

definition CreateTaskRequest_SetHandler :: "string \<Rightarrow> create_task_request \<Rightarrow> create_task_request" where
  "CreateTaskRequest_SetHandler val s = s\<lparr>cr_Handler := val\<rparr>"

definition CreateTaskRequest_SetPayload :: "opt_payload \<Rightarrow> create_task_request \<Rightarrow> create_task_request" where
  "CreateTaskRequest_SetPayload val s = s\<lparr>cr_Payload := val\<rparr>"

definition CreateTaskRequest_SetIdempotencyKey ::
  "opt_string \<Rightarrow> create_task_request \<Rightarrow> create_task_request" where
  "CreateTaskRequest_SetIdempotencyKey val s = s\<lparr>cr_IdempotencyKey := val\<rparr>"

definition Error_GetCode :: "oas_error \<Rightarrow> error_code" where
  "Error_GetCode s = oe_Code s"

definition Error_GetMessage :: "oas_error \<Rightarrow> string" where
  "Error_GetMessage s = oe_Message s"

definition Error_SetCode :: "error_code \<Rightarrow> oas_error \<Rightarrow> oas_error" where
  "Error_SetCode val s = s\<lparr>oe_Code := val\<rparr>"

definition Error_SetMessage :: "string \<Rightarrow> oas_error \<Rightarrow> oas_error" where
  "Error_SetMessage val s = s\<lparr>oe_Message := val\<rparr>"

definition Task_GetID :: "oas_task \<Rightarrow> uuid" where
  "Task_GetID s = ot_ID s"

definition Task_GetStatus :: "oas_task \<Rightarrow> oas_status" where
  "Task_GetStatus s = ot_Status s"

definition Task_GetCreatedAt :: "oas_task \<Rightarrow> gotime" where
  "Task_GetCreatedAt s = ot_CreatedAt s"

definition Task_SetID :: "uuid \<Rightarrow> oas_task \<Rightarrow> oas_task" where
  "Task_SetID val s = s\<lparr>ot_ID := val\<rparr>"

definition Task_SetStatus :: "oas_status \<Rightarrow> oas_task \<Rightarrow> oas_task" where
  "Task_SetStatus val s = s\<lparr>ot_Status := val\<rparr>"

definition Task_SetCreatedAt :: "gotime \<Rightarrow> oas_task \<Rightarrow> oas_task" where
  "Task_SetCreatedAt val s = s\<lparr>ot_CreatedAt := val\<rparr>"

lemmas accessor_defs =
  CreateTaskRequest_GetHandler_def CreateTaskRequest_GetPayload_def
  CreateTaskRequest_GetIdempotencyKey_def CreateTaskRequest_SetHandler_def
  CreateTaskRequest_SetPayload_def CreateTaskRequest_SetIdempotencyKey_def
  Error_GetCode_def Error_GetMessage_def Error_SetCode_def Error_SetMessage_def
  Task_GetID_def Task_GetStatus_def Task_GetCreatedAt_def
  Task_SetID_def Task_SetStatus_def Task_SetCreatedAt_def

section \<open>Fields\<close>

locale field =
  fixes get :: "'s \<Rightarrow> 'v" and put :: "'v \<Rightarrow> 's \<Rightarrow> 's"
  assumes get_put: "get (put v s) = v"
    and put_get: "put (get s) s = s"
    and put_put: "put v (put w s) = put v s"
begin

lemma put_id_iff: "put v s = s \<longleftrightarrow> get s = v"
  using get_put put_get by metis

lemma put_inject: "put v s = put w s \<longleftrightarrow> v = w"
  using get_put by metis

end

locale two_fields = a: field geta puta + b: field getb putb
  for geta :: "'s \<Rightarrow> 'v" and puta and getb :: "'s \<Rightarrow> 'w" and putb +
  assumes put_commute: "puta v (putb w s) = putb w (puta v s)"
begin

lemma get_other: "geta (putb w s) = geta s" "getb (puta v s) = getb s"
  using a.get_put a.put_get b.get_put b.put_get put_commute by metis+

end

interpretation handler_payload:
  two_fields CreateTaskRequest_GetHandler CreateTaskRequest_SetHandler
    CreateTaskRequest_GetPayload CreateTaskRequest_SetPayload
  by unfold_locales (simp_all add: accessor_defs)

interpretation handler_key:
  two_fields CreateTaskRequest_GetHandler CreateTaskRequest_SetHandler
    CreateTaskRequest_GetIdempotencyKey CreateTaskRequest_SetIdempotencyKey
  by unfold_locales (simp_all add: accessor_defs)

interpretation payload_key:
  two_fields CreateTaskRequest_GetPayload CreateTaskRequest_SetPayload
    CreateTaskRequest_GetIdempotencyKey CreateTaskRequest_SetIdempotencyKey
  by unfold_locales (simp_all add: accessor_defs)

interpretation code_message:
  two_fields Error_GetCode Error_SetCode Error_GetMessage Error_SetMessage
  by unfold_locales (simp_all add: accessor_defs)

interpretation id_status: two_fields Task_GetID Task_SetID Task_GetStatus Task_SetStatus
  by unfold_locales (simp_all add: accessor_defs)

interpretation id_created: two_fields Task_GetID Task_SetID Task_GetCreatedAt Task_SetCreatedAt
  by unfold_locales (simp_all add: accessor_defs)

interpretation status_created: two_fields Task_GetStatus Task_SetStatus Task_GetCreatedAt Task_SetCreatedAt
  by unfold_locales (simp_all add: accessor_defs)

text \<open>A request filled in by its setters is the request with these fields, in whatever order.\<close>

lemma filled_request:
  "CreateTaskRequest_SetIdempotencyKey k (CreateTaskRequest_SetPayload p (CreateTaskRequest_SetHandler h s)) =
     \<lparr>cr_Handler = h, cr_Payload = p, cr_IdempotencyKey = k\<rparr>"
  by (simp add: accessor_defs)

end
