(* ===== verification/Oas_Labels.thy ===== *)
theory Oas_Labels
  imports Api_Props "HOL-Library.List_Lexorder" "HOL-Library.Char_ord"
begin

text \<open>
  The labels of the server's metrics: oas_labeler_gen.go, the attributes the generated handlers
  give a request's span and labeler, and the attribute sets their counters and histogram record and
  the span ends with.
  Whatever is requested, they are drawn from a fixed list of series.
\<close>

section \<open>Attribute sets\<close>

text \<open>\<open>attribute.NewSet\<close>: sorted by key, the last value of a key wins.\<close>

fun upsert :: "string \<Rightarrow> attr_value \<Rightarrow> attributes \<Rightarrow> attributes" where
  "upsert k v [] = [(k, v)]"
| "upsert k v ((k', v') # xs) =
     (if k < k' then (k, v) # (k', v') # xs
      else if k = k' then (k, v) # xs else (k', v') # upsert k v xs)"

definition attribute_NewSet :: "attributes \<Rightarrow> attributes" where
  "attribute_NewSet kvs = fold (\<lambda>(k, v). upsert k v) kvs []"

abbreviation keys_ascending :: "attributes \<Rightarrow> bool" where
  "keys_ascending xs \<equiv> sorted_wrt (<) (map fst xs)"

lemma upsert_keys: "fst ` set (upsert k v xs) = insert k (fst ` set xs)"
  by (induction k v xs rule: upsert.induct) (simp_all add: insert_commute)

lemma upsert_ascending: "keys_ascending xs \<Longrightarrow> keys_ascending (upsert k v xs)"
proof (induction xs)
  case (Cons x xs)
  then show ?case
    using upsert_keys [of k v xs] by (cases x) (auto dest: order.strict_trans)
qed simp

lemma upsert_last: "keys_ascending (xs @ [(k, v)]) \<Longrightarrow> upsert k v xs = xs @ [(k, v)]"
  by (induction xs) (auto simp: sorted_wrt_append)

lemma NewSet_ascending: "keys_ascending (attribute_NewSet kvs)"
proof -
  have "keys_ascending xs \<Longrightarrow> keys_ascending (fold (\<lambda>(k, v). upsert k v) kvs xs)" for xs
    by (induction kvs arbitrary: xs) (auto intro: upsert_ascending)
  then show ?thesis by (simp add: attribute_NewSet_def)
qed

lemma NewSet_id: "keys_ascending xs \<Longrightarrow> attribute_NewSet xs = xs"
proof (induction xs rule: rev_induct)
  case (snoc x xs)
  obtain k v where x: "x = (k, v)" by (cases x)
  have "attribute_NewSet (xs @ [x]) = upsert k v (attribute_NewSet xs)"
    by (simp add: attribute_NewSet_def x)
  with snoc upsert_last [of xs k v] x show ?case by (simp add: sorted_wrt_append)
qed (simp add: attribute_NewSet_def)

lemma NewSet_append: "attribute_NewSet (attribute_NewSet xs @ ys) = attribute_NewSet (xs @ ys)"
  using NewSet_id [OF NewSet_ascending [of xs]] by (simp add: attribute_NewSet_def)

lemma upsert_present: "keys_ascending xs \<Longrightarrow> (k, v) \<in> set xs \<Longrightarrow> upsert k v xs = xs"
proof (induction xs)
  case (Cons x xs)
  show ?case
  proof (cases "x = (k, v)")
    case False
    with Cons.prems have "(k, v) \<in> set xs" by simp
    moreover from this Cons.prems(1) have "fst x < k" by force
    ultimately show ?thesis using Cons by (cases x) auto
  qed simp
qed simp

lemma NewSet_absorb: "attribute_NewSet (attribute_NewSet xs @ attribute_NewSet xs @ ys) = attribute_NewSet (xs @ ys)"
proof -
  have "fold (\<lambda>(k, v). upsert k v) zs S = S" if "keys_ascending S" "set zs \<subseteq> set S" for zs S
    using that by (induction zs) (auto simp: upsert_present)
  from this [OF NewSet_ascending [of xs] order.refl]
  have "attribute_NewSet (attribute_NewSet xs @ attribute_NewSet xs) = attribute_NewSet xs"
    using NewSet_id [OF NewSet_ascending [of xs]] by (simp add: attribute_NewSet_def)
  then show ?thesis by (simp add: attribute_NewSet_def)
qed

section \<open>The labeler (oas_labeler_gen.go)\<close>

record labeler = lb_attrs :: attributes

definition Labeler_Add :: "attributes \<Rightarrow> labeler \<Rightarrow> labeler" where
  "Labeler_Add attrs l = l\<lparr>lb_attrs := lb_attrs l @ attrs\<rparr>"

definition Labeler_AttributeSet :: "labeler \<Rightarrow> attributes" where
  "Labeler_AttributeSet l = attribute_NewSet (lb_attrs l)"

text \<open>A context is what it was derived from and, where one was put into it, the labeler.\<close>

datatype 'c label_context = BareContext 'c | WithLabeler labeler "'c label_context"

definition contextWithLabeler :: "'c label_context \<Rightarrow> labeler \<Rightarrow> 'c label_context" where
  "contextWithLabeler ctx l = WithLabeler l ctx"

definition LabelerFromContext :: "'c label_context \<Rightarrow> labeler \<times> bool" where
  "LabelerFromContext ctx =
     (case ctx of WithLabeler l _ \<Rightarrow> (l, True) | BareContext _ \<Rightarrow> (\<lparr>lb_attrs = []\<rparr>, False))"

lemma LabelerFromContext_with [simp]: "LabelerFromContext (contextWithLabeler ctx l) = (l, True)"
  by (simp add: LabelerFromContext_def contextWithLabeler_def)

section \<open>The attributes of a request\<close>

text \<open>The attribute keys of \<open>otelogen\<close> and the semantic conventions.\<close>

record attr_keys =
  ak_operation :: string
  ak_method :: string
  ak_route :: string
  ak_status :: string

definition otel_attrs :: "attr_keys \<Rightarrow> otel_config \<Rightarrow> string \<Rightarrow> attributes" where
  "otel_attrs K cfg op =
     (if op = CreateTaskOperation then
        [(ak_operation K, AttrString ''createTask''), (ak_method K, AttrString ''POST''),
         (ak_route K, AttrString ''/v1/tasks'')]
      else
        [(ak_operation K, AttrString ''getTask''), (ak_method K, AttrString ''GET''),
         (ak_route K, AttrString ''/v1/tasks/{id}'')]) @ oc_Attributes cfg"

text \<open>What a handler with the context of the request has added to the labeler is \<open>extra\<close>.\<close>

definition request_labeler :: "attr_keys \<Rightarrow> otel_config \<Rightarrow> string \<Rightarrow> attributes \<Rightarrow> labeler" where
  "request_labeler K cfg op extra = Labeler_Add extra \<lparr>lb_attrs = otel_attrs K cfg op\<rparr>"

text \<open>The status code is appended unless nothing was written; the metric makes a set of the rest.\<close>

definition metric_attrs :: "attr_keys \<Rightarrow> labeler \<Rightarrow> nat \<Rightarrow> attributes" where
  "metric_attrs K l code =
     (let attrs = Labeler_AttributeSet l
      in if code \<noteq> 0 then attrs @ [(ak_status K, AttrInt (int code))] else attrs)"

datatype instrument = Requests | Errors | Duration

definition tel_series :: "attr_keys \<Rightarrow> (string \<Rightarrow> labeler) \<Rightarrow> tel \<Rightarrow> (instrument \<times> attributes) list" where
  "tel_series K lab t =
     (case t of
        TelRequestsAdd op code \<Rightarrow> [(Requests, attribute_NewSet (metric_attrs K (lab op) code))]
      | TelErrorsAdd op code \<Rightarrow> [(Errors, attribute_NewSet (metric_attrs K (lab op) code))]
      | TelDuration op code \<Rightarrow> [(Duration, attribute_NewSet (metric_attrs K (lab op) code))]
      | _ \<Rightarrow> [])"

definition request_series ::
  "attr_keys \<Rightarrow> (string \<Rightarrow> labeler) \<Rightarrow> tel list \<Rightarrow> (instrument \<times> attributes) list" where
  "request_series K lab ts = concat (map (tel_series K lab) ts)"

text \<open>
  The attributes of the request's span: those it is started with, then what the stopwatch sets
  beside the status code. The SDK keeps the last value of a key.
\<close>

definition tel_span ::
  "attr_keys \<Rightarrow> otel_config \<Rightarrow> (string \<Rightarrow> labeler) \<Rightarrow> string \<Rightarrow> tel \<Rightarrow> attributes \<Rightarrow> attributes" where
  "tel_span K cfg lab op t attrs =
     (case t of
        TelSpanStart op' \<Rightarrow> attribute_NewSet (otel_attrs K cfg op')
      | TelSpanCode code \<Rightarrow> attribute_NewSet (attrs @ metric_attrs K (lab op) code)
      | _ \<Rightarrow> attrs)"

definition span_attributes ::
  "attr_keys \<Rightarrow> otel_config \<Rightarrow> (string \<Rightarrow> labeler) \<Rightarrow> string \<Rightarrow> tel list \<Rightarrow> attributes" where
  "span_attributes K cfg lab op ts = fold (tel_span K cfg lab op) ts []"

section \<open>Cardinality\<close>

definition operation_codes :: "instrument \<Rightarrow> (string \<times> nat) list" where
  "operation_codes i =
     (case i of
        Errors \<Rightarrow> [(CreateTaskOperation, 400), (CreateTaskOperation, 500), (GetTaskOperation, 400), (GetTaskOperation, 500)]
      | _ \<Rightarrow> [(CreateTaskOperation, 201), (CreateTaskOperation, 400), (CreateTaskOperation, 500),
              (GetTaskOperation, 200), (GetTaskOperation, 400), (GetTaskOperation, 404), (GetTaskOperation, 500)])"

definition known_series :: "attr_keys \<Rightarrow> (instrument \<times> attributes) list" where
  "known_series K =
     [(i, attribute_NewSet
            ((if op = CreateTaskOperation
              then [(ak_operation K, AttrString ''createTask''), (ak_method K, AttrString ''POST''),
                    (ak_route K, AttrString ''/v1/tasks'')]
              else [(ak_operation K, AttrString ''getTask''), (ak_method K, AttrString ''GET''),
                    (ak_route K, AttrString ''/v1/tasks/{id}'')]) @ [(ak_status K, AttrInt (int code))])).
      i \<leftarrow> [Requests, Errors, Duration], (op, code) \<leftarrow> operation_codes i]"

lemma known_series_length: "length (known_series K) = 18"
  by (simp add: known_series_def operation_codes_def)

lemma tel_series_known:
  assumes "(op, code) \<in> set (operation_codes i)" and "oc_Attributes cfg = []"
  shows "(i, attribute_NewSet (metric_attrs K (request_labeler K cfg op []) code)) \<in> set (known_series K)"
proof -
  have "code \<noteq> 0" using assms(1) by (auto simp: operation_codes_def split: instrument.splits)
  then have "attribute_NewSet (metric_attrs K (request_labeler K cfg op []) code) =
      attribute_NewSet (otel_attrs K cfg op @ [(ak_status K, AttrInt (int code))])"
    by (simp add: metric_attrs_def request_labeler_def Labeler_AttributeSet_def Labeler_Add_def NewSet_append)
  moreover have "i \<in> set [Requests, Errors, Duration]" by (cases i) simp_all
  ultimately show ?thesis
    using assms unfolding known_series_def otel_attrs_def by (force simp: image_iff)
qed

lemma api_server_attributes:
  "api_server E h = Inr srv \<Longrightarrow> oc_Attributes (cfg_otel (sv_cfg srv)) = []"
  by (auto simp: api_server_def NewServer_def baseServer_def newServerConfig_def initOTEL_def Let_def
      split: option.splits)

definition known_tel :: "tel \<Rightarrow> bool" where
  "known_tel t =
     (case t of
        TelRequestsAdd op c \<Rightarrow> (op, c) \<in> set (operation_codes Requests)
      | TelErrorsAdd op c \<Rightarrow> (op, c) \<in> set (operation_codes Errors)
      | TelDuration op c \<Rightarrow> (op, c) \<in> set (operation_codes Duration)
      | _ \<Rightarrow> True)"

lemma tel_series_known_tel:
  assumes "known_tel t" and "oc_Attributes cfg = []"
  shows "set (tel_series K (\<lambda>op. request_labeler K cfg op []) t) \<subseteq> set (known_series K)"
  using assms tel_series_known [OF _ assms(2), of _ _ _ K]
  by (cases t) (auto simp: known_tel_def tel_series_def)

text \<open>The telemetry of an operation: one span around at most one error and the request's metrics.\<close>

definition error_tel :: "string \<Rightarrow> nat \<Rightarrow> tel \<Rightarrow> bool" where
  "error_tel op c t =
     (case t of
        TelErrorsAdd op' c' \<Rightarrow> op' = op \<and> c' = c \<and> (op, c) \<in> set (operation_codes Errors)
      | TelRecordError _ \<Rightarrow> True
      | TelStatusError _ \<Rightarrow> True
      | _ \<Rightarrow> False)"

lemma serve_telemetry:
  assumes "api_server E h = Inr srv" and "fresh_writer (ex_rw ex)" and "ex_tel ex = []"
    and "is_operation (serve_route (se_lib E) [] r)"
  obtains mid c where
    "ex_tel (ServeHTTP (se_lib E) srv ctx r ex) =
      TelSpanStart (op_of_call (serve_route (se_lib E) [] r)) # mid
        @ [TelSpanCode c, TelRequestsAdd (op_of_call (serve_route (se_lib E) [] r)) c,
           TelDuration (op_of_call (serve_route (se_lib E) [] r)) c,
           TelSpanEnd (op_of_call (serve_route (se_lib E) [] r))]"
      "list_all (error_tel (op_of_call (serve_route (se_lib E) [] r)) c) mid"
      "(op_of_call (serve_route (se_lib E) [] r), c) \<in> set (operation_codes Requests)"
proof -
  let ?L = "se_lib E" and ?ex' = "ServeHTTP (se_lib E) srv ctx r ex"
  obtain e where e: "ended ?L (op_of_call (serve_route ?L [] r)) (ex_rw ex) (ex_tel ex) e ?ex'"
    "case serve_route ?L [] r of
        CallCreateTask esc \<Rightarrow> create_ends ?L h ctx r (ex_app ex) (ex_app ?ex') e
      | CallGetTask arg esc \<Rightarrow> get_ends ?L h ctx arg esc (ex_app ex) (ex_app ?ex') e
      | _ \<Rightarrow> False"
    by (rule serve_operation [OF assms(1,2) refl assms(4)])
  have op: "op_of_call (serve_route ?L [] r) = CreateTaskOperation \<and> (\<forall>c enc. e = Answered c enc \<longrightarrow> c = 201)
      \<or> op_of_call (serve_route ?L [] r) = GetTaskOperation \<and> (\<forall>c enc. e = Answered c enc \<longrightarrow> c = 200 \<or> c = 404)"
    using e(2) by (auto simp: op_of_call_def elim!: create_endsE get_endsE split: route_call.splits)
  note obtained = that
  have failed: thesis
    if "ex_tel ?ex' = [TelSpanStart (op_of_call (serve_route ?L [] r)), TelRecordError err]
        @ (if c = 500 then [TelStatusError stage] else [])
        @ [TelErrorsAdd (op_of_call (serve_route ?L [] r)) c, TelSpanCode c,
           TelRequestsAdd (op_of_call (serve_route ?L [] r)) c,
           TelDuration (op_of_call (serve_route ?L [] r)) c, TelSpanEnd (op_of_call (serve_route ?L [] r))]"
      and "c = 400 \<or> c = 500" for err stage c
    by (rule obtained [of "TelRecordError err # (if c = 500 then [TelStatusError stage] else [])
          @ [TelErrorsAdd (op_of_call (serve_route ?L [] r)) c]" c])
      (use that op in \<open>auto simp: error_tel_def operation_codes_def\<close>)
  show thesis
  proof (cases e)
    case (Failed err)
    with e(1) assms(3) obtain stage where "ex_tel ?ex' =
        [TelSpanStart (op_of_call (serve_route ?L [] r)), TelRecordError err]
        @ (if fst (classify_error ?L err) = 500 then [TelStatusError stage] else [])
        @ [TelErrorsAdd (op_of_call (serve_route ?L [] r)) (fst (classify_error ?L err)),
           TelSpanCode (fst (classify_error ?L err)),
           TelRequestsAdd (op_of_call (serve_route ?L [] r)) (fst (classify_error ?L err)),
           TelDuration (op_of_call (serve_route ?L [] r)) (fst (classify_error ?L err)),
           TelSpanEnd (op_of_call (serve_route ?L [] r))]"
      by (auto simp: ended_def case_prod_beta)
    then show thesis by (rule failed) (rule classify_error_code)
  next
    case (Answered c enc)
    with e(1) op assms(3) show thesis
      by (intro obtained [of "[]" c]) (auto simp: ended_def operation_codes_def)
  next
    case (Broken c err)
    let ?c = "fst (classify_error ?L (Wrapf ''write'' err))"
    from Broken e(1) assms(3) obtain stage where "ex_tel ?ex' =
        [TelSpanStart (op_of_call (serve_route ?L [] r)), TelRecordError (Wrapf ''write'' err)]
        @ (if ?c = 500 then [TelStatusError stage] else [])
        @ [TelErrorsAdd (op_of_call (serve_route ?L [] r)) ?c, TelSpanCode ?c,
           TelRequestsAdd (op_of_call (serve_route ?L [] r)) ?c,
           TelDuration (op_of_call (serve_route ?L [] r)) ?c, TelSpanEnd (op_of_call (serve_route ?L [] r))]"
      by (auto simp: ended_def Let_def)
    then show thesis by (rule failed) (rule classify_error_code)
  qed
qed

lemma serve_known_tel:
  assumes "api_server E h = Inr srv" and "fresh_writer (ex_rw ex)" and "ex_tel ex = []"
    and "t \<in> set (ex_tel (ServeHTTP (se_lib E) srv ctx r ex))"
  shows "known_tel t"
proof (cases "is_operation (serve_route (se_lib E) [] r)")
  case False
  then show ?thesis
    using assms(3,4)
    by (auto simp: ServeHTTP_def api_server_cfg [OF assms(1)] is_operation_def split: route_call.splits)
next
  case True
  let ?op = "op_of_call (serve_route (se_lib E) [] r)"
  obtain mid c where ts: "ex_tel (ServeHTTP (se_lib E) srv ctx r ex) =
      TelSpanStart ?op # mid @ [TelSpanCode c, TelRequestsAdd ?op c, TelDuration ?op c, TelSpanEnd ?op]"
    "list_all (error_tel ?op c) mid" "(?op, c) \<in> set (operation_codes Requests)"
    by (rule serve_telemetry [OF assms(1-3) True])
  have "known_tel u" if "u \<in> set mid" for u
    using ts(2) that by (cases u) (auto simp: list_all_iff error_tel_def known_tel_def)
  with assms(4) ts(1,3) show ?thesis by (auto simp: known_tel_def operation_codes_def)
qed

text \<open>The labels set when the span ends are those of the request's counters.\<close>

lemma span_attributes_counted:
  fixes K cfg
  defines "lab \<equiv> \<lambda>op. request_labeler K cfg op []"
  assumes "ts = TelSpanStart op # mid @ [TelSpanCode c, TelRequestsAdd op c, TelDuration op c, TelSpanEnd op]"
    and "list_all (error_tel op c) mid"
  shows "(Requests, span_attributes K cfg lab op ts) \<in> set (request_series K lab ts)"
proof -
  have "fold (tel_span K cfg lab op) mid xs = xs" for xs
    using assms(3)
    by (induction mid arbitrary: xs) (auto simp: error_tel_def tel_span_def split: tel.splits)
  then have "span_attributes K cfg lab op ts =
      attribute_NewSet (attribute_NewSet (otel_attrs K cfg op) @ metric_attrs K (lab op) c)"
    by (simp add: span_attributes_def assms(2) tel_span_def)
  also have "\<dots> = attribute_NewSet (metric_attrs K (lab op) c)"
    using NewSet_absorb [of "otel_attrs K cfg op"] NewSet_absorb [of "otel_attrs K cfg op" "[]"]
    by (simp add: lab_def metric_attrs_def request_labeler_def Labeler_Add_def Labeler_AttributeSet_def
        NewSet_append NewSet_append [of _ "[]", simplified] Let_def)
  finally show ?thesis by (simp add: assms(2) request_series_def tel_series_def)
qed

text \<open>
  C25. The cardinality of the server's metrics is bounded: whatever is requested and whatever the
  handler answers, the counters and the histogram record under one of eighteen series, each with
  its keys sorted and without repetition. No id, idempotency key or handler name of a request
  becomes a label. The span of an operation ends with the labels under which it is counted.
\<close>

theorem metric_series_bounded:
  assumes "api_server E h = Inr srv" and "fresh_writer (ex_rw ex)" and "ex_tel ex = []"
    and "ex' = ServeHTTP (se_lib E) srv ctx r ex"
  shows "set (request_series K (\<lambda>op. request_labeler K (cfg_otel (sv_cfg srv)) op []) (ex_tel ex'))
      \<subseteq> set (known_series K)
    \<and> length (known_series K) = 18
    \<and> (is_operation (serve_route (se_lib E) [] r) \<longrightarrow>
        (Requests, span_attributes K (cfg_otel (sv_cfg srv))
            (\<lambda>op. request_labeler K (cfg_otel (sv_cfg srv)) op [])
            (op_of_call (serve_route (se_lib E) [] r)) (ex_tel ex'))
          \<in> set (request_series K (\<lambda>op. request_labeler K (cfg_otel (sv_cfg srv)) op []) (ex_tel ex')))
    \<and> list_all (\<lambda>(i, labels). keys_ascending labels) (known_series K)"
proof (intro conjI)
  show "set (request_series K (\<lambda>op. request_labeler K (cfg_otel (sv_cfg srv)) op []) (ex_tel ex'))
      \<subseteq> set (known_series K)"
    using serve_known_tel [OF assms(1-3), of _ ctx r]
      tel_series_known_tel [OF _ api_server_attributes [OF assms(1)], of _ K]
    unfolding assms(4) request_series_def by fastforce
  show "is_operation (serve_route (se_lib E) [] r) \<longrightarrow>
      (Requests, span_attributes K (cfg_otel (sv_cfg srv))
          (\<lambda>op. request_labeler K (cfg_otel (sv_cfg srv)) op [])
          (op_of_call (serve_route (se_lib E) [] r)) (ex_tel ex'))
        \<in> set (request_series K (\<lambda>op. request_labeler K (cfg_otel (sv_cfg srv)) op []) (ex_tel ex'))"
    unfolding assms(4)
    by (intro impI, rule serve_telemetry [OF assms(1-3)], assumption) (rule span_attributes_counted)
  show "list_all (\<lambda>(i, labels). keys_ascending labels) (known_series K)"
    using NewSet_ascending by (auto simp: known_series_def list_all_iff)
qed (rule known_series_length)

definition demo_attr_keys :: attr_keys where
  "demo_attr_keys =
     \<lparr>ak_operation = ''oas.operation'', ak_method = ''http.request.method'', ak_route = ''http.route'',
      ak_status = ''http.response.status_code''\<rparr>"

theorem metric_series_bounded_witness:
  "\<exists>srv. api_server (demo_server_env demo_jx) demo_backend = Inr srv
     \<and> set (request_series demo_attr_keys
             (\<lambda>op. request_labeler demo_attr_keys (cfg_otel (sv_cfg srv)) op [])
             (ex_tel (ServeHTTP (demo_lib demo_jx) srv () (demo_http ''POST'' ''/v1/tasks'') (demo_exchange None))))
         \<subseteq> set (known_series demo_attr_keys)"
proof -
  obtain srv where srv: "api_server (demo_server_env demo_jx) demo_backend = Inr srv"
    by (rule demo_server)
  have "ex_tel (demo_exchange None) = []" by (simp add: demo_exchange_def)
  from metric_series_bounded [OF srv demo_exchange_fresh(1) this refl, of demo_attr_keys "()"] srv
  show ?thesis by auto
qed

end
