(* ===== verification/Oas_Unimplemented.thy ===== *)
theory Oas_Unimplemented
  imports Api_Props
begin

text \<open>
  internal/api/oas/oas_unimplemented_gen.go: the handler that implements nothing, and what a
  server with the program's error handler makes of it.
\<close>

definition UnimplementedHandler :: "('c, 's) oas_handler" where
  "UnimplementedHandler =
     \<lparr>h_CreateTask = (\<lambda>ctx req s. (s, Inl (Sentinel ErrNotImplemented))),
      h_GetTask = (\<lambda>ctx params s. (s, Inl (Sentinel ErrNotImplemented)))\<rparr>"

lemma classify_unimplemented:
  "classify_error L (Sentinel ErrNotImplemented) = (500, ErrorCodeInternalError, ''internal server error'')"
  by (simp add: classify_error_def errors_As_def)

text \<open>
  Every request is answered without touching the state: where the handler would be called with
  500, like any internal error.
\<close>

lemma unimplemented_server:
  assumes "NewServer E UnimplementedHandler [WithErrorHandler (Some (ErrorHandler (se_lib E)))] = Inr srv"
    and "rw_status (ex_rw ex) = None"
  shows "ex_app (ServeHTTP (se_lib E) srv ctx r ex) = ex_app ex"
    and "serve_route (se_lib E) [] r = CallGetTask arg esc \<Longrightarrow>
      decodeGetTaskParams (se_lib E) arg esc = Inr params \<Longrightarrow>
      rw_status (ex_rw (ServeHTTP (se_lib E) srv ctx r ex)) = Some 500"
    and "serve_route (se_lib E) [] r = CallCreateTask esc \<Longrightarrow>
      decodeCreateTaskRequest (se_lib E) r = (Some q, raw, None, None) \<Longrightarrow>
      rw_status (ex_rw (ServeHTTP (se_lib E) srv ctx r ex)) = Some 500"
proof -
  have cfg: "sv_h srv = UnimplementedHandler" "cfg_ErrorHandler (sv_cfg srv) = ErrorHandler (se_lib E)"
    "cfg_Middleware (sv_cfg srv) = None" "cfg_Prefix (sv_cfg srv) = []"
    using assms(1)
    by (auto simp: NewServer_def baseServer_def newServerConfig_def Let_def split: option.splits)
  show "ex_app (ServeHTTP (se_lib E) srv ctx r ex) = ex_app ex"
  proof (cases "serve_route (se_lib E) [] r")
    case (CallCreateTask e)
    obtain req raw cl de where dec: "decodeCreateTaskRequest (se_lib E) r = (req, raw, cl, de)"
      by (cases "decodeCreateTaskRequest (se_lib E) r")
    with CallCreateTask show ?thesis
      using decode_shape(1) [OF dec]
      by (cases de; cases req) (simp_all add: ServeHTTP_def handleCreateTaskRequest_def cfg
          UnimplementedHandler_def run_handler_def Let_def)
  next
    case (CallGetTask a e)
    then show ?thesis
      by (cases "decodeGetTaskParams (se_lib E) a e") (simp_all add: ServeHTTP_def
          handleGetTaskRequest_def cfg UnimplementedHandler_def run_handler_def Let_def)
  qed (simp_all add: ServeHTTP_def cfg)
  show "rw_status (ex_rw (ServeHTTP (se_lib E) srv ctx r ex)) = Some 500"
    if "serve_route (se_lib E) [] r = CallGetTask arg esc"
      "decodeGetTaskParams (se_lib E) arg esc = Inr params"
    using that assms(2) by (simp add: ServeHTTP_def handleGetTaskRequest_def cfg UnimplementedHandler_def
        run_handler_def ErrorHandler_def classify_unimplemented Let_def)
  show "rw_status (ex_rw (ServeHTTP (se_lib E) srv ctx r ex)) = Some 500"
    if "serve_route (se_lib E) [] r = CallCreateTask esc"
      "decodeCreateTaskRequest (se_lib E) r = (Some q, raw, None, None)"
    using that assms(2) by (simp add: ServeHTTP_def handleCreateTaskRequest_def cfg UnimplementedHandler_def
        run_handler_def ErrorHandler_def classify_unimplemented Let_def)
qed

end
