(* ===== verification/Worker_Proto.thy ===== *)
theory Worker_Proto
  imports Go_Prelude
begin

text \<open>
  The worker protocol of api/proto: the generated stubs of a service without methods yet. The file
  descriptor embedded in worker.pb.go as bytes, against api/proto/flowhand/v1/worker.proto and the
  wire format of protobuf; the package's variables and their initialisation, with protoimpl's
  builder a parameter; the gRPC description of the service and its registration, with the registrar
  a parameter.
\<close>

section \<open>The wire format\<close>

text \<open>
  Base-128 varints, least significant group first, and length-delimited fields (wire type 2), the
  only ones these messages have. A message is the sequence of its fields.
\<close>

fun put_varint :: "nat \<Rightarrow> bytes" where
  "put_varint n = (if n < 128 then [char_of n] else char_of (n mod 128 + 128) # put_varint (n div 128))"

declare put_varint.simps [simp del]

fun get_varint :: "bytes \<Rightarrow> (nat \<times> bytes) option" where
  "get_varint [] = None"
| "get_varint (c # cs) =
     (let b = of_char c
      in if b < 128 then Some (b, cs)
         else map_option (\<lambda>(m, rest). (b - 128 + 128 * m, rest)) (get_varint cs))"

lemma get_put_varint [simp]: "get_varint (put_varint n @ rest) = Some (n, rest)"
proof (induction n rule: put_varint.induct)
  case (1 n)
  show ?case
  proof (cases "n < 128")
    case True
    then show ?thesis by (simp add: put_varint.simps [of n])
  next
    case False
    have "(of_char (char_of (n mod 128 + 128) :: char) :: nat) = n mod 128 + 128" by simp
    with False 1 show ?thesis by (simp add: put_varint.simps [of n] Let_def)
  qed
qed

lemma get_varint_shorter: "get_varint bs = Some (n, rest) \<Longrightarrow> length rest < length bs"
  by (induction bs arbitrary: n rest) (fastforce simp: Let_def split: if_splits)+

type_synonym wire_field = "nat \<times> bytes"

definition put_field :: "wire_field \<Rightarrow> bytes" where
  "put_field = (\<lambda>(n, v). put_varint (8 * n + 2) @ put_varint (length v) @ v)"

definition get_field :: "bytes \<Rightarrow> (wire_field \<times> bytes) option" where
  "get_field bs =
     (case get_varint bs of
        None \<Rightarrow> None
      | Some (tag, bs1) \<Rightarrow>
          if tag mod 8 \<noteq> 2 then None
          else (case get_varint bs1 of
                  None \<Rightarrow> None
                | Some (n, bs2) \<Rightarrow>
                    if n \<le> length bs2 then Some ((tag div 8, take n bs2), drop n bs2) else None))"

lemma get_put_field [simp]: "get_field (put_field f @ rest) = Some (f, rest)"
proof -
  have "Suc (Suc (8 * n)) mod 8 = 2" "Suc (Suc (8 * n)) div 8 = n" for n :: nat by presburger+
  then show ?thesis by (cases f) (simp add: get_field_def put_field_def)
qed

lemma get_field_shorter: "get_field bs = Some (f, rest) \<Longrightarrow> length rest < length bs"
  by (fastforce simp: get_field_def dest!: get_varint_shorter split: option.splits if_splits)

lemma put_field_not_Nil [simp]: "put_field f \<noteq> []"
  using get_put_field [of f "[]"] by (auto simp: get_field_def)

definition put_fields :: "wire_field list \<Rightarrow> bytes" where
  "put_fields fs = concat (map put_field fs)"

function get_fields :: "bytes \<Rightarrow> wire_field list option" where
  "get_fields bs =
     (if bs = [] then Some []
      else case get_field bs of
             None \<Rightarrow> None
           | Some (f, rest) \<Rightarrow> map_option (Cons f) (get_fields rest))"
  by pat_completeness auto
termination by (relation "measure length") (auto dest: get_field_shorter)

declare get_fields.simps [simp del]

lemma get_put_fields [simp]: "get_fields (put_fields fs) = Some fs"
proof (induction fs)
  case (Cons f fs)
  have "get_fields (put_field f @ put_fields fs) = map_option (Cons f) (get_fields (put_fields fs))"
    by (subst get_fields.simps) simp
  with Cons show ?case by (simp add: put_fields_def)
qed (simp add: put_fields_def get_fields.simps)

section \<open>File descriptors\<close>

text \<open>
  A .proto file as its \<open>FileDescriptorProto\<close> holds it, so far as the files of this repository
  have it: services without methods, one option.
\<close>

record proto_file =
  pf_name :: string
  pf_package :: string
  pf_services :: "string list"
  pf_go_package :: string
  pf_syntax :: string

text \<open>api/proto/flowhand/v1/worker.proto, under its path in the module api/proto of buf.yaml.\<close>

definition worker_proto :: proto_file where
  "worker_proto =
     \<lparr>pf_name = ''flowhand/v1/worker.proto'', pf_package = ''flowhand.v1'',
      pf_services = [''WorkerService''],
      pf_go_package = ''github.com/RomanAgaltsev/flowhand/api/proto/gen/flowhand/v1;flowhandv1'',
      pf_syntax = ''proto3''\<rparr>"

text \<open>
  The fields of descriptor.proto: of a file its name 1, package 2, services 6, options 8 and syntax
  12; of a service its name 1; of the options go\_package 11. Of a repeated scalar the last counts.
\<close>

definition encode_file :: "proto_file \<Rightarrow> bytes" where
  "encode_file f =
     put_fields ([(1, pf_name f), (2, pf_package f)]
       @ map (\<lambda>s. (6, put_fields [(1, s)])) (pf_services f)
       @ [(8, put_fields [(11, pf_go_package f)]), (12, pf_syntax f)])"

definition scalar_field :: "nat \<Rightarrow> bytes \<Rightarrow> bytes option" where
  "scalar_field n bs = Option.bind (get_fields bs) (\<lambda>fs. map_of (rev fs) n)"

definition decode_file :: "bytes \<Rightarrow> proto_file option" where
  "decode_file bs =
     (case get_fields bs of
        None \<Rightarrow> None
      | Some fs \<Rightarrow>
          (case (map_of (rev fs) 1, map_of (rev fs) 2, map_of (rev fs) 12,
                 Option.bind (map_of (rev fs) 8) (scalar_field 11),
                 those (map (\<lambda>(n, v). scalar_field 1 v) (filter (\<lambda>(n, v). n = 6) fs))) of
             (Some name, Some pkg, Some syn, Some go, Some svcs) \<Rightarrow>
               Some \<lparr>pf_name = name, pf_package = pkg, pf_services = svcs, pf_go_package = go,
                     pf_syntax = syn\<rparr>
           | _ \<Rightarrow> None))"

lemma scalar_field_single [simp]: "scalar_field n (put_fields [(n, v)]) = Some v"
  by (simp add: scalar_field_def)

lemma those_services [simp]:
  "those (map (\<lambda>(n, v). scalar_field 1 v) (map (\<lambda>s. (6::nat, put_fields [(1, s)])) svcs)) = Some svcs"
  by (induction svcs) (simp_all del: One_nat_def)

lemma decode_encode_file: "decode_file (encode_file f) = Some f"
proof -
  let ?svcs = "map (\<lambda>s. (6::nat, put_fields [(1, s)])) (pf_services f)"
  have svcs: "filter (\<lambda>(n, v). n = 6) ?svcs = ?svcs" by (simp add: filter_map comp_def)
  have none: "map_of (rev ?svcs) 2 = None" "map_of (rev ?svcs) 1 = None"
    by (auto simp: map_of_eq_None_iff)
  show ?thesis
    unfolding decode_file_def encode_file_def get_put_fields
    using none by (simp add: map_add_def svcs del: map_map One_nat_def)
qed

section \<open>worker.pb.go\<close>

definition file_flowhand_v1_worker_proto_rawDesc :: bytes where
  "file_flowhand_v1_worker_proto_rawDesc =
     [CHR 0x0A]
     @ [CHR 0x18] @ ''flowhand/v1/worker.proto'' @ [CHR 0x12, CHR 0x0B] @ ''flowhand.v12''
       @ [CHR 0x0F, CHR 0x0A]
     @ [CHR 0x0D]
       @ ''WorkerServiceBHZFgithub.com/RomanAgaltsev/flowhand/api/proto/gen/flowhand/v1;flowhandv1b''
       @ [CHR 0x06] @ ''proto3''"

text \<open>
  The package's variables. A descriptor is an interface value, nil before initialisation; the two
  slices are set to nil by it. The builder is protoimpl's.
\<close>

record type_builder =
  tb_GoPackagePath :: string
  tb_RawDescriptor :: bytes
  tb_NumEnums :: "32 word"
  tb_NumMessages :: "32 word"
  tb_NumExtensions :: "32 word"
  tb_NumServices :: "32 word"
  tb_GoTypes :: "string list option"
  tb_DependencyIndexes :: "32 word list option"

record 'fd proto_vars =
  File_worker_proto :: "'fd option"
  worker_proto_goTypes :: "string list option"
  worker_proto_depIdxs :: "32 word list option"

definition worker_proto_vars :: "'fd proto_vars" where
  "worker_proto_vars =
     \<lparr>File_worker_proto = None, worker_proto_goTypes = Some [],
      worker_proto_depIdxs = Some [0, 0, 0, 0, 0]\<rparr>"

definition worker_package_path :: string where
  "worker_package_path = ''github.com/RomanAgaltsev/flowhand/api/proto/gen/flowhand/v1''"

definition worker_type_builder :: "'fd proto_vars \<Rightarrow> type_builder" where
  "worker_type_builder v =
     \<lparr>tb_GoPackagePath = worker_package_path,
      tb_RawDescriptor = file_flowhand_v1_worker_proto_rawDesc,
      tb_NumEnums = 0, tb_NumMessages = 0, tb_NumExtensions = 0, tb_NumServices = 1,
      tb_GoTypes = worker_proto_goTypes v, tb_DependencyIndexes = worker_proto_depIdxs v\<rparr>"

definition worker_proto_init ::
  "(type_builder \<Rightarrow> 'fd option) \<Rightarrow> 'fd proto_vars \<Rightarrow> 'fd proto_vars" where
  "worker_proto_init build v =
     (if File_worker_proto v \<noteq> None then v
      else \<lparr>File_worker_proto = build (worker_type_builder v), worker_proto_goTypes = None,
            worker_proto_depIdxs = None\<rparr>)"

text \<open>
  The embedded bytes are the file's descriptor: every description they could encode is the .proto
  file of the repository.
\<close>

lemma rawDesc_encodes: "file_flowhand_v1_worker_proto_rawDesc = encode_file worker_proto"
  by code_simp

lemma rawDesc_decodes: "decode_file file_flowhand_v1_worker_proto_rawDesc = Some worker_proto"
  by (simp only: rawDesc_encodes decode_encode_file)

section \<open>worker\_grpc.pb.go\<close>

text \<open>The client holds its connection and has no methods.\<close>

record 'cc worker_client =
  wc_cc :: 'cc

definition NewWorkerServiceClient :: "'cc \<Rightarrow> 'cc worker_client" where
  "NewWorkerServiceClient cc = \<lparr>wc_cc = cc\<rparr>"

text \<open>
  How a type comes to implement \<open>WorkerServiceServer\<close>, whose method is unexported: by embedding
  \<open>UnimplementedWorkerServiceServer\<close>, as a value or as a pointer that may be nil, or by
  embedding an interface that hides its other method.
\<close>

datatype server_impl = EmbedsValue | EmbedsPointer "unit option" | EmbedsUnsafe

record service_desc =
  sd_ServiceName :: string
  sd_Methods :: "string list"
  sd_Streams :: "string list"
  sd_Metadata :: string

definition WorkerService_ServiceDesc :: service_desc where
  "WorkerService_ServiceDesc =
     \<lparr>sd_ServiceName = ''flowhand.v1.WorkerService'', sd_Methods = [], sd_Streams = [],
      sd_Metadata = ''flowhand/v1/worker.proto''\<rparr>"

text \<open>
  \<open>testEmbeddedByValue\<close> has a value receiver: through a nil pointer its call dereferences nil.
  An interface that is nil has no methods. A panic is \<open>Inl\<close>.
\<close>

definition testEmbeddedByValue :: "server_impl option \<Rightarrow> (gerr + unit) option" where
  "testEmbeddedByValue srv =
     (case srv of
        None \<Rightarrow> None
      | Some EmbedsUnsafe \<Rightarrow> None
      | Some EmbedsValue \<Rightarrow> Some (Inr ())
      | Some (EmbedsPointer (Some _)) \<Rightarrow> Some (Inr ())
      | Some (EmbedsPointer None) \<Rightarrow> Some (Inl (Plain ''invalid memory address or nil pointer dereference'')))"

definition RegisterWorkerServiceServer ::
  "(service_desc \<Rightarrow> server_impl option \<Rightarrow> 's \<Rightarrow> 's) \<Rightarrow> server_impl option \<Rightarrow> ('s, unit) op_res" where
  "RegisterWorkerServiceServer register srv s =
     (case testEmbeddedByValue srv of
        Some (Inl panic) \<Rightarrow> (s, Inl panic)
      | _ \<Rightarrow> (register WorkerService_ServiceDesc srv s, Inr ()))"

text \<open>
  A registered server is registered under the description; only a nil embedded pointer panics, and
  then nothing is registered.
\<close>

lemma RegisterWorkerServiceServer_cases:
  "RegisterWorkerServiceServer register srv s =
     (if srv = Some (EmbedsPointer None)
      then (s, Inl (Plain ''invalid memory address or nil pointer dereference''))
      else (register WorkerService_ServiceDesc srv s, Inr ()))"
  by (simp add: RegisterWorkerServiceServer_def testEmbeddedByValue_def
      split: option.split server_impl.split)

section \<open>Agreement with the .proto file\<close>

text \<open>What the builder is handed is within the bounds it indexes by, and it is handed it once.\<close>

lemma worker_proto_init_once:
  assumes "v = worker_proto_vars" and "build (worker_type_builder v) = Some d"
  shows "File_worker_proto (worker_proto_init build v) = Some d"
    and "worker_proto_init build (worker_proto_init build v) = worker_proto_init build v"
  using assms by (simp_all add: worker_proto_init_def worker_proto_vars_def)

lemma worker_type_builder_bounds:
  "list_all (\<lambda>i. unat i \<le> length (the (tb_GoTypes (worker_type_builder worker_proto_vars))))
     (the (tb_DependencyIndexes (worker_type_builder worker_proto_vars)))"
  by (simp add: worker_type_builder_def worker_proto_vars_def)

text \<open>
  The worker protocol's stubs are those of worker.proto: the descriptor embedded as bytes is
  its wire encoding and of no other file, and decodes to it; the builder is told as many services as
  it declares and the Go import path of its option; and the gRPC description registers the full name
  of its service, without methods or streams, under its file name.
\<close>

lemma worker_stubs_match_proto:
  "(encode_file f = tb_RawDescriptor (worker_type_builder v) \<longleftrightarrow> f = worker_proto)
   \<and> decode_file (tb_RawDescriptor (worker_type_builder v)) = Some worker_proto
   \<and> unat (tb_NumServices (worker_type_builder v)) = length (pf_services worker_proto)
   \<and> pf_go_package worker_proto = tb_GoPackagePath (worker_type_builder v) @ '';flowhandv1''
   \<and> map (\<lambda>n. pf_package worker_proto @ ''.'' @ n) (pf_services worker_proto)
       = [sd_ServiceName WorkerService_ServiceDesc]
   \<and> sd_Metadata WorkerService_ServiceDesc = pf_name worker_proto"
proof -
  have "encode_file f = file_flowhand_v1_worker_proto_rawDesc \<longleftrightarrow> f = worker_proto"
    by (metis rawDesc_encodes decode_encode_file option.inject)
  then show ?thesis
    by (simp add: worker_type_builder_def rawDesc_decodes)
      (simp add: worker_proto_def worker_package_path_def WorkerService_ServiceDesc_def)
qed

end
