(* ===== verification/Spec2Isabelle.thy ===== *)
theory Spec2Isabelle
  imports
    Client_Props Process_Life Demo_Props Http_Linear Handler_Reports Oas_Accessors Oas_Labels
    Oas_Unimplemented Worker_Proto
begin

text \<open>
  flowhand: a task orchestration service. A client submits a task over HTTP, optionally under an
  idempotency key, and reads it back by id. This library models the program from the database rows
  up to the generated client, and proves what each layer promises to the one above it.

  \<^bold>\<open>The parts and how they interact.\<close> \<open>cmd/flowhand\<close> runs \<open>internal/cli\<close>,
  whose server command loads the configuration, starts the observability stack, opens the pool,
  builds repository, service and handler bottom-up, and hands them to \<open>internal/server\<close>,
  which serves the ogen server of \<open>internal/api/oas\<close> over the handler of
  \<open>internal/api\<close>. The handler calls \<open>internal/service/task\<close>, which calls its ports:
  a tasks repository over the sqlc queries of \<open>internal/storage/queries\<close>, a transaction
  runner, an outbox. \<open>cmd/flowhand-demo\<close> is a producer that submits to such a server. The
  theories follow that order, each importing what it calls.

  \<^item> \<open>Go_Prelude\<close>: byte strings, times, error trees with \<open>errors.Is/As/Join\<close>,
    package \<open>strings\<close>, the shapes \<open>('s, 'a) op_res\<close> and \<open>'s op_err\<close> of
    stateful operations, the theorem collections.
  \<^item> \<open>Domain_Tasks\<close> (internal/domain): the task aggregate, statuses, the submitted event.
  \<^item> \<open>Pg_Schema\<close> (migrations): the tasks table and the two statement shapes, with unique
    indexes, defaults, NOT NULL, and a schedule of connection faults before or after a commit.
    \<open>Sqlc_Queries\<close> (internal/storage/queries): the generated statements over any DBTX.
  \<^item> \<open>Task_Ports\<close>: the consumer interfaces of ports.go as locales (\<open>task_store\<close>,
    \<open>tx_runner\<close>, \<open>outbox_port\<close>) with the laws the service relies on.
    \<open>Repo_Tasks\<close> and \<open>Tx_Outbox\<close> (internal/repository, internal/storage/txmgr)
    interpret them on the code's model; the manager and the outbox are stubs in the source and so
    they are here.
  \<^item> \<open>Task_Service\<close> (internal/service/task): \<open>Submit\<close> with its transaction closure
    and replay decision, \<open>Get\<close>, and the locale \<open>submit_service\<close> in which a submit's
    outcome over the stored rows is derived once. \<open>App_Wiring\<close> interprets it on the
    production object graph; \<open>Submit_Props\<close> holds the properties of histories of submits,
    \<open>Submit_Concurrent\<close> those of submits whose steps interleave, over the schedules of
    \<open>Interleaved_Steps\<close>, whose locale \<open>interleaved\<close> carries a law from the steps to
    every schedule; \<open>Submit_Linear\<close> orders them as atomic operations, under any faults.
  \<^item> \<open>Oas_Types\<close>, \<open>Oas_Validate\<close>, \<open>Jx_Iface\<close>, \<open>Oas_Json\<close>,
    \<open>Oas_Codec_Props\<close>: the contract's types, validators and JSON codecs with the bit sets of
    required members (8-bit words, as generated).
  \<^item> \<open>Http_Iface\<close>, \<open>Oas_Router\<close>, \<open>Oas_Server\<close>: requests, response writers
    with the code recorder, the static router as \<open>ServeHTTP\<close> and \<open>FindPath\<close> walk it,
    options, parameter and body decoding, response encoding, both handlers with the order of their
    deferred telemetry. \<open>Api_Handler\<close> (internal/api): mapper, handler, error handler, and the
    locale \<open>api_backend\<close> of its two interfaces. \<open>Api_Props\<close>: what holds for every
    backend; \<open>Api_Wiring\<close>: the interpretation on the process and sequences of requests;
    \<open>Handler_Reports\<close>: the handler's spans and log lines. \<open>Oas_Labels\<close>: the labeler
    and the label sets of the metrics and of a request's span. \<open>Oas_Unimplemented\<close>: the handler that implements
    nothing, and a server over it.
  \<^item> \<open>Http_Concurrent\<close>: requests cut into the stages at which other requests can be served,
    and that a request alone is what \<open>ServeHTTP\<close> answers. \<open>Http_Spec\<close>: the abstract
    specification of the whole service, and its refinement; \<open>Http_Linear\<close>: concurrent
    requests as atomic operations on the rows, under any faults.
  \<^item> \<open>Oas_Client\<close>, \<open>Client_Props\<close>: the generated client, and client and server over
    one transport.
  \<^item> \<open>App_Config\<close> (internal/config, internal/storage/pool.go): layers, names, ranges, pool.
    \<open>Obs_Process\<close> (internal/obs): logger, providers, \<open>Init\<close> and its shutdown.
    \<open>Server_Run\<close> (internal/server): the listening goroutine and \<open>Run\<close> as a step
    relation; \<open>Net_Url\<close> and \<open>Server_Mux\<close>: URL paths, the mux it serves and the root
    handler. \<open>Cli_Commands\<close> (internal/cli, cmd/flowhand): the commands, their flags, the server
    command's releases; commands and endpoints are instances of class \<open>enum\<close>, so each is
    registered once. \<open>Process_Life\<close> composes them: from the flag of the configuration file
    through the server \<open>Run\<close> builds and an execution of it to the exit code.
  \<^item> \<open>Demo_Producer\<close>, \<open>Demo_Props\<close> (cmd/flowhand-demo): the producer, alone and
    against the modelled server.
  \<^item> \<open>Worker_Proto\<close> (api/proto): the wire format with its round trip, the file descriptor
    the generated stubs embed, their initialisation and registration. Nothing in the program uses
    them yet.

  \<^bold>\<open>State.\<close> The state of the system is the record \<open>process\<close> of \<open>App_Wiring\<close>:
  the table, the fault schedule with its position, the clock and the id generator. Every operation
  takes a state and returns it changed with a value or an error; errors are \<open>gerr\<close> trees, so
  that wrapping, \<open>errors.Is\<close> and \<open>errors.As\<close> are those of the source. One request adds
  the record \<open>exchange\<close>: the response writer and the telemetry emitted. The process around
  it is \<open>process_state\<close> of \<open>Obs_Process\<close>, the trace of effects and the captured list
  of shutdown functions; a running server is \<open>run_state\<close> of \<open>Server_Run\<close>.

  \<^bold>\<open>What is shown.\<close> Idempotency: a history of submits adds at most one row per request and
  every answered request has its row, the only one of its key, whatever fails; equal keys get equal
  ids under faults between statements and commits and under interleaved submits and requests;
  refinement of an abstract key-to-task map, by the service and, request by request, by the whole
  server; linearizability of concurrent submits and of concurrent requests whatever statements fail;
  what replays, id collisions, failed submits and lost answers do, with the faults that excuse
  them; the order of port calls. Codecs: round trips through
  the wire, exact missing-member reports, agreement of the enumerations. HTTP: the router is the
  contract's path patterns, every request is answered once with an allowed status and a document of
  the contract, telemetry counts it once, also when its answer cannot be written, errors are logged
  once, its metrics stay within eighteen label sets and its span ends with theirs, the invariants of
  submits hold on the wire, and the generated client returns what the
  handler answered. Process: the value of every setting in terms of the documented names, the
  bounds of the pool sizes and what the pool is opened with; what the server command releases on
  each path, and what a failed start leaves running; an exit code that is 0 only after a complete
  life, \<open>Run\<close> without deadlock or leaked goroutine in at most six steps; the endpoints it serves,
  path by path, and that its mux hides no operation of the contract. Producer: its counters are
  exact and it never accuses the server.

  \<^bold>\<open>Parameters.\<close> Code outside the repository is an argument: the JSON library (what an
  encoder's calls become, what a decoder answers; the round trips assume, for the written value,
  that reading gives it back), ogen's helpers (record \<open>lib\<close>), koanf (its lookup laws are
  \<open>koanf_laws\<close>, with a list instance that keeps them), pgxpool, the OpenTelemetry SDK,
  \<open>encoding/json\<close> in the producer, URL handling in the client. No fuel is used: every loop
  of the source is structural here, or a step relation whose executions are bounded by a measure.

  \<^bold>\<open>Not modelled.\<close> What otelhttp, promhttp and pprof do with a request, the query of a
  redirect; the attributes of the client's span; the helper of ogen that calls a middleware, which
  is a parameter at the types of each operation; what protoimpl builds from a descriptor;
  cobra's dispatch and flag parsing; a panic inside \<open>Run\<close>, which would run the deferred
  releases of the server command; packages that hold only a comment. Concurrent requests
  interleave between their statements; reading a request and writing its response are one stage
  each, since they touch nothing that is shared. Waiting is not modelled: a statement is one step
  that is always enabled, so nothing is said of a request that waits for a connection of the pool,
  for a concurrent insert under the same key, or for a database that hangs. In the producer the
  counters are natural numbers where the source has \<open>int\<close>, and a body that fails while it is
  read is a failure even where the JSON decoder had a complete value. What koanf makes of a
  variable or a file entry that replaces a section is outside its laws here.
\<close>

end
